theory Spec2Isabelle
  imports Complex_Main "HOL-Library.Word"
begin

section \<open>The smoke propagation simulator (sim.hpp)\<close>

text \<open>
  A shallow embedding of \<^verbatim>\<open>class Sim\<close> and its nested \<^verbatim>\<open>Cell\<close> and \<^verbatim>\<open>Board\<close>:
  records for the structs, datatypes for the enums, lists for the two heap blocks of a
  board, a cell pointer as the index of the cell in its block, exceptions as the left
  summand of a sum type, and the function-static locals of \<^verbatim>\<open>Sim::cycle\<close> as a value
  of their own that outlives every \<^verbatim>\<open>Sim\<close>.
\<close>

subsection \<open>Arithmetic of \<^verbatim>\<open>float\<close>\<close>

text \<open>
  A \<^verbatim>\<open>float\<close> is modelled by the real number it denotes, and every arithmetic
  operation of the source by the exact operation followed by a rounding. The rounding is a
  parameter of the model: \<open>exact\<close> is arithmetic without rounding error, \<open>binary32\<close> is
  IEEE 754 single precision with round to nearest, ties to even. Infinities and NaN are
  not represented; a magnitude of \<open>2 ^ 128\<close> or more is rounded as if the exponent range
  went on.
\<close>

type_synonym rounding = "real \<Rightarrow> real"

definition exact :: rounding where
  "exact x = x"

text \<open>\<open>bexp a n\<close>: the largest \<open>e\<close> in \<open>[-126, n - 126]\<close> with \<open>2 ^ e \<le> a\<close>, and \<open>-126\<close>
  (the exponent of the subnormal numbers) when there is none.\<close>

fun bexp :: "real \<Rightarrow> nat \<Rightarrow> int" where
  "bexp a 0 = - 126"
| "bexp a (Suc n) =
     (if 2 powi (int (Suc n) - 126) \<le> a then int (Suc n) - 126 else bexp a n)"

definition round_even :: "real \<Rightarrow> int" where
  "round_even y =
     (let f = \<lfloor>y\<rfloor>; r = y - of_int f
      in if r < 1 / 2 then f else if 1 / 2 < r then f + 1 else if even f then f else f + 1)"

definition binary32 :: rounding where
  "binary32 x =
     (let a = \<bar>x\<bar>; q = bexp a 253 - 23
      in sgn x * of_int (round_even (a / 2 powi q)) * 2 powi q)"

definition fadd :: "rounding \<Rightarrow> real \<Rightarrow> real \<Rightarrow> real" where
  "fadd rnd a b = rnd (a + b)"

definition fsub :: "rounding \<Rightarrow> real \<Rightarrow> real \<Rightarrow> real" where
  "fsub rnd a b = rnd (a - b)"

definition fmul :: "rounding \<Rightarrow> real \<Rightarrow> real \<Rightarrow> real" where
  "fmul rnd a b = rnd (a * b)"

definition fdiv :: "rounding \<Rightarrow> real \<Rightarrow> real \<Rightarrow> real" where
  "fdiv rnd a b = rnd (a / b)"

text \<open>Conversion of a \<^verbatim>\<open>float\<close> to \<^verbatim>\<open>uchar\<close>: the fraction is discarded. The source
  leaves a value outside \<open>[0, 255]\<close> undefined; here it is reduced modulo 256.\<close>

definition float_to_uchar :: "real \<Rightarrow> 8 word" where
  "float_to_uchar x = word_of_int (if 0 \<le> x then \<lfloor>x\<rfloor> else \<lceil>x\<rceil>)"

subsection \<open>Unsigned coordinates\<close>

text \<open>\<^verbatim>\<open>uint\<close> is 32 bits wide: coordinates are natural numbers and the wrap-around of
  \<^verbatim>\<open>row - 1\<close>, \<^verbatim>\<open>row + 1\<close> and \<^verbatim>\<open>row * width + col\<close> is written out.\<close>

definition uint32 :: "nat \<Rightarrow> nat" where
  "uint32 n = n mod 4294967296"

definition uint32_dec :: "nat \<Rightarrow> nat" where
  "uint32_dec n = uint32 (n + 4294967295)"

definition uint32_inc :: "nat \<Rightarrow> nat" where
  "uint32_inc n = uint32 (n + 1)"

subsection \<open>Colours, directions, cells\<close>

definition wall_color :: "32 word" where "wall_color = 0x4D5D53FF"
definition floor_color :: "32 word" where "floor_color = 0xFFFFFFFF"
definition escape_color :: "32 word" where "escape_color = 0x0000FFFF"
definition emitter_color :: "32 word" where "emitter_color = 0xFF0000FF"

datatype Dir = North | South | West | East

definition directions :: "Dir list" where
  "directions = [North, South, West, East]"

datatype Type = Wall | Floor | Emitter | Escape

record Cell =
  type :: Type
  cost :: int
  row :: nat
  col :: nat
  omega_in :: real
  omega_out :: real
  density :: real
  outtake :: real
  intake :: real

subsection \<open>\<^verbatim>\<open>Sim::Board\<close>\<close>

record Board =
  width :: nat
  height :: nat
  pixmap :: "32 word list"
  cells :: "Cell list"

text \<open>The body of the two loops of the constructor, for one position. \<open>layout\<close> is the
  caller's buffer, read at an offset; its elements are the values of its \<^verbatim>\<open>char\<close>s.\<close>

definition Board_cell :: "(nat \<Rightarrow> int) \<Rightarrow> nat \<Rightarrow> nat \<Rightarrow> Board \<Rightarrow> Board" where
  "Board_cell layout row' col' b =
     (let idx = uint32 (row' * width b + col');
          c = (cells b ! idx)\<lparr>row := row', col := col'\<rparr>;
          cost0 = layout idx - 0x30
      in if cost0 \<le> - 1 then
           b\<lparr>pixmap := (pixmap b)[idx := wall_color],
             cells := (cells b)[idx := c\<lparr>type := Wall, cost := - 1, density := 0\<rparr>]\<rparr>
         else if 10 \<le> cost0 then
           b\<lparr>pixmap := (pixmap b)[idx := escape_color],
             cells := (cells b)[idx := c\<lparr>type := Escape, cost := 10, density := 0\<rparr>]\<rparr>
         else
           b\<lparr>pixmap := (pixmap b)[idx := floor_color],
             cells := (cells b)[idx := c\<lparr>type := Floor, cost := cost0, density := 0\<rparr>]\<rparr>)"

text \<open>The constructor. The two blocks come from \<^verbatim>\<open>malloc\<close>: \<open>pmem\<close> and \<open>cmem\<close> are
  what they hold before the constructor writes to them, and the fields the constructor
  does not write keep that content.\<close>

definition new_Board ::
  "(nat \<Rightarrow> 32 word) \<Rightarrow> (nat \<Rightarrow> Cell) \<Rightarrow> nat \<Rightarrow> nat \<Rightarrow> (nat \<Rightarrow> int) \<Rightarrow> Board" where
  "new_Board pmem cmem w h layout =
     (let b = \<lparr>width = w, height = h,
               pixmap = map pmem [0..<uint32 (w * h)],
               cells = map cmem [0..<uint32 (w * h)]\<rparr>
      in fold (\<lambda>row'. fold (\<lambda>col'. Board_cell layout row' col') [0..<width b]) [0..<height b] b)"

text \<open>\<^verbatim>\<open>cellAt(row, col)\<close>: the cell pointer is the index of the cell, \<open>None\<close> is
  \<^verbatim>\<open>nullptr\<close>. The two tests against zero of the source never hold for a \<^verbatim>\<open>uint\<close>.\<close>

definition cellAt :: "Board \<Rightarrow> nat \<Rightarrow> nat \<Rightarrow> nat option" where
  "cellAt b row' col' =
     (if height b \<le> row' \<or> width b \<le> col' then None
      else Some (uint32 (row' * width b + col')))"

fun cellAt_dir :: "Board \<Rightarrow> Dir \<Rightarrow> nat \<Rightarrow> nat \<Rightarrow> nat option" where
  "cellAt_dir b North row' col' = cellAt b (uint32_dec row') col'"
| "cellAt_dir b South row' col' = cellAt b (uint32_inc row') col'"
| "cellAt_dir b West row' col' = cellAt b row' (uint32_dec col')"
| "cellAt_dir b East row' col' = cellAt b row' (uint32_inc col')"

definition writePixel :: "Board \<Rightarrow> nat \<Rightarrow> nat \<Rightarrow> 32 word \<Rightarrow> Board" where
  "writePixel b row' col' rgba = b\<lparr>pixmap := (pixmap b)[uint32 (row' * width b + col') := rgba]\<rparr>"

definition writePixel_rgb :: "Board \<Rightarrow> nat \<Rightarrow> nat \<Rightarrow> 8 word \<Rightarrow> 8 word \<Rightarrow> 8 word \<Rightarrow> Board" where
  "writePixel_rgb b row' col' r g bl =
     writePixel b row' col'
       (or (or (or (push_bit 24 (ucast r)) (push_bit 16 (ucast g))) (push_bit 8 (ucast bl))) 0xFF)"

subsection \<open>\<^verbatim>\<open>Sim\<close>: construction\<close>

text \<open>The three \<^verbatim>\<open>std::runtime_error\<close>s of the source, and the dereference of a null
  cell pointer that the weight loop of the constructor does not guard.\<close>

datatype error =
    OutOfBounds \<comment> \<open>"Emitter coordinates out of bounds."\<close>
  | InvalidEmitterPlacement \<comment> \<open>"Emitter not on floor tile."\<close>
  | MissingCell \<comment> \<open>"Unexpected missing Cell in valid location."\<close>
  | NullDereference

datatype State = Stop | Run | Step

record Sim =
  state :: State
  ticks :: "32 word"
  tick_rate :: int
  emitter_rate :: real
  escape_rate :: real
  use_precalc_weights :: bool
  board :: Board

text \<open>A loop whose body can throw: the first error ends it.\<close>

fun foldE :: "('a \<Rightarrow> 's \<Rightarrow> error + 's) \<Rightarrow> 'a list \<Rightarrow> 's \<Rightarrow> error + 's" where
  "foldE f [] s = Inr s"
| "foldE f (x # xs) s = (case f x s of Inl e \<Rightarrow> Inl e | Inr s' \<Rightarrow> foldE f xs s')"

text \<open>The block "Emitter placement" of the constructor.\<close>

definition place_emitter :: "Board \<Rightarrow> nat \<Rightarrow> nat \<Rightarrow> error + Board" where
  "place_emitter b emitter_row emitter_col =
     (case cellAt b emitter_row emitter_col of
        None \<Rightarrow> Inl OutOfBounds
      | Some e \<Rightarrow>
          if cost (cells b ! e) < 0 \<or> 9 < cost (cells b ! e) then Inl InvalidEmitterPlacement
          else Inr (b\<lparr>cells := (cells b)[e := (cells b ! e)\<lparr>type := Emitter, density := 1\<rparr>]\<rparr>))"

text \<open>The body of \<^verbatim>\<open>for (auto dir : directions)\<close> in the weight loop: the counters
  \<open>(ins, outs)\<close> after one neighbour.\<close>

definition count_adj :: "Board \<Rightarrow> nat \<Rightarrow> nat \<Rightarrow> Dir \<Rightarrow> nat \<times> nat \<Rightarrow> nat \<times> nat" where
  "count_adj b row' col' dir io =
     (case cellAt_dir b dir row' col' of
        None \<Rightarrow> io
      | Some adj \<Rightarrow>
          (case type (cells b ! adj) of
             Wall \<Rightarrow> io
           | Floor \<Rightarrow> (fst io + 1, snd io + 1)
           | Emitter \<Rightarrow> (fst io + 1, snd io)
           | Escape \<Rightarrow> (fst io, snd io + 1)))"

definition weigh_cell :: "rounding \<Rightarrow> nat \<Rightarrow> nat \<Rightarrow> Board \<Rightarrow> error + Board" where
  "weigh_cell rnd row' col' b =
     (let io = fold (count_adj b row' col') directions (0, 0)
      in case cellAt b row' col' of
           None \<Rightarrow> Inl NullDereference
         | Some cur \<Rightarrow>
             Inr (b\<lparr>cells := (cells b)[cur := (cells b ! cur)
                   \<lparr>omega_in := (if fst io = 0 then 0 else fdiv rnd 1 (real (fst io))),
                    omega_out := (if snd io = 0 then 0 else fdiv rnd 1 (real (snd io)))\<rparr>]\<rparr>))"

definition weigh_board :: "rounding \<Rightarrow> Board \<Rightarrow> error + Board" where
  "weigh_board rnd b =
     foldE (\<lambda>row'. foldE (\<lambda>col'. weigh_cell rnd row' col') [0..<width b]) [0..<height b] b"

definition new_Sim ::
  "rounding \<Rightarrow> (nat \<Rightarrow> 32 word) \<Rightarrow> (nat \<Rightarrow> Cell) \<Rightarrow> nat \<Rightarrow> nat \<Rightarrow> (nat \<Rightarrow> int) \<Rightarrow> nat \<Rightarrow> nat
     \<Rightarrow> error + Sim" where
  "new_Sim rnd pmem cmem board_width board_height layout emitter_row emitter_col =
     (case place_emitter (new_Board pmem cmem board_width board_height layout)
             emitter_row emitter_col of
        Inl e \<Rightarrow> Inl e
      | Inr b \<Rightarrow>
          (case weigh_board rnd (writePixel b emitter_row emitter_col emitter_color) of
             Inl e \<Rightarrow> Inl e
           | Inr b' \<Rightarrow>
               Inr \<lparr>state = Stop, ticks = 0, tick_rate = 1, emitter_rate = 1, escape_rate = 1,
                    use_precalc_weights = False, board = b'\<rparr>))"

subsection \<open>\<^verbatim>\<open>Sim::cycle\<close>: the board update\<close>

text \<open>Writes through a cell pointer: \<^verbatim>\<open>p->intake = v\<close>, \<^verbatim>\<open>p->outtake = v\<close> and
  \<^verbatim>\<open>p->density = v\<close> on the block of cells.\<close>

definition set_intake :: "Cell list \<Rightarrow> nat \<Rightarrow> real \<Rightarrow> Cell list" where
  "set_intake cs p v = cs[p := (cs ! p)\<lparr>intake := v\<rparr>]"

definition set_outtake :: "Cell list \<Rightarrow> nat \<Rightarrow> real \<Rightarrow> Cell list" where
  "set_outtake cs p v = cs[p := (cs ! p)\<lparr>outtake := v\<rparr>]"

definition set_density :: "Cell list \<Rightarrow> nat \<Rightarrow> real \<Rightarrow> Cell list" where
  "set_density cs p v = cs[p := (cs ! p)\<lparr>density := v\<rparr>]"

text \<open>The \<^verbatim>\<open>switch (adj->type)\<close> of the update: what it writes to the neighbour
  \<open>adj\<close> of the floor cell \<open>cur\<close>.\<close>

definition exchange ::
  "rounding \<Rightarrow> real \<Rightarrow> real \<Rightarrow> real \<Rightarrow> real \<Rightarrow> real \<Rightarrow> real \<Rightarrow> nat \<Rightarrow> nat \<Rightarrow> Cell list \<Rightarrow> Cell list" where
  "exchange rnd er esr cur_omega_out cur_omega_in adj_omega_out adj_omega_in cur adj cs =
     (case type (cs ! adj) of
        Wall \<Rightarrow> cs
      | Floor \<Rightarrow>
          (let cs1 = set_intake cs adj
                       (min (fmul rnd cur_omega_out (density (cs ! cur)))
                            (fmul rnd adj_omega_in (fsub rnd 1 (density (cs ! adj)))))
           in set_outtake cs1 adj
                (min (fmul rnd adj_omega_out (density (cs1 ! adj)))
                     (fmul rnd cur_omega_in (fsub rnd 1 (density (cs1 ! cur))))))
      | Emitter \<Rightarrow>
          set_outtake cs adj
            (fmul rnd er
               (min (fmul rnd adj_omega_out (density (cs ! adj)))
                    (fmul rnd cur_omega_in (fsub rnd 1 (density (cs ! cur))))))
      | Escape \<Rightarrow>
          set_intake cs adj (fmul rnd (fmul rnd esr cur_omega_out) (density (cs ! cur))))"

text \<open>The body of \<^verbatim>\<open>for (auto dir : directions)\<close> for a floor cell \<open>cur\<close>. Both cells
  are read and written through their pointers, in the order of the source.\<close>

definition update_adj ::
  "rounding \<Rightarrow> real \<Rightarrow> real \<Rightarrow> bool \<Rightarrow> real \<Rightarrow> real \<Rightarrow> nat \<Rightarrow> nat \<Rightarrow> nat \<Rightarrow> Dir \<Rightarrow> Board \<Rightarrow> Board" where
  "update_adj rnd er esr upw cur_omega_out cur_omega_in cur row' col' dir b =
     (case cellAt_dir b dir row' col' of
        None \<Rightarrow> b
      | Some adj \<Rightarrow>
          (let adj_omega_out = (if upw then omega_out (cells b ! adj) else 1 / 4);
               adj_omega_in = (if upw then omega_in (cells b ! adj) else 1 / 4);
               cs1 = set_outtake (set_intake (cells b) adj 0) adj 0;
               cs2 = exchange rnd er esr cur_omega_out cur_omega_in adj_omega_out adj_omega_in
                       cur adj cs1;
               cs3 = set_intake cs2 cur (fadd rnd (intake (cs2 ! cur)) (outtake (cs2 ! adj)));
               cs4 = set_outtake cs3 cur (fadd rnd (outtake (cs3 ! cur)) (intake (cs3 ! adj)))
           in b\<lparr>cells := cs4\<rparr>))"

text \<open>The body of the two loops of the update, for one position. \<open>er\<close>, \<open>esr\<close> and
  \<open>upw\<close> are the static locals \<^verbatim>\<open>emitter_rate\<close>, \<^verbatim>\<open>escape_rate\<close> and
  \<^verbatim>\<open>use_precalc_weights\<close>, which hide the members of the same names.\<close>

definition update_cell ::
  "rounding \<Rightarrow> real \<Rightarrow> real \<Rightarrow> bool \<Rightarrow> nat \<Rightarrow> nat \<Rightarrow> Board \<Rightarrow> error + Board" where
  "update_cell rnd er esr upw row' col' b =
     (case cellAt b row' col' of
        None \<Rightarrow> Inl MissingCell
      | Some cur \<Rightarrow>
          (let cur_omega_out = (if upw then omega_out (cells b ! cur) else 1 / 4);
               cur_omega_in = (if upw then omega_in (cells b ! cur) else 1 / 4);
               b1 = b\<lparr>cells := set_outtake (set_intake (cells b) cur 0) cur 0\<rparr>
           in case type (cells b1 ! cur) of
                Wall \<Rightarrow> Inr b1
              | Floor \<Rightarrow>
                  (let b2 = fold (update_adj rnd er esr upw cur_omega_out cur_omega_in cur row' col')
                              directions b1;
                       d = fadd rnd (density (cells b2 ! cur))
                             (fsub rnd (intake (cells b2 ! cur)) (outtake (cells b2 ! cur)));
                       b3 = b2\<lparr>cells := set_density (cells b2) cur d\<rparr>;
                       l = float_to_uchar (fsub rnd 255 (fmul rnd 255 (density (cells b3 ! cur))))
                   in Inr (writePixel_rgb b3 row' col' l l l))
              | Emitter \<Rightarrow>
                  (let l = float_to_uchar (fmul rnd 255 er)
                   in Inr (writePixel_rgb b1 row' col' l (255 - l) (255 - l)))
              | Escape \<Rightarrow>
                  (let l = float_to_uchar (fmul rnd 255 esr)
                   in Inr (writePixel_rgb b1 row' col' (255 - l) (255 - l) l))))"

definition update_board :: "rounding \<Rightarrow> real \<Rightarrow> real \<Rightarrow> bool \<Rightarrow> Board \<Rightarrow> error + Board" where
  "update_board rnd er esr upw b =
     foldE (\<lambda>row'. foldE (\<lambda>col'. update_cell rnd er esr upw row' col') [0..<width b])
       [0..<height b] b"

subsection \<open>\<^verbatim>\<open>Sim::cycle\<close> and \<^verbatim>\<open>Sim::step\<close>\<close>

text \<open>The function-static locals of \<^verbatim>\<open>cycle\<close>. They belong to the program, not to a
  \<^verbatim>\<open>Sim\<close>: \<open>None\<close> until the first call of \<^verbatim>\<open>cycle\<close> in the program initialises
  them from the \<^verbatim>\<open>Sim\<close> it is called on. The counter is an \<^verbatim>\<open>int\<close> of the source and
  unbounded here.\<close>

record Statics =
  frame_skip_counter :: int
  static_emitter_rate :: real
  static_escape_rate :: real
  static_use_precalc_weights :: bool

definition init_statics :: "Statics option \<Rightarrow> Sim \<Rightarrow> Statics" where
  "init_statics sto s =
     (case sto of
        None \<Rightarrow> \<lparr>frame_skip_counter = tick_rate s, static_emitter_rate = emitter_rate s,
                  static_escape_rate = escape_rate s,
                  static_use_precalc_weights = use_precalc_weights s\<rparr>
      | Some st \<Rightarrow> st)"

definition cycle :: "rounding \<Rightarrow> Statics option \<Rightarrow> Sim \<Rightarrow> error + (Statics option \<times> Sim)" where
  "cycle rnd sto s =
     (let st = init_statics sto s
      in if state s = Stop then Inr (Some st, s)
         else
           (let st1 = (if state s = Run
                       then st\<lparr>frame_skip_counter := frame_skip_counter st - 1\<rparr> else st)
            in if state s = Run \<and> frame_skip_counter st1 \<noteq> 0 then Inr (Some st1, s)
               else
                 (case update_board rnd (static_emitter_rate st1) (static_escape_rate st1)
                         (static_use_precalc_weights st1) (board s) of
                    Inl e \<Rightarrow> Inl e
                  | Inr b \<Rightarrow>
                      (let s1 = s\<lparr>board := b, ticks := ticks s + 1\<rparr>;
                           st2 = (if state s1 = Run
                                  then st1\<lparr>frame_skip_counter := tick_rate s1\<rparr> else st1)
                       in Inr (Some (st2\<lparr>static_emitter_rate := emitter_rate s1,
                                         static_escape_rate := escape_rate s1,
                                         static_use_precalc_weights := use_precalc_weights s1\<rparr>),
                               s1)))))"

definition start :: "Sim \<Rightarrow> Sim" where
  "start s = s\<lparr>state := Run\<rparr>"

definition stop :: "Sim \<Rightarrow> Sim" where
  "stop s = s\<lparr>state := Stop\<rparr>"

definition isRunning :: "Sim \<Rightarrow> bool" where
  "isRunning s = (if state s = Run then True else False)"

definition getTicks :: "Sim \<Rightarrow> 32 word" where
  "getTicks s = ticks s"

definition step :: "rounding \<Rightarrow> Statics option \<Rightarrow> Sim \<Rightarrow> error + (Statics option \<times> Sim)" where
  "step rnd sto s =
     (case cycle rnd sto (s\<lparr>state := Step\<rparr>) of
        Inl e \<Rightarrow> Inl e
      | Inr (sto', s') \<Rightarrow> Inr (sto', s'\<lparr>state := Stop\<rparr>))"

subsection \<open>The host\<close>

text \<open>What a host does with a \<^verbatim>\<open>Sim\<close> between construction and destruction: the calls
  of its member functions and the assignments to its public configuration members.\<close>

datatype call =
    Start | StopSim | Cycle | StepOnce
  | SetTickRate int | SetEmitterRate real | SetEscapeRate real | SetUsePrecalcWeights bool

fun perform :: "rounding \<Rightarrow> call \<Rightarrow> Statics option \<times> Sim \<Rightarrow> error + (Statics option \<times> Sim)" where
  "perform rnd Start (sto, s) = Inr (sto, start s)"
| "perform rnd StopSim (sto, s) = Inr (sto, stop s)"
| "perform rnd Cycle (sto, s) = cycle rnd sto s"
| "perform rnd StepOnce (sto, s) = step rnd sto s"
| "perform rnd (SetTickRate n) (sto, s) = Inr (sto, s\<lparr>tick_rate := n\<rparr>)"
| "perform rnd (SetEmitterRate x) (sto, s) = Inr (sto, s\<lparr>emitter_rate := x\<rparr>)"
| "perform rnd (SetEscapeRate x) (sto, s) = Inr (sto, s\<lparr>escape_rate := x\<rparr>)"
| "perform rnd (SetUsePrecalcWeights p) (sto, s) = Inr (sto, s\<lparr>use_precalc_weights := p\<rparr>)"

definition run :: "rounding \<Rightarrow> call list \<Rightarrow> Statics option \<times> Sim \<Rightarrow> error + (Statics option \<times> Sim)" where
  "run rnd cs p = foldE (perform rnd) cs p"

section \<open>Vocabulary of the properties\<close>

text \<open>\<open>evolves b b'\<close>: the board \<open>b'\<close> has the shape, the cell types and the weights of
  \<open>b\<close>, and the densities of \<open>b\<close> in every cell that is not a floor cell.\<close>

definition evolves :: "Board \<Rightarrow> Board \<Rightarrow> bool" where
  "evolves b b' \<longleftrightarrow>
     width b' = width b \<and> height b' = height b \<and>
     length (pixmap b') = length (pixmap b) \<and> length (cells b') = length (cells b) \<and>
     (\<forall>k. type (cells b' ! k) = type (cells b ! k) \<and>
          omega_in (cells b' ! k) = omega_in (cells b ! k) \<and>
          omega_out (cells b' ! k) = omega_out (cells b ! k) \<and>
          (type (cells b ! k) \<noteq> Floor \<longrightarrow> density (cells b' ! k) = density (cells b ! k)))"

text \<open>\<open>walls_idle b\<close>: the scratch fields of every wall cell of \<open>b\<close> are 0.\<close>

definition walls_idle :: "Board \<Rightarrow> bool" where
  "walls_idle b \<longleftrightarrow>
     (\<forall>k < length (cells b). type (cells b ! k) = Wall \<longrightarrow>
        intake (cells b ! k) = 0 \<and> outtake (cells b ! k) = 0)"

text \<open>Calls during which no board update completes: after each of them \<^verbatim>\<open>getTicks\<close>
  returns what it returned before.\<close>

fun quiet :: "rounding \<Rightarrow> call list \<Rightarrow> Statics option \<times> Sim \<Rightarrow> bool" where
  "quiet rnd [] p = True"
| "quiet rnd (c # cs) p =
     (case perform rnd c p of
        Inl e \<Rightarrow> False
      | Inr p' \<Rightarrow> getTicks (snd p') = getTicks (snd p) \<and> quiet rnd cs p')"

text \<open>The three latched values, and the three configuration members they are copies of.\<close>

definition latched :: "Statics \<Rightarrow> real \<times> real \<times> bool" where
  "latched st = (static_emitter_rate st, static_escape_rate st, static_use_precalc_weights st)"

definition config :: "Sim \<Rightarrow> real \<times> real \<times> bool" where
  "config s = (emitter_rate s, escape_rate s, use_precalc_weights s)"

subsection \<open>Construction\<close>

text \<open>The classification of a layout code, as the constructor makes it.\<close>

definition classify :: "int \<Rightarrow> Type \<times> int \<times> 32 word" where
  "classify code =
     (if code - 48 \<le> - 1 then (Wall, - 1, wall_color)
      else if 10 \<le> code - 48 then (Escape, 10, escape_color)
      else (Floor, code - 48, floor_color))"

text \<open>\<open>classified layout w r c b\<close>: the cell of \<open>b\<close> at row \<open>r\<close>, column \<open>c\<close> and its pixel
  are what the constructor of the board makes of the code at that position.\<close>

definition classified :: "(nat \<Rightarrow> int) \<Rightarrow> nat \<Rightarrow> nat \<Rightarrow> nat \<Rightarrow> Board \<Rightarrow> bool" where
  "classified layout w r c b \<longleftrightarrow>
     type (cells b ! (r * w + c)) = fst (classify (layout (r * w + c))) \<and>
     cost (cells b ! (r * w + c)) = fst (snd (classify (layout (r * w + c)))) \<and>
     row (cells b ! (r * w + c)) = r \<and> col (cells b ! (r * w + c)) = c \<and>
     density (cells b ! (r * w + c)) = 0 \<and>
     pixmap b ! (r * w + c) = snd (snd (classify (layout (r * w + c))))"

text \<open>The board after the block "Emitter placement" and the write of the emitter's pixel,
  and the \<^verbatim>\<open>Sim\<close> with the default member initialisers.\<close>

definition emitter_placed :: "Board \<Rightarrow> nat \<Rightarrow> Board" where
  "emitter_placed b e =
     b\<lparr>cells := (cells b)[e := (cells b ! e)\<lparr>type := Emitter, density := 1\<rparr>],
       pixmap := (pixmap b)[e := emitter_color]\<rparr>"

definition default_Sim :: "Board \<Rightarrow> Sim" where
  "default_Sim b =
     \<lparr>state = Stop, ticks = 0, tick_rate = 1, emitter_rate = 1, escape_rate = 1,
       use_precalc_weights = False, board = b\<rparr>"

text \<open>\<open>reweighted b b'\<close>: \<open>b'\<close> is \<open>b\<close> but for the weights of its cells.\<close>

definition reweighted :: "Board \<Rightarrow> Board \<Rightarrow> bool" where
  "reweighted b b' \<longleftrightarrow>
     width b' = width b \<and> height b' = height b \<and> pixmap b' = pixmap b \<and>
     length (cells b') = length (cells b) \<and>
     (\<forall>k. type (cells b' ! k) = type (cells b ! k) \<and> cost (cells b' ! k) = cost (cells b ! k) \<and>
          row (cells b' ! k) = row (cells b ! k) \<and> col (cells b' ! k) = col (cells b ! k) \<and>
          density (cells b' ! k) = density (cells b ! k) \<and>
          intake (cells b' ! k) = intake (cells b ! k) \<and>
          outtake (cells b' ! k) = outtake (cells b ! k))"

subsection \<open>Weights\<close>

text \<open>The neighbours of a position in the words of the specification: the positions one
  step to the north, south, west and east that lie in the grid, and how many of them
  hold a source of inflow (a floor or the emitter) or a sink of outflow (a floor or an
  opening).\<close>

definition neighbours :: "nat \<Rightarrow> nat \<Rightarrow> nat \<Rightarrow> nat \<Rightarrow> (nat \<times> nat) list" where
  "neighbours w h r c =
     (if 0 < r then [(r - 1, c)] else []) @ (if r + 1 < h then [(r + 1, c)] else []) @
     (if 0 < c then [(r, c - 1)] else []) @ (if c + 1 < w then [(r, c + 1)] else [])"

definition kind :: "Board \<Rightarrow> nat \<times> nat \<Rightarrow> Type" where
  "kind b p = type (cells b ! (fst p * width b + snd p))"

definition ins_count :: "Board \<Rightarrow> nat \<Rightarrow> nat \<Rightarrow> nat" where
  "ins_count b r c =
     length (filter (\<lambda>p. kind b p = Floor \<or> kind b p = Emitter)
               (neighbours (width b) (height b) r c))"

definition outs_count :: "Board \<Rightarrow> nat \<Rightarrow> nat \<Rightarrow> nat" where
  "outs_count b r c =
     length (filter (\<lambda>p. kind b p = Floor \<or> kind b p = Escape)
               (neighbours (width b) (height b) r c))"

text \<open>What one neighbour adds to the two counters.\<close>

definition inflow :: "Type \<Rightarrow> nat" where
  "inflow t = (if t = Floor \<or> t = Emitter then 1 else 0)"

definition outflow :: "Type \<Rightarrow> nat" where
  "outflow t = (if t = Floor \<or> t = Escape then 1 else 0)"

text \<open>The weights in the words of the specification.\<close>

definition weight :: "rounding \<Rightarrow> nat \<Rightarrow> real" where
  "weight rnd n = (if n = 0 then 0 else fdiv rnd 1 (real n))"

definition weighted :: "rounding \<Rightarrow> Board \<Rightarrow> nat \<Rightarrow> nat \<Rightarrow> Board \<Rightarrow> bool" where
  "weighted rnd b r c b' \<longleftrightarrow>
     omega_in (cells b' ! (r * width b + c)) = weight rnd (ins_count b r c) \<and>
     omega_out (cells b' ! (r * width b + c)) = weight rnd (outs_count b r c)"

subsection \<open>Capacity\<close>

text \<open>\<open>bounded b\<close>: the density of every floor cell of \<open>b\<close> lies in \<open>[0, 1]\<close>.\<close>

definition bounded :: "Board \<Rightarrow> bool" where
  "bounded b \<longleftrightarrow>
     (\<forall>k < length (cells b). type (cells b ! k) = Floor \<longrightarrow>
        0 \<le> density (cells b ! k) \<and> density (cells b ! k) \<le> 1)"

text \<open>\<open>regular b\<close>: what the exchange relies on besides. The grid has fewer than \<open>2^32\<close>
  cells, no weight and no density of an emitter is negative, and the weights of a cell,
  summed over the neighbours that count for them, are at most 1.\<close>

definition regular :: "Board \<Rightarrow> bool" where
  "regular b \<longleftrightarrow>
     width b * height b < 4294967296 \<and> length (cells b) = width b * height b \<and>
     (\<forall>k < length (cells b).
        0 \<le> omega_in (cells b ! k) \<and> 0 \<le> omega_out (cells b ! k) \<and>
        (type (cells b ! k) = Emitter \<longrightarrow> 0 \<le> density (cells b ! k))) \<and>
     (\<forall>r < height b. \<forall>c < width b.
        real (ins_count b r c) * omega_in (cells b ! (r * width b + c)) \<le> 1 \<and>
        real (outs_count b r c) * omega_out (cells b ! (r * width b + c)) \<le> 1)"

section \<open>Scenarios\<close>

text \<open>Two blocks as \<^verbatim>\<open>malloc\<close> may return them, of cells and of pixels, and the layout
  \<^verbatim>\<open>"00:"\<close> of one row: two floor tiles of height 0 and an opening.\<close>

definition blank :: Cell where
  "blank = \<lparr>type = Wall, cost = 0, row = 0, col = 0, omega_in = 0, omega_out = 0,
             density = 0, outtake = 0, intake = 0\<rparr>"

definition blanks :: "nat \<Rightarrow> Cell" where
  "blanks i = blank"

definition black :: "nat \<Rightarrow> 32 word" where
  "black i = 0"

text \<open>A block of cells that is not zero, and the layout \<^verbatim>\<open>"0/"\<close> of one row: a floor tile
  and a wall.\<close>

definition used :: "nat \<Rightarrow> Cell" where
  "used i = blank\<lparr>outtake := 7, intake := 5\<rparr>"

definition walled :: "nat \<Rightarrow> int" where
  "walled i = [48, 47] ! i"

definition walled_sim :: Sim where
  "walled_sim =
     \<lparr>state = Stop, ticks = 0, tick_rate = 1, emitter_rate = 1, escape_rate = 1,
       use_precalc_weights = False,
       board = \<lparr>width = 2, height = 1, pixmap = [emitter_color, wall_color],
                 cells =
                   [\<lparr>type = Emitter, cost = 0, row = 0, col = 0, omega_in = 0, omega_out = 0,
                      density = 1, outtake = 7, intake = 5\<rparr>,
                    \<lparr>type = Wall, cost = - 1, row = 0, col = 1, omega_in = 1, omega_out = 0,
                      density = 0, outtake = 7, intake = 5\<rparr>]\<rparr>\<rparr>"

definition corridor :: "nat \<Rightarrow> int" where
  "corridor i = [48, 48, 58] ! i"

text \<open>The \<^verbatim>\<open>Sim\<close> constructed on it with the emitter at row 0, column 0.\<close>

definition corridor_sim :: Sim where
  "corridor_sim =
     \<lparr>state = Stop, ticks = 0, tick_rate = 1, emitter_rate = 1, escape_rate = 1,
       use_precalc_weights = False,
       board = \<lparr>width = 3, height = 1, pixmap = [emitter_color, floor_color, escape_color],
                 cells =
                   [\<lparr>type = Emitter, cost = 0, row = 0, col = 0, omega_in = 1, omega_out = 1,
                      density = 1, outtake = 0, intake = 0\<rparr>,
                    \<lparr>type = Floor, cost = 0, row = 0, col = 1, omega_in = 1, omega_out = 1,
                      density = 0, outtake = 0, intake = 0\<rparr>,
                    \<lparr>type = Escape, cost = 10, row = 0, col = 2, omega_in = 1, omega_out = 1,
                      density = 0, outtake = 0, intake = 0\<rparr>]\<rparr>\<rparr>"

text \<open>Its board after an update with both rates 1 and the precalculated weights that
  leaves the floor cell with density \<open>d\<close>.\<close>

definition corridor_board :: "real \<Rightarrow> Board" where
  "corridor_board d =
     \<lparr>width = 3, height = 1,
       pixmap = [0xFF0000FF, if d = 1 then 0x000000FF else 0xFFFFFFFF, 0x0000FFFF],
       cells =
         [\<lparr>type = Emitter, cost = 0, row = 0, col = 0, omega_in = 1, omega_out = 1,
            density = 1, outtake = d, intake = 0\<rparr>,
          \<lparr>type = Floor, cost = 0, row = 0, col = 1, omega_in = 1, omega_out = 1,
            density = d, outtake = 1 - d, intake = d\<rparr>,
          \<lparr>type = Escape, cost = 10, row = 0, col = 2, omega_in = 1, omega_out = 1,
            density = 0, outtake = 0, intake = 0\<rparr>]\<rparr>"

text \<open>Its board after an update in which the floor cell takes \<open>i\<close> from the emitter
  and gives \<open>g\<close> to the opening, which leaves it with density \<open>d\<close> and the pixel \<open>p\<close>.\<close>

definition corridor_after :: "32 word \<Rightarrow> real \<Rightarrow> real \<Rightarrow> real \<Rightarrow> Board" where
  "corridor_after p d i g =
     \<lparr>width = 3, height = 1, pixmap = [0xFF0000FF, p, 0x0000FFFF],
       cells =
         [\<lparr>type = Emitter, cost = 0, row = 0, col = 0, omega_in = 1, omega_out = 1,
            density = 1, outtake = i, intake = 0\<rparr>,
          \<lparr>type = Floor, cost = 0, row = 0, col = 1, omega_in = 1, omega_out = 1,
            density = d, outtake = g, intake = i\<rparr>,
          \<lparr>type = Escape, cost = 10, row = 0, col = 2, omega_in = 1, omega_out = 1,
            density = 0, outtake = 0, intake = 0\<rparr>]\<rparr>"

text \<open>The boards of the corridor: the emitter, a floor cell of density \<open>d\<close> and the
  opening, with the weights of the constructor.\<close>

definition corridor_state :: "real \<Rightarrow> Board \<Rightarrow> bool" where
  "corridor_state d b \<longleftrightarrow>
     width b = 3 \<and> height b = 1 \<and> length (cells b) = 3 \<and>
     type (cells b ! 0) = Emitter \<and> type (cells b ! 1) = Floor \<and> type (cells b ! 2) = Escape \<and>
     density (cells b ! 0) = 1 \<and> density (cells b ! 1) = d \<and> density (cells b ! 2) = 0 \<and>
     omega_in (cells b ! 0) = 1 \<and> omega_in (cells b ! 1) = 1 \<and> omega_in (cells b ! 2) = 1 \<and>
     omega_out (cells b ! 0) = 1 \<and> omega_out (cells b ! 1) = 1 \<and> omega_out (cells b ! 2) = 1"

text \<open>The crossing: the layout of three rows
  \<^verbatim>\<open>"/:/"\<close>, \<^verbatim>\<open>":0:"\<close>, \<^verbatim>\<open>"/0/"\<close>, with the emitter at row 2, column 1. The floor cell in the
  middle has the emitter to its south and an opening on each other side. Its board is
  given with the pixels \<open>pe\<close>, \<open>pf\<close> and \<open>px\<close> of the emitter, the floor cell and the
  openings, the density \<open>d\<close>, the intake \<open>i\<close> and the outtake \<open>g\<close> of the floor cell, and
  the intake \<open>x\<close> of the openings to its north and west.\<close>

definition crossing :: "nat \<Rightarrow> int" where
  "crossing i = [47, 58, 47, 58, 48, 58, 47, 48, 47] ! i"

definition crossing_board ::
  "32 word \<Rightarrow> 32 word \<Rightarrow> 32 word \<Rightarrow> real \<Rightarrow> real \<Rightarrow> real \<Rightarrow> real \<Rightarrow> Board" where
  "crossing_board pe pf px d i g x =
     \<lparr>width = 3, height = 3,
       pixmap = [wall_color, px, wall_color, px, pf, px, wall_color, pe, wall_color],
       cells =
         [\<lparr>type = Wall, cost = - 1, row = 0, col = 0, omega_in = 0, omega_out = 1 / 2,
            density = 0, outtake = 0, intake = 0\<rparr>,
          \<lparr>type = Escape, cost = 10, row = 0, col = 1, omega_in = 1, omega_out = 1,
            density = 0, outtake = 0, intake = x\<rparr>,
          \<lparr>type = Wall, cost = - 1, row = 0, col = 2, omega_in = 0, omega_out = 1 / 2,
            density = 0, outtake = 0, intake = 0\<rparr>,
          \<lparr>type = Escape, cost = 10, row = 1, col = 0, omega_in = 1, omega_out = 1,
            density = 0, outtake = 0, intake = x\<rparr>,
          \<lparr>type = Floor, cost = 0, row = 1, col = 1, omega_in = 1,
            omega_out = 11184811 / 33554432, density = d, outtake = g, intake = i\<rparr>,
          \<lparr>type = Escape, cost = 10, row = 1, col = 2, omega_in = 1, omega_out = 1,
            density = 0, outtake = 0, intake = 0\<rparr>,
          \<lparr>type = Wall, cost = - 1, row = 2, col = 0, omega_in = 1, omega_out = 1,
            density = 0, outtake = 0, intake = 0\<rparr>,
          \<lparr>type = Emitter, cost = 0, row = 2, col = 1, omega_in = 1, omega_out = 1,
            density = 1, outtake = 0, intake = 0\<rparr>,
          \<lparr>type = Wall, cost = - 1, row = 2, col = 2, omega_in = 1, omega_out = 1,
            density = 0, outtake = 0, intake = 0\<rparr>]\<rparr>"

definition crossing_sim :: Sim where
  "crossing_sim =
     \<lparr>state = Stop, ticks = 0, tick_rate = 1, emitter_rate = 1, escape_rate = 1,
       use_precalc_weights = False,
       board = crossing_board emitter_color floor_color escape_color 0 0 0 0\<rparr>"

section \<open>Properties\<close>

subsection \<open>Loops that can throw\<close>

lemma foldE_append:
  "foldE f (xs @ ys) s = (case foldE f xs s of Inl e \<Rightarrow> Inl e | Inr s' \<Rightarrow> foldE f ys s')"
  by (induction xs arbitrary: s) (auto split: sum.splits)

lemma foldE_map: "foldE f (map g xs) s = foldE (\<lambda>x. f (g x)) xs s"
  by (induction xs arbitrary: s) (auto split: sum.splits)

lemma foldE_product:
  "foldE (\<lambda>r. foldE (\<lambda>c. f r c) cs) rs s = foldE (\<lambda>p. f (fst p) (snd p)) (List.product rs cs) s"
  by (induction rs arbitrary: s) (auto simp: foldE_append foldE_map split: sum.splits)

lemma foldE_fold: "foldE (\<lambda>x s. Inr (f x s)) xs s = Inr (fold f xs s)"
  by (induction xs arbitrary: s) auto

lemma foldE_invariant:
  assumes "foldE f xs s = Inr s'" and "I s"
    and "\<And>x t t'. x \<in> set xs \<Longrightarrow> I t \<Longrightarrow> f x t = Inr t' \<Longrightarrow> I t'"
  shows "I s'"
  using assms
proof (induction xs arbitrary: s)
  case Nil
  then show ?case by simp
next
  case (Cons x xs)
  from Cons.prems(1) obtain t where t: "f x s = Inr t" "foldE f xs t = Inr s'"
    by (auto split: sum.splits)
  have "I t" using Cons.prems(2,3) t(1) by auto
  with Cons.IH [OF t(2)] Cons.prems(3) show ?case by auto
qed

lemma foldE_total:
  assumes "I s"
    and "\<And>x t. x \<in> set xs \<Longrightarrow> I t \<Longrightarrow> \<exists>t'. f x t = Inr t' \<and> I t'"
  shows "\<exists>s'. foldE f xs s = Inr s' \<and> I s'"
  using assms
proof (induction xs arbitrary: s)
  case Nil
  then show ?case by simp
next
  case (Cons x xs)
  from Cons.prems obtain t where t: "f x s = Inr t" "I t" by fastforce
  from Cons.IH [OF t(2)] Cons.prems(2) obtain s' where "foldE f xs t = Inr s'" "I s'"
    by auto
  with t show ?case by auto
qed

lemma foldE_visited:
  assumes "foldE f xs s = Inr s'" and "I s"
    and step: "\<And>x t t'. x \<in> set xs \<Longrightarrow> I t \<Longrightarrow> f x t = Inr t' \<Longrightarrow>
            I t' \<and> R x t' \<and> (\<forall>y. R y t \<longrightarrow> R y t')"
    and "x \<in> set xs"
  shows "R x s'"
  using assms(1,2,3,4)
proof (induction xs arbitrary: s)
  case Nil
  then show ?case by simp
next
  case (Cons y ys)
  from Cons.prems(1) obtain t where t: "f y s = Inr t" "foldE f ys t = Inr s'"
    by (auto split: sum.splits)
  have yt: "I t" "R y t" using Cons.prems(2,3) t(1) by auto
  show ?case
  proof (cases "x \<in> set ys")
    case True
    show ?thesis
      by (rule Cons.IH [OF t(2) yt(1) _ True]) (use Cons.prems(3) in auto)
  next
    case False
    with Cons.prems(4) have "x = y" by simp
    have "I s' \<and> R y s'"
      by (rule foldE_invariant [OF t(2), where I = "\<lambda>t. I t \<and> R y t"])
        (use yt Cons.prems(3) in auto)
    with \<open>x = y\<close> show ?thesis by simp
  qed
qed

subsection \<open>What the update writes\<close>

lemma setters_length [simp]:
  "length (set_intake cs p v) = length cs"
  "length (set_outtake cs p v) = length cs"
  "length (set_density cs p v) = length cs"
  by (simp_all add: set_intake_def set_outtake_def set_density_def)

lemma nth_list_update_field:
  "(\<And>c. f (g c) = f c) \<Longrightarrow> f (cs[p := g (cs ! p)] ! k) = f (cs ! k)"
  by (cases "p < length cs"; cases "k = p") (simp_all add: list_update_beyond)

lemma set_intake_read [simp]:
  "type (set_intake cs p v ! k) = type (cs ! k)"
  "density (set_intake cs p v ! k) = density (cs ! k)"
  "omega_in (set_intake cs p v ! k) = omega_in (cs ! k)"
  "omega_out (set_intake cs p v ! k) = omega_out (cs ! k)"
  "outtake (set_intake cs p v ! k) = outtake (cs ! k)"
  "cost (set_intake cs p v ! k) = cost (cs ! k)"
  unfolding set_intake_def by (rule nth_list_update_field, simp)+

lemma set_outtake_read [simp]:
  "type (set_outtake cs p v ! k) = type (cs ! k)"
  "density (set_outtake cs p v ! k) = density (cs ! k)"
  "omega_in (set_outtake cs p v ! k) = omega_in (cs ! k)"
  "omega_out (set_outtake cs p v ! k) = omega_out (cs ! k)"
  "intake (set_outtake cs p v ! k) = intake (cs ! k)"
  "cost (set_outtake cs p v ! k) = cost (cs ! k)"
  unfolding set_outtake_def by (rule nth_list_update_field, simp)+

lemma set_density_read [simp]:
  "type (set_density cs p v ! k) = type (cs ! k)"
  "omega_in (set_density cs p v ! k) = omega_in (cs ! k)"
  "omega_out (set_density cs p v ! k) = omega_out (cs ! k)"
  "intake (set_density cs p v ! k) = intake (cs ! k)"
  "outtake (set_density cs p v ! k) = outtake (cs ! k)"
  "cost (set_density cs p v ! k) = cost (cs ! k)"
  unfolding set_density_def by (rule nth_list_update_field, simp)+

lemma set_intake_intake:
  "intake (set_intake cs p v ! k) = (if k = p \<and> p < length cs then v else intake (cs ! k))"
  by (cases "p < length cs") (simp_all add: set_intake_def list_update_beyond)

lemma set_outtake_outtake:
  "outtake (set_outtake cs p v ! k) = (if k = p \<and> p < length cs then v else outtake (cs ! k))"
  by (cases "p < length cs") (simp_all add: set_outtake_def list_update_beyond)

lemma set_density_density:
  "density (set_density cs p v ! k) = (if k = p \<and> p < length cs then v else density (cs ! k))"
  by (cases "p < length cs") (simp_all add: set_density_def list_update_beyond)

lemmas setter_writes = set_intake_intake set_outtake_outtake set_density_density

lemma exchange_frame [simp]:
  "length (exchange rnd er esr co ci ao ai cur adj cs) = length cs"
  by (simp add: exchange_def Let_def split: Type.splits)

lemma exchange_read [simp]:
  "type (exchange rnd er esr co ci ao ai cur adj cs ! k) = type (cs ! k)"
  "density (exchange rnd er esr co ci ao ai cur adj cs ! k) = density (cs ! k)"
  "omega_in (exchange rnd er esr co ci ao ai cur adj cs ! k) = omega_in (cs ! k)"
  "omega_out (exchange rnd er esr co ci ao ai cur adj cs ! k) = omega_out (cs ! k)"
  by (simp_all add: exchange_def Let_def split: Type.splits)

lemma update_adj_frame [simp]:
  "width (update_adj rnd er esr upw co ci cur r c dir b) = width b"
  "height (update_adj rnd er esr upw co ci cur r c dir b) = height b"
  "pixmap (update_adj rnd er esr upw co ci cur r c dir b) = pixmap b"
  "length (cells (update_adj rnd er esr upw co ci cur r c dir b)) = length (cells b)"
  by (simp_all add: update_adj_def Let_def split: option.splits)

lemma update_adj_read [simp]:
  "type (cells (update_adj rnd er esr upw co ci cur r c dir b) ! k) = type (cells b ! k)"
  "density (cells (update_adj rnd er esr upw co ci cur r c dir b) ! k) = density (cells b ! k)"
  "omega_in (cells (update_adj rnd er esr upw co ci cur r c dir b) ! k) = omega_in (cells b ! k)"
  "omega_out (cells (update_adj rnd er esr upw co ci cur r c dir b) ! k) = omega_out (cells b ! k)"
  by (simp_all add: update_adj_def Let_def split: option.splits)

lemma fold_update_adj_frame [simp]:
  "width (fold (update_adj rnd er esr upw co ci cur r c) ds b) = width b"
  "height (fold (update_adj rnd er esr upw co ci cur r c) ds b) = height b"
  "pixmap (fold (update_adj rnd er esr upw co ci cur r c) ds b) = pixmap b"
  "length (cells (fold (update_adj rnd er esr upw co ci cur r c) ds b)) = length (cells b)"
  by (induction ds arbitrary: b) simp_all

lemma fold_update_adj_read [simp]:
  "type (cells (fold (update_adj rnd er esr upw co ci cur r c) ds b) ! k) = type (cells b ! k)"
  "density (cells (fold (update_adj rnd er esr upw co ci cur r c) ds b) ! k) = density (cells b ! k)"
  "omega_in (cells (fold (update_adj rnd er esr upw co ci cur r c) ds b) ! k) = omega_in (cells b ! k)"
  "omega_out (cells (fold (update_adj rnd er esr upw co ci cur r c) ds b) ! k) = omega_out (cells b ! k)"
  by (induction ds arbitrary: b) simp_all

lemma writePixel_frame [simp]:
  "width (writePixel b r c x) = width b"
  "height (writePixel b r c x) = height b"
  "cells (writePixel b r c x) = cells b"
  "length (pixmap (writePixel b r c x)) = length (pixmap b)"
  "width (writePixel_rgb b r c u v w) = width b"
  "height (writePixel_rgb b r c u v w) = height b"
  "cells (writePixel_rgb b r c u v w) = cells b"
  "length (pixmap (writePixel_rgb b r c u v w)) = length (pixmap b)"
  by (simp_all add: writePixel_def writePixel_rgb_def)

lemma update_cell_total:
  "row' < height b \<Longrightarrow> col' < width b \<Longrightarrow> \<exists>b'. update_cell rnd er esr upw row' col' b = Inr b'"
  by (simp add: update_cell_def cellAt_def Let_def split: Type.splits)

lemma update_cell_cases:
  assumes "update_cell rnd er esr upw row' col' b = Inr b'"
  obtains cur where "cellAt b row' col' = Some cur" "type (cells b ! cur) \<noteq> Floor"
      "cells b' = set_outtake (set_intake (cells b) cur 0) cur 0"
      "width b' = width b" "height b' = height b" "length (pixmap b') = length (pixmap b)"
  | cur b2 d where "cellAt b row' col' = Some cur" "type (cells b ! cur) = Floor"
      "b2 = fold (update_adj rnd er esr upw (if upw then omega_out (cells b ! cur) else 1 / 4)
                 (if upw then omega_in (cells b ! cur) else 1 / 4) cur row' col') directions
               (b\<lparr>cells := set_outtake (set_intake (cells b) cur 0) cur 0\<rparr>)"
      "d = fadd rnd (density (cells b2 ! cur)) (fsub rnd (intake (cells b2 ! cur)) (outtake (cells b2 ! cur)))"
      "cells b' = set_density (cells b2) cur d"
      "width b' = width b" "height b' = height b" "length (pixmap b') = length (pixmap b)"
proof -
  from assms obtain cur where cur: "cellAt b row' col' = Some cur"
    by (auto simp: update_cell_def split: option.splits)
  show thesis
  proof (cases "type (cells b ! cur)")
    case Floor
    show thesis
      by (rule that(2) [OF cur Floor refl refl])
        (use assms cur Floor in \<open>simp_all add: update_cell_def Let_def\<close>, auto)
  next
    case Wall
    show thesis
      by (rule that(1) [OF cur]) (use assms cur Wall in \<open>simp_all add: update_cell_def Let_def\<close>, auto)
  next
    case Emitter
    show thesis
      by (rule that(1) [OF cur]) (use assms cur Emitter in \<open>simp_all add: update_cell_def Let_def\<close>, auto)
  next
    case Escape
    show thesis
      by (rule that(1) [OF cur]) (use assms cur Escape in \<open>simp_all add: update_cell_def Let_def\<close>, auto)
  qed
qed

lemma evolves_refl: "evolves b b"
  by (simp add: evolves_def)

lemma evolves_trans: "evolves a b \<Longrightarrow> evolves b c \<Longrightarrow> evolves a c"
  by (simp add: evolves_def)

lemma update_cell_evolves:
  assumes "update_cell rnd er esr upw row' col' b = Inr b'"
  shows "evolves b b'"
  using assms
proof (cases rule: update_cell_cases)
  case (1 cur)
  then show ?thesis by (simp add: evolves_def)
next
  case (2 cur b2 d)
  then show ?thesis by (auto simp: evolves_def set_density_density)
qed

lemma update_board_flat:
  "update_board rnd er esr upw b =
     foldE (\<lambda>p. update_cell rnd er esr upw (fst p) (snd p))
       (List.product [0..<height b] [0..<width b]) b"
  by (simp add: update_board_def foldE_product)

lemma update_board_total: "\<exists>b'. update_board rnd er esr upw b = Inr b' \<and> evolves b b'"
  unfolding update_board_flat
proof (rule foldE_total)
  show "evolves b b" by (rule evolves_refl)
next
  fix p t
  assume p: "p \<in> set (List.product [0..<height b] [0..<width b])" and t: "evolves b t"
  then have "fst p < height t" "snd p < width t" by (auto simp: evolves_def)
  then obtain t' where t': "update_cell rnd er esr upw (fst p) (snd p) t = Inr t'"
    using update_cell_total by blast
  with t have "evolves b t'" by (blast intro: evolves_trans update_cell_evolves)
  with t' show "\<exists>t'. update_cell rnd er esr upw (fst p) (snd p) t = Inr t' \<and> evolves b t'"
    by blast
qed


lemma step_result:
  "\<exists>b'. update_board rnd (static_emitter_rate (init_statics sto s))
            (static_escape_rate (init_statics sto s))
            (static_use_precalc_weights (init_statics sto s)) (board s) = Inr b' \<and>
     step rnd sto s =
       Inr (Some ((init_statics sto s)
                   \<lparr>static_emitter_rate := emitter_rate s, static_escape_rate := escape_rate s,
                    static_use_precalc_weights := use_precalc_weights s\<rparr>),
            s\<lparr>state := Stop, ticks := ticks s + 1, board := b'\<rparr>)"
proof -
  obtain b' where b': "update_board rnd (static_emitter_rate (init_statics sto s))
            (static_escape_rate (init_statics sto s))
            (static_use_precalc_weights (init_statics sto s)) (board s) = Inr b'"
    using update_board_total by blast
  have i: "init_statics sto (s\<lparr>state := Step\<rparr>) = init_statics sto s"
    by (simp add: init_statics_def split: option.splits)
  show ?thesis
    by (rule exI [of _ b']) (simp add: b' step_def cycle_def Let_def i)
qed

subsection \<open>The calls of a host\<close>

lemma word32_succ_neq: "(w :: 32 word) + 1 \<noteq> w"
  by simp

lemma cycle_idle:
  assumes "cycle rnd sto s = Inr (sto', s')" and "getTicks s' = getTicks s"
  shows "s' = s" and "\<exists>st'. sto' = Some st' \<and> latched st' = latched (init_statics sto s)"
  using assms
  by (auto simp: cycle_def Let_def getTicks_def latched_def split: if_splits sum.splits)

lemma cycle_updating:
  assumes "cycle rnd sto s = Inr (sto', s')" and "getTicks s' \<noteq> getTicks s"
  shows "update_board rnd (static_emitter_rate (init_statics sto s))
           (static_escape_rate (init_statics sto s))
           (static_use_precalc_weights (init_statics sto s)) (board s) = Inr (board s')"
    and "\<exists>st'. sto' = Some st' \<and> latched st' = config s \<and>
           frame_skip_counter st' =
             (if state s = Run then tick_rate s else frame_skip_counter (init_statics sto s))"
    and "config s' = config s" and "state s' = state s" and "tick_rate s' = tick_rate s"
    and "getTicks s' = getTicks s + 1"
    and "state s = Step \<or> state s = Run \<and> frame_skip_counter (init_statics sto s) = 1"
  using assms
  by (cases "state s";
      auto simp: cycle_def Let_def getTicks_def latched_def config_def
      split: if_splits sum.splits)+

lemma step_updating:
  assumes "step rnd sto s = Inr (sto', s')"
  shows "update_board rnd (static_emitter_rate (init_statics sto s))
           (static_escape_rate (init_statics sto s))
           (static_use_precalc_weights (init_statics sto s)) (board s) = Inr (board s')"
    and "\<exists>st'. sto' = Some st' \<and> latched st' = config s \<and>
           frame_skip_counter st' = frame_skip_counter (init_statics sto s)"
    and "config s' = config s" and "state s' = Stop" and "tick_rate s' = tick_rate s"
    and "getTicks s' = getTicks s + 1"
proof -
  obtain b' where b': "update_board rnd (static_emitter_rate (init_statics sto s))
            (static_escape_rate (init_statics sto s))
            (static_use_precalc_weights (init_statics sto s)) (board s) = Inr b'"
    and st: "step rnd sto s =
       Inr (Some ((init_statics sto s)
                   \<lparr>static_emitter_rate := emitter_rate s, static_escape_rate := escape_rate s,
                    static_use_precalc_weights := use_precalc_weights s\<rparr>),
            s\<lparr>state := Stop, ticks := ticks s + 1, board := b'\<rparr>)"
    using step_result by blast
  from st assms have e: "sto' = Some ((init_statics sto s)
                   \<lparr>static_emitter_rate := emitter_rate s, static_escape_rate := escape_rate s,
                    static_use_precalc_weights := use_precalc_weights s\<rparr>)"
      "s' = s\<lparr>state := Stop, ticks := ticks s + 1, board := b'\<rparr>" by simp_all
  show "update_board rnd (static_emitter_rate (init_statics sto s))
           (static_escape_rate (init_statics sto s))
           (static_use_precalc_weights (init_statics sto s)) (board s) = Inr (board s')"
    using b' e by simp
  show "\<exists>st'. sto' = Some st' \<and> latched st' = config s \<and>
           frame_skip_counter st' = frame_skip_counter (init_statics sto s)"
    using e by (simp add: latched_def config_def)
  show "config s' = config s" "state s' = Stop" "tick_rate s' = tick_rate s"
    "getTicks s' = getTicks s + 1"
    using e by (simp_all add: config_def getTicks_def)
qed

lemma perform_idle:
  assumes "perform rnd c (Some st, s) = Inr (sto', s')" and "getTicks s' = getTicks s"
  shows "\<exists>st'. sto' = Some st' \<and> latched st' = latched st" and "board s' = board s"
proof -
  have "(\<exists>st'. sto' = Some st' \<and> latched st' = latched st) \<and> board s' = board s"
  proof (cases c)
    case Cycle
    with assms cycle_idle [of rnd "Some st" s sto' s'] show ?thesis
      by (simp add: init_statics_def)
  next
    case StepOnce
    with assms step_updating(6) [of rnd "Some st" s sto' s'] show ?thesis
      by simp
  qed (use assms in \<open>force simp: start_def stop_def\<close>)+
  then show "\<exists>st'. sto' = Some st' \<and> latched st' = latched st" and "board s' = board s"
    by simp_all
qed

lemma perform_updating:
  assumes "perform rnd c (sto, s) = Inr (sto', s')" and "getTicks s' \<noteq> getTicks s"
  shows "update_board rnd (static_emitter_rate (init_statics sto s))
           (static_escape_rate (init_statics sto s))
           (static_use_precalc_weights (init_statics sto s)) (board s) = Inr (board s')"
    and "\<exists>st'. sto' = Some st' \<and> latched st' = config s"
    and "config s' = config s"
proof -
  have "update_board rnd (static_emitter_rate (init_statics sto s))
           (static_escape_rate (init_statics sto s))
           (static_use_precalc_weights (init_statics sto s)) (board s) = Inr (board s') \<and>
        (\<exists>st'. sto' = Some st' \<and> latched st' = config s) \<and> config s' = config s"
  proof (cases c)
    case Cycle
    with assms cycle_updating(1,2,3) [of rnd sto s sto' s'] show ?thesis
      by auto
  next
    case StepOnce
    with assms step_updating(1,2,3) [of rnd sto s sto' s'] show ?thesis
      by auto
  qed (use assms in \<open>auto simp: start_def stop_def getTicks_def\<close>)
  then show "update_board rnd (static_emitter_rate (init_statics sto s))
           (static_escape_rate (init_statics sto s))
           (static_use_precalc_weights (init_statics sto s)) (board s) = Inr (board s')"
    and "\<exists>st'. sto' = Some st' \<and> latched st' = config s"
    and "config s' = config s"
    by simp_all
qed

lemma quiet_run:
  assumes "quiet rnd cs (Some st, s)" and "run rnd cs (Some st, s) = Inr (sto', s')"
  shows "\<exists>st'. sto' = Some st' \<and> latched st' = latched st" and "board s' = board s"
proof -
  have "(\<exists>st'. sto' = Some st' \<and> latched st' = latched st) \<and> board s' = board s"
    using assms
  proof (induction cs arbitrary: st s)
    case Nil
    then show ?case by (auto simp: run_def)
  next
    case (Cons c cs)
    from Cons.prems(1) obtain sto1 s1 where
      p: "perform rnd c (Some st, s) = Inr (sto1, s1)" "getTicks s1 = getTicks s"
      and q: "quiet rnd cs (sto1, s1)"
      by (auto split: sum.splits)
    from perform_idle [OF p] obtain st1 where
      st1: "sto1 = Some st1" "latched st1 = latched st" "board s1 = board s"
      by blast
    from Cons.prems(2) p have r: "run rnd cs (Some st1, s1) = Inr (sto', s')"
      by (simp add: run_def st1)
    from q st1 have "quiet rnd cs (Some st1, s1)" by simp
    from Cons.IH [OF this r] st1 show ?case by auto
  qed
  then show "\<exists>st'. sto' = Some st' \<and> latched st' = latched st" and "board s' = board s"
    by simp_all
qed

subsection \<open>Rounding to binary32\<close>

lemma bexp_unique:
  "2 powi e \<le> a \<Longrightarrow> a < 2 powi (e + 1) \<Longrightarrow> - 126 \<le> e \<Longrightarrow> e \<le> int n - 126 \<Longrightarrow> bexp a n = e"
proof (induction n)
  case 0
  then show ?case by simp
next
  case (Suc n)
  show ?case
  proof (cases "2 powi (int (Suc n) - 126) \<le> a")
    case True
    have "\<not> e + 1 \<le> int (Suc n) - 126"
    proof
      assume "e + 1 \<le> int (Suc n) - 126"
      then have "(2::real) powi (e + 1) \<le> 2 powi (int (Suc n) - 126)"
        by (intro power_int_increasing) simp_all
      with True Suc.prems(2) show False by linarith
    qed
    with Suc.prems(4) True show ?thesis by simp
  next
    case False
    with Suc.prems(1) have "e \<noteq> int (Suc n) - 126" by auto
    with Suc.prems(4) have "e \<le> int n - 126" by simp
    with Suc False show ?thesis by simp
  qed
qed

text \<open>A number of magnitude in \<open>[2 ^ e, 2 ^ (e + 1))\<close> is rounded to a multiple of
  \<open>2 ^ (e - 23)\<close>.\<close>

lemma binary32_normal:
  assumes "2 powi e \<le> \<bar>x\<bar>" "\<bar>x\<bar> < 2 powi (e + 1)" "- 126 \<le> e" "e \<le> 127"
  shows "binary32 x = sgn x * of_int (round_even (\<bar>x\<bar> / 2 powi (e - 23))) * 2 powi (e - 23)"
proof -
  have "bexp \<bar>x\<bar> 253 = e" using assms by (intro bexp_unique) simp_all
  then show ?thesis by (simp add: binary32_def Let_def)
qed

lemma binary32_0: "binary32 0 = 0"
  by (simp add: binary32_def)

lemma binary32_1: "binary32 1 = 1"
  by (subst binary32_normal [where e = 0]) (simp_all add: round_even_def power_int_minus)

lemma binary32_m1: "binary32 (- 1) = - 1"
  by (subst binary32_normal [where e = 0]) (simp_all add: round_even_def power_int_minus)

lemma binary32_255: "binary32 255 = 255"
  by (subst binary32_normal [where e = 7]) (simp_all add: round_even_def power_int_minus)

lemmas binary32_unit = binary32_0 binary32_1 binary32_m1 binary32_255

subsection \<open>Evaluation on the corridor\<close>

lemma uint32_small: "n < 4294967296 \<Longrightarrow> uint32 n = n"
  by (simp add: uint32_def)

lemma uint32_dec_0: "uint32_dec 0 = 4294967295"
  by (simp add: uint32_dec_def uint32_def)

lemma uint32_dec_pos: "0 < n \<Longrightarrow> n < 4294967296 \<Longrightarrow> uint32_dec n = n - 1"
proof -
  assume a: "0 < n" "n < 4294967296"
  then have "n + 4294967295 = (n - 1) + 4294967296" by simp
  then have "(n + 4294967295) mod 4294967296 = (n - 1) mod 4294967296"
    by (metis mod_add_self2)
  with a show ?thesis by (simp add: uint32_dec_def uint32_def)
qed

lemma uint32_inc_small: "n < 4294967295 \<Longrightarrow> uint32_inc n = n + 1"
  by (simp add: uint32_inc_def uint32_def)

lemmas uint32_simps = uint32_small uint32_dec_0 uint32_dec_pos uint32_inc_small

lemma upt_3: "[0..<3] = [0, 1, 2]"
  by (simp add: upt_rec)

lemma upt_1: "[0..<1] = [0]"
  by (simp add: upt_rec)

lemmas update_defs =
  update_board_def update_cell_def update_adj_def exchange_def cellAt_def directions_def
  set_intake_def set_outtake_def set_density_def fadd_def fsub_def fmul_def
  writePixel_rgb_def writePixel_def float_to_uchar_def Let_def

lemma new_Board_corridor:
  "new_Board black blanks 3 1 corridor =
     \<lparr>width = 3, height = 1, pixmap = [floor_color, floor_color, escape_color],
       cells = [blank\<lparr>type := Floor, cost := 0, row := 0, col := 0, density := 0\<rparr>,
                blank\<lparr>type := Floor, cost := 0, row := 0, col := 1, density := 0\<rparr>,
                blank\<lparr>type := Escape, cost := 10, row := 0, col := 2, density := 0\<rparr>]\<rparr>"
  by (simp add: new_Board_def Let_def upt_3 upt_1 Board_cell_def corridor_def blank_def
      blanks_def black_def uint32_simps)

lemma new_Sim_corridor:
  "new_Sim binary32 black blanks 3 1 corridor 0 0 = Inr corridor_sim"
  unfolding new_Sim_def new_Board_corridor
  by (simp add: place_emitter_def cellAt_def writePixel_def weigh_board_def weigh_cell_def
      count_adj_def directions_def upt_3 upt_1 Let_def fdiv_def blank_def corridor_sim_def
      uint32_simps binary32_unit)

lemma corridor_first_update:
  "update_board binary32 1 1 True (board corridor_sim) = Inr (corridor_board 1)"
  by (simp add: update_defs upt_3 upt_1 uint32_simps binary32_unit corridor_sim_def
      corridor_board_def)

lemma corridor_update_1:
  "update_board binary32 1 1 True (corridor_board 1) = Inr (corridor_board 0)"
  by (simp add: update_defs upt_3 upt_1 uint32_simps binary32_unit corridor_board_def)

lemma corridor_update_0:
  "update_board binary32 1 1 True (corridor_board 0) = Inr (corridor_board 1)"
  by (simp add: update_defs upt_3 upt_1 uint32_simps binary32_unit corridor_board_def)

subsection \<open>Positions and indices\<close>

lemma fold_product:
  "fold (\<lambda>r. fold (\<lambda>c. f r c) cs) rs s = fold (\<lambda>p. f (fst p) (snd p)) (List.product rs cs) s"
  by (induction rs arbitrary: s) (simp_all add: fold_map comp_def)

lemma fold_invariant:
  assumes "I s" and "\<And>x t. x \<in> set xs \<Longrightarrow> I t \<Longrightarrow> I (f x t)"
  shows "I (fold f xs s)"
  using assms by (induction xs arbitrary: s) simp_all

lemma fold_visited:
  assumes "I s"
    and "\<And>x t. x \<in> set xs \<Longrightarrow> I t \<Longrightarrow> I (f x t) \<and> R x (f x t) \<and> (\<forall>y. R y t \<longrightarrow> R y (f x t))"
    and "x \<in> set xs"
  shows "R x (fold f xs s)"
proof -
  have "foldE (\<lambda>x s. Inr (f x s)) xs s = Inr (fold f xs s)" by (rule foldE_fold)
  then show ?thesis
    by (rule foldE_visited [where I = I]) (use assms in auto)
qed

lemma index_less: "r < h \<Longrightarrow> c < w \<Longrightarrow> r * w + c < w * (h::nat)"
proof -
  assume a: "r < h" "c < w"
  then have "r * w + c < r * w + w" by simp
  also have "\<dots> = (r + 1) * w" by simp
  also have "\<dots> \<le> h * w" using a by (intro mult_le_mono1) simp
  finally show ?thesis by (simp add: mult.commute)
qed

lemma index_inj:
  assumes "r * w + c = r' * w + c'" and "c < w" and "c' < (w::nat)"
  shows "r = r' \<and> c = c'"
proof -
  from assms have "(r * w + c) div w = (r' * w + c') div w" by simp
  with assms(2,3) have r: "r = r'" by simp
  with assms(1) show ?thesis by simp
qed

lemma index_covers:
  assumes "k < w * (h::nat)"
  shows "k div w < h" and "k mod w < w" and "k = (k div w) * w + k mod w"
proof -
  from assms have w: "0 < w" by (cases w) simp_all
  then show "k mod w < w" by simp
  from assms show "k div w < h" by (simp add: less_mult_imp_div_less mult.commute)
  show "k = (k div w) * w + k mod w" by simp
qed

text \<open>With \<open>width * height < 2 ^ 32\<close> no index of a position of the grid wraps around.\<close>

lemma cellAt_Some:
  assumes "width b * height b < 4294967296" and "r < height b" and "c < width b"
  shows "cellAt b r c = Some (r * width b + c)"
  using assms index_less [of r "height b" c "width b"]
  by (simp add: cellAt_def uint32_small)

lemma cellAt_None: "\<not> (r < height b \<and> c < width b) \<Longrightarrow> cellAt b r c = None"
  by (auto simp: cellAt_def)

subsection \<open>The constructor of the board\<close>

lemma Board_cell_frame [simp]:
  "width (Board_cell layout r c b) = width b"
  "height (Board_cell layout r c b) = height b"
  "length (pixmap (Board_cell layout r c b)) = length (pixmap b)"
  "length (cells (Board_cell layout r c b)) = length (cells b)"
  by (simp_all add: Board_cell_def Let_def)

lemma nth_update_field:
  "(\<And>c. f (g c) = f c) \<Longrightarrow> f (cs[p := g (cs ! p)] ! k) = f (cs ! k)"
  by (cases "p < length cs"; cases "k = p") (simp_all add: list_update_beyond)

lemma Board_cell_unwritten:
  "omega_in (cells (Board_cell layout r c b) ! k) = omega_in (cells b ! k)"
  "omega_out (cells (Board_cell layout r c b) ! k) = omega_out (cells b ! k)"
  "intake (cells (Board_cell layout r c b) ! k) = intake (cells b ! k)"
  "outtake (cells (Board_cell layout r c b) ! k) = outtake (cells b ! k)"
  unfolding Board_cell_def Let_def
  by (simp_all add:
      nth_update_field [where g = "\<lambda>x. x\<lparr>row := r, col := c, type := Wall, cost := - 1, density := 0\<rparr>", simplified]
      nth_update_field [where g = "\<lambda>x. x\<lparr>row := r, col := c, type := Escape, cost := 10, density := 0\<rparr>", simplified]
      nth_update_field [where g = "\<lambda>x. x\<lparr>row := r, col := c, type := Floor, cost := v, density := 0\<rparr>" for v, simplified])

lemma Board_cell_classified:
  assumes "width b * height b < 4294967296" and "r < height b" and "c < width b"
    and "length (cells b) = width b * height b" and "length (pixmap b) = width b * height b"
  shows "classified layout (width b) r c (Board_cell layout r c b)"
  using assms index_less [of r "height b" c "width b"]
  by (simp add: classified_def Board_cell_def Let_def classify_def uint32_small)

lemma Board_cell_other:
  assumes "width b * height b < 4294967296" and "r < height b" and "c < width b"
    and "c' < width b" and "classified layout (width b) r' c' b" and "(r', c') \<noteq> (r, c)"
  shows "classified layout (width b) r' c' (Board_cell layout r c b)"
proof -
  from assms(6) index_inj [of r' "width b" c' r c] assms(3,4)
  have "r' * width b + c' \<noteq> r * width b + c" by auto
  with assms index_less [of r "height b" c "width b"] show ?thesis
    by (simp add: classified_def Board_cell_def Let_def uint32_small)
qed

lemma new_Board_shape:
  "width (new_Board pmem cmem w h layout) = w"
  "height (new_Board pmem cmem w h layout) = h"
  "length (pixmap (new_Board pmem cmem w h layout)) = uint32 (w * h)"
  "length (cells (new_Board pmem cmem w h layout)) = uint32 (w * h)"
proof -
  let ?b = "\<lparr>width = w, height = h, pixmap = map pmem [0..<uint32 (w * h)],
             cells = map cmem [0..<uint32 (w * h)]\<rparr>"
  have "width (new_Board pmem cmem w h layout) = w \<and>
        height (new_Board pmem cmem w h layout) = h \<and>
        length (pixmap (new_Board pmem cmem w h layout)) = uint32 (w * h) \<and>
        length (cells (new_Board pmem cmem w h layout)) = uint32 (w * h)"
    unfolding new_Board_def Let_def fold_product
    by (rule fold_invariant) simp_all
  then show "width (new_Board pmem cmem w h layout) = w"
    "height (new_Board pmem cmem w h layout) = h"
    "length (pixmap (new_Board pmem cmem w h layout)) = uint32 (w * h)"
    "length (cells (new_Board pmem cmem w h layout)) = uint32 (w * h)"
    by simp_all
qed

lemma new_Board_unwritten:
  assumes "k < uint32 (w * h)"
  shows "omega_in (cells (new_Board pmem cmem w h layout) ! k) = omega_in (cmem k)"
    and "omega_out (cells (new_Board pmem cmem w h layout) ! k) = omega_out (cmem k)"
    and "intake (cells (new_Board pmem cmem w h layout) ! k) = intake (cmem k)"
    and "outtake (cells (new_Board pmem cmem w h layout) ! k) = outtake (cmem k)"
proof -
  have "omega_in (cells (new_Board pmem cmem w h layout) ! k) = omega_in (cmem k) \<and>
        omega_out (cells (new_Board pmem cmem w h layout) ! k) = omega_out (cmem k) \<and>
        intake (cells (new_Board pmem cmem w h layout) ! k) = intake (cmem k) \<and>
        outtake (cells (new_Board pmem cmem w h layout) ! k) = outtake (cmem k)"
    unfolding new_Board_def Let_def fold_product
    by (rule fold_invariant) (use assms in \<open>simp_all add: Board_cell_unwritten\<close>)
  then show "omega_in (cells (new_Board pmem cmem w h layout) ! k) = omega_in (cmem k)"
    and "omega_out (cells (new_Board pmem cmem w h layout) ! k) = omega_out (cmem k)"
    and "intake (cells (new_Board pmem cmem w h layout) ! k) = intake (cmem k)"
    and "outtake (cells (new_Board pmem cmem w h layout) ! k) = outtake (cmem k)"
    by simp_all
qed

lemma new_Board_classified:
  assumes "w * h < 4294967296" and "r < h" and "c < w"
  shows "classified layout w r c (new_Board pmem cmem w h layout)"
proof -
  let ?b = "\<lparr>width = w, height = h, pixmap = map pmem [0..<uint32 (w * h)],
             cells = map cmem [0..<uint32 (w * h)]\<rparr>"
  let ?I = "\<lambda>b::Board. width b = w \<and> height b = h \<and> length (cells b) = w * h \<and>
                length (pixmap b) = w * h"
  let ?R = "\<lambda>p (b::Board). snd p < w \<longrightarrow> classified layout w (fst p) (snd p) b"
  have "?R (r, c) (fold (\<lambda>p. Board_cell layout (fst p) (snd p)) (List.product [0..<h] [0..<w]) ?b)"
  proof (rule fold_visited [where I = ?I and R = ?R])
    show "?I ?b" using assms(1) by (simp add: uint32_small)
    show "(r, c) \<in> set (List.product [0..<h] [0..<w])" using assms by simp
  next
    fix x t
    assume x: "x \<in> set (List.product [0..<h] [0..<w])" and t: "?I t"
    then have xr: "fst x < height t" "snd x < width t" by auto
    have 1: "?I (Board_cell layout (fst x) (snd x) t)" using t by simp
    have 2: "?R x (Board_cell layout (fst x) (snd x) t)"
      using Board_cell_classified [of t "fst x" "snd x" layout] t xr assms(1) by simp
    have 3: "\<forall>y. ?R y t \<longrightarrow> ?R y (Board_cell layout (fst x) (snd x) t)"
    proof (intro allI impI)
      fix y
      assume y: "?R y t" "snd y < w"
      show "classified layout w (fst y) (snd y) (Board_cell layout (fst x) (snd x) t)"
      proof (cases "y = x")
        case True
        with 2 y show ?thesis by simp
      next
        case False
        then have "(fst y, snd y) \<noteq> (fst x, snd x)" by (simp add: prod_eq_iff)
        from Board_cell_other [of t "fst x" "snd x" "snd y" layout "fst y", OF _ xr _ _ this]
          t y assms(1) show ?thesis by simp
      qed
    qed
    from 1 2 3 show "?I (Board_cell layout (fst x) (snd x) t) \<and>
        ?R x (Board_cell layout (fst x) (snd x) t) \<and>
        (\<forall>y. ?R y t \<longrightarrow> ?R y (Board_cell layout (fst x) (snd x) t))"
      by blast
  qed
  with assms(3) show ?thesis by (simp add: new_Board_def Let_def fold_product)
qed

subsection \<open>Neighbours\<close>

lemma cellAt_dir_eq:
  assumes "width b * height b < 4294967296" and "r < height b" and "c < width b"
  shows "cellAt_dir b North r c = (if 0 < r then Some ((r - 1) * width b + c) else None)"
    and "cellAt_dir b South r c = (if r + 1 < height b then Some ((r + 1) * width b + c) else None)"
    and "cellAt_dir b West r c = (if 0 < c then Some (r * width b + (c - 1)) else None)"
    and "cellAt_dir b East r c = (if c + 1 < width b then Some (r * width b + (c + 1)) else None)"
proof -
  from assms have pos: "0 < width b" "0 < height b" by auto
  have "height b \<le> width b * height b" "width b \<le> width b * height b"
    using pos by simp_all
  with assms(1) have lt: "height b < 4294967296" "width b < 4294967296" by linarith+
  with assms have rc: "r < 4294967295" "c < 4294967295" by linarith+
  show "cellAt_dir b North r c = (if 0 < r then Some ((r - 1) * width b + c) else None)"
  proof (cases "0 < r")
    case True
    with rc have "uint32_dec r = r - 1" by (simp add: uint32_dec_pos)
    with True assms show ?thesis by (simp add: cellAt_Some)
  next
    case False
    with lt show ?thesis by (simp add: uint32_dec_0 cellAt_def)
  qed
  show "cellAt_dir b South r c = (if r + 1 < height b then Some ((r + 1) * width b + c) else None)"
    using rc assms by (simp add: uint32_inc_small cellAt_Some cellAt_None)
  show "cellAt_dir b West r c = (if 0 < c then Some (r * width b + (c - 1)) else None)"
  proof (cases "0 < c")
    case True
    with rc have "uint32_dec c = c - 1" by (simp add: uint32_dec_pos)
    with True assms show ?thesis by (simp add: cellAt_Some)
  next
    case False
    with lt show ?thesis by (simp add: uint32_dec_0 cellAt_def)
  qed
  show "cellAt_dir b East r c = (if c + 1 < width b then Some (r * width b + (c + 1)) else None)"
    using rc assms by (simp add: uint32_inc_small cellAt_Some cellAt_None)
qed

text \<open>A neighbour the code finds is another cell of the block.\<close>

lemma cellAt_dir_neighbour:
  assumes "width b * height b < 4294967296" and "r < height b" and "c < width b"
    and "cellAt_dir b dir r c = Some adj"
  shows "adj < width b * height b" and "adj \<noteq> r * width b + c"
proof -
  have "adj < width b * height b \<and> adj \<noteq> r * width b + c"
  proof (cases dir)
    case North
    with assms cellAt_dir_eq(1) [OF assms(1-3)] index_less [of "r - 1" "height b" c "width b"]
    show ?thesis by (auto split: if_splits)
  next
    case South
    with assms cellAt_dir_eq(2) [OF assms(1-3)] index_less [of "r + 1" "height b" c "width b"]
    show ?thesis by (auto split: if_splits)
  next
    case West
    with assms cellAt_dir_eq(3) [OF assms(1-3)] index_less [of r "height b" "c - 1" "width b"]
    show ?thesis by (auto split: if_splits)
  next
    case East
    with assms cellAt_dir_eq(4) [OF assms(1-3)] index_less [of r "height b" "c + 1" "width b"]
    show ?thesis by (auto split: if_splits)
  qed
  then show "adj < width b * height b" and "adj \<noteq> r * width b + c" by simp_all
qed

lemma count_adj_flow:
  "count_adj b r c dir io =
     (case cellAt_dir b dir r c of
        None \<Rightarrow> io
      | Some adj \<Rightarrow> (fst io + inflow (type (cells b ! adj)), snd io + outflow (type (cells b ! adj))))"
  by (cases io) (simp add: count_adj_def inflow_def outflow_def split: option.splits Type.splits)

lemma fold_count_adj:
  "fold (count_adj b r c) ds io =
     (fst io + sum_list (map (\<lambda>d. case cellAt_dir b d r c of None \<Rightarrow> 0
                                   | Some adj \<Rightarrow> inflow (type (cells b ! adj))) ds),
      snd io + sum_list (map (\<lambda>d. case cellAt_dir b d r c of None \<Rightarrow> 0
                                   | Some adj \<Rightarrow> outflow (type (cells b ! adj))) ds))"
  by (induction ds arbitrary: io) (simp_all add: count_adj_flow split: option.splits)

lemma length_filter_if:
  "length (filter P (if a then [p] else [])) = (if a then (if P p then 1 else 0) else 0)"
  by simp

lemma counts_agree:
  assumes "width b * height b < 4294967296" and "r < height b" and "c < width b"
  shows "fold (count_adj b r c) directions (0, 0) = (ins_count b r c, outs_count b r c)"
proof -
  have i: "ins_count b r c =
      (if 0 < r then inflow (type (cells b ! ((r - 1) * width b + c))) else 0) +
      ((if r + 1 < height b then inflow (type (cells b ! ((r + 1) * width b + c))) else 0) +
       ((if 0 < c then inflow (type (cells b ! (r * width b + (c - 1)))) else 0) +
        (if c + 1 < width b then inflow (type (cells b ! (r * width b + (c + 1)))) else 0)))"
    unfolding ins_count_def neighbours_def filter_append length_append length_filter_if
    by (simp add: kind_def inflow_def split del: if_split cong: if_cong)
  have o: "outs_count b r c =
      (if 0 < r then outflow (type (cells b ! ((r - 1) * width b + c))) else 0) +
      ((if r + 1 < height b then outflow (type (cells b ! ((r + 1) * width b + c))) else 0) +
       ((if 0 < c then outflow (type (cells b ! (r * width b + (c - 1)))) else 0) +
        (if c + 1 < width b then outflow (type (cells b ! (r * width b + (c + 1)))) else 0)))"
    unfolding outs_count_def neighbours_def filter_append length_append length_filter_if
    by (simp add: kind_def outflow_def split del: if_split cong: if_cong)
  have c: "(case (if a then Some x else None) of None \<Rightarrow> 0 | Some adj \<Rightarrow> f adj) =
      (if a then f x else (0::nat))" for a x and f :: "nat \<Rightarrow> nat"
    by simp
  show ?thesis
    unfolding fold_count_adj directions_def i o
    by (simp add: cellAt_dir_eq [OF assms] c del: cellAt_dir.simps split del: if_split
        cong: if_cong)
qed

subsection \<open>The weights\<close>

lemma reweighted_refl: "reweighted b b"
  by (simp add: reweighted_def)

lemma reweighted_trans: "reweighted a b \<Longrightarrow> reweighted b c \<Longrightarrow> reweighted a c"
  by (simp add: reweighted_def)

lemma weigh_cell_Inr:
  assumes "r < height b" and "c < width b"
  shows "weigh_cell rnd r c b =
    Inr (b\<lparr>cells := (cells b)[uint32 (r * width b + c) := (cells b ! uint32 (r * width b + c))
      \<lparr>omega_in := (if fst (fold (count_adj b r c) directions (0, 0)) = 0 then 0
                     else fdiv rnd 1 (real (fst (fold (count_adj b r c) directions (0, 0))))),
        omega_out := (if snd (fold (count_adj b r c) directions (0, 0)) = 0 then 0
                     else fdiv rnd 1 (real (snd (fold (count_adj b r c) directions (0, 0)))))\<rparr>]\<rparr>)"
  using assms by (simp add: weigh_cell_def cellAt_def Let_def)

lemma weigh_cell_reweighted:
  assumes "r < height b" and "c < width b" and "weigh_cell rnd r c b = Inr b'"
  shows "reweighted b b'"
  using assms(3) unfolding weigh_cell_Inr [OF assms(1,2)] reweighted_def
  by (auto simp: nth_update_field [where g = "\<lambda>x. x\<lparr>omega_in := u, omega_out := v\<rparr>" for u v, simplified])

lemma count_adj_reweighted:
  assumes "reweighted b b'"
  shows "count_adj b' r c dir io = count_adj b r c dir io"
proof -
  have "cellAt_dir b' dir r c = cellAt_dir b dir r c"
    using assms by (cases dir) (simp_all add: cellAt_def reweighted_def)
  with assms show ?thesis
    by (auto simp: count_adj_def reweighted_def split: option.splits)
qed

lemma fold_count_adj_reweighted:
  assumes "reweighted b b'"
  shows "fold (count_adj b' r c) ds io = fold (count_adj b r c) ds io"
  by (induction ds arbitrary: io) (simp_all add: count_adj_reweighted [OF assms])

lemma weigh_board_flat:
  "weigh_board rnd b =
     foldE (\<lambda>p. weigh_cell rnd (fst p) (snd p)) (List.product [0..<height b] [0..<width b]) b"
  by (simp add: weigh_board_def foldE_product)

lemma weigh_board_total: "\<exists>b'. weigh_board rnd b = Inr b' \<and> reweighted b b'"
  unfolding weigh_board_flat
proof (rule foldE_total)
  show "reweighted b b" by (rule reweighted_refl)
next
  fix p t
  assume p: "p \<in> set (List.product [0..<height b] [0..<width b])" and t: "reweighted b t"
  then have r: "fst p < height t" "snd p < width t" by (auto simp: reweighted_def)
  then obtain t' where t': "weigh_cell rnd (fst p) (snd p) t = Inr t'"
    by (simp add: weigh_cell_Inr)
  with r t have "reweighted b t'" by (blast intro: reweighted_trans weigh_cell_reweighted)
  with t' show "\<exists>t'. weigh_cell rnd (fst p) (snd p) t = Inr t' \<and> reweighted b t'" by blast
qed

lemma weigh_board_weighted:
  assumes wf: "width b * height b < 4294967296" "length (cells b) = width b * height b"
    and "weigh_board rnd b = Inr b'" and "r < height b" and "c < width b"
  shows "weighted rnd b r c b'"
proof -
  let ?I = "\<lambda>t::Board. reweighted b t"
  let ?R = "\<lambda>p (t::Board). snd p < width b \<longrightarrow> weighted rnd b (fst p) (snd p) t"
  have "?R (r, c) b'"
  proof (rule foldE_visited [where I = ?I and R = ?R, OF assms(3) [unfolded weigh_board_flat]])
    show "?I b" by (rule reweighted_refl)
    show "(r, c) \<in> set (List.product [0..<height b] [0..<width b])" using assms by simp
  next
    fix x t t'
    assume x: "x \<in> set (List.product [0..<height b] [0..<width b])" and t: "?I t"
      and t': "weigh_cell rnd (fst x) (snd x) t = Inr t'"
    from x have xb: "fst x < height b" "snd x < width b" by auto
    with t have xr: "fst x < height t" "snd x < width t" by (simp_all add: reweighted_def)
    from t have d: "width t = width b" "height t = height b" "length (cells t) = length (cells b)"
      by (simp_all add: reweighted_def)
    have k: "fst x * width b + snd x < width b * height b"
      using xb by (rule index_less)
    have cnt: "fold (count_adj t (fst x) (snd x)) directions (0, 0) =
        (ins_count b (fst x) (snd x), outs_count b (fst x) (snd x))"
      using fold_count_adj_reweighted [OF t] counts_agree [OF wf(1) xb] by simp
    have eq: "cells t' = (cells t)[fst x * width b + snd x := (cells t ! (fst x * width b + snd x))
        \<lparr>omega_in := weight rnd (ins_count b (fst x) (snd x)),
          omega_out := weight rnd (outs_count b (fst x) (snd x))\<rparr>]"
      using t' k wf(1) unfolding weigh_cell_Inr [OF xr] cnt d
      by (auto simp: uint32_small weight_def)
    have 1: "?I t'" using t t' xr by (blast intro: reweighted_trans weigh_cell_reweighted)
    have 2: "?R x t'" using k wf(2) d by (simp add: weighted_def eq)
    have 3: "\<forall>y. ?R y t \<longrightarrow> ?R y t'"
    proof (intro allI impI)
      fix y
      assume y: "?R y t" "snd y < width b"
      show "weighted rnd b (fst y) (snd y) t'"
      proof (cases "fst y * width b + snd y = fst x * width b + snd x")
        case True
        from index_inj [OF True y(2) xb(2)] 2 xb show ?thesis by (simp add: weighted_def)
      next
        case False
        with y show ?thesis by (simp add: weighted_def eq)
      qed
    qed
    from 1 2 3 show "?I t' \<and> ?R x t' \<and> (\<forall>y. ?R y t \<longrightarrow> ?R y t')" by blast
  qed
  with assms(5) show ?thesis by simp
qed

subsection \<open>The constructor of the simulation\<close>

lemma new_Sim_OutOfBounds:
  "\<not> (er < h \<and> ec < w) \<Longrightarrow> new_Sim rnd pmem cmem w h layout er ec = Inl OutOfBounds"
  by (simp add: new_Sim_def place_emitter_def cellAt_None new_Board_shape)

lemma new_Sim_in_bounds:
  assumes "w * h < 4294967296" and "er < h" and "ec < w"
  shows "new_Sim rnd pmem cmem w h layout er ec =
     (if cost (cells (new_Board pmem cmem w h layout) ! (er * w + ec)) < 0 \<or>
         9 < cost (cells (new_Board pmem cmem w h layout) ! (er * w + ec))
      then Inl InvalidEmitterPlacement
      else (case weigh_board rnd (emitter_placed (new_Board pmem cmem w h layout) (er * w + ec)) of
              Inl e \<Rightarrow> Inl e
            | Inr b' \<Rightarrow> Inr (default_Sim b')))"
proof -
  let ?b = "new_Board pmem cmem w h layout"
  have "width ?b * height ?b < 4294967296" "er < height ?b" "ec < width ?b"
    using assms by (simp_all add: new_Board_shape)
  then have c: "cellAt ?b er ec = Some (er * w + ec)"
    using cellAt_Some [of ?b er ec] by (simp add: new_Board_shape)
  have u: "uint32 (er * w + ec) = er * w + ec"
    using index_less [OF assms(2,3)] assms(1) by (simp add: uint32_small)
  show ?thesis
    by (simp add: new_Sim_def place_emitter_def c writePixel_def new_Board_shape u
        emitter_placed_def default_Sim_def split: sum.splits)
qed

lemma emitter_placed_read:
  "width (emitter_placed b e) = width b"
  "height (emitter_placed b e) = height b"
  "length (cells (emitter_placed b e)) = length (cells b)"
  "length (pixmap (emitter_placed b e)) = length (pixmap b)"
  "cost (cells (emitter_placed b e) ! k) = cost (cells b ! k)"
  "row (cells (emitter_placed b e) ! k) = row (cells b ! k)"
  "col (cells (emitter_placed b e) ! k) = col (cells b ! k)"
  "intake (cells (emitter_placed b e) ! k) = intake (cells b ! k)"
  "outtake (cells (emitter_placed b e) ! k) = outtake (cells b ! k)"
  "omega_in (cells (emitter_placed b e) ! k) = omega_in (cells b ! k)"
  "omega_out (cells (emitter_placed b e) ! k) = omega_out (cells b ! k)"
  by (simp_all add: emitter_placed_def
      nth_update_field [where g = "\<lambda>x. x\<lparr>type := Emitter, density := 1\<rparr>", simplified])

lemma emitter_placed_written:
  assumes "e < length (cells b)"
  shows "type (cells (emitter_placed b e) ! k) = (if k = e then Emitter else type (cells b ! k))"
    and "density (cells (emitter_placed b e) ! k) = (if k = e then 1 else density (cells b ! k))"
  using assms by (simp_all add: emitter_placed_def nth_list_update)

text \<open>The classification of the constructor never yields an emitter, and it yields a
  floor cell exactly with a cost from 0 to 9.\<close>

lemma classified_Floor:
  assumes "classified layout w r c b"
  shows "type (cells b ! (r * w + c)) = Floor \<longleftrightarrow>
           0 \<le> cost (cells b ! (r * w + c)) \<and> cost (cells b ! (r * w + c)) \<le> 9"
    and "type (cells b ! (r * w + c)) \<noteq> Emitter"
    and "density (cells b ! (r * w + c)) = 0"
  using assms by (auto simp: classified_def classify_def split: if_splits)

lemma new_Sim_Inr:
  assumes "w * h < 4294967296" and "new_Sim rnd pmem cmem w h layout er ec = Inr s"
  shows "er < h" and "ec < w"
    and "type (cells (new_Board pmem cmem w h layout) ! (er * w + ec)) = Floor"
    and "s = default_Sim (board s)"
    and "weigh_board rnd (emitter_placed (new_Board pmem cmem w h layout) (er * w + ec))
           = Inr (board s)"
    and "reweighted (emitter_placed (new_Board pmem cmem w h layout) (er * w + ec)) (board s)"
proof -
  let ?b = "new_Board pmem cmem w h layout"
  show b: "er < h" "ec < w"
    using assms(2) new_Sim_OutOfBounds [of er h ec w rnd pmem cmem layout] by auto
  from new_Board_classified [OF assms(1) b]
  have cl: "classified layout w er ec ?b" .
  from assms(2) have ok: "\<not> (cost (cells ?b ! (er * w + ec)) < 0 \<or> 9 < cost (cells ?b ! (er * w + ec)))"
    unfolding new_Sim_in_bounds [OF assms(1) b] by (auto split: if_splits)
  with classified_Floor(1) [OF cl] show "type (cells ?b ! (er * w + ec)) = Floor" by auto
  from assms(2) ok obtain b' where b': "weigh_board rnd (emitter_placed ?b (er * w + ec)) = Inr b'"
    "s = default_Sim b'"
    unfolding new_Sim_in_bounds [OF assms(1) b] by (auto split: sum.splits)
  then show "s = default_Sim (board s)" by (simp add: default_Sim_def)
  from b' show w: "weigh_board rnd (emitter_placed ?b (er * w + ec)) = Inr (board s)"
    by (simp add: default_Sim_def)
  from weigh_board_total [of rnd "emitter_placed ?b (er * w + ec)"] w
  show "reweighted (emitter_placed ?b (er * w + ec)) (board s)" by auto
qed

lemma new_Sim_total:
  assumes "w * h < 4294967296" and "er < h" and "ec < w"
    and "0 \<le> cost (cells (new_Board pmem cmem w h layout) ! (er * w + ec))"
    and "cost (cells (new_Board pmem cmem w h layout) ! (er * w + ec)) \<le> 9"
  shows "\<exists>s. new_Sim rnd pmem cmem w h layout er ec = Inr s"
  using weigh_board_total [of rnd "emitter_placed (new_Board pmem cmem w h layout) (er * w + ec)"]
    assms(4,5)
  unfolding new_Sim_in_bounds [OF assms(1-3)] by auto

text \<open>The shape of a constructed board.\<close>

lemma new_Sim_shape:
  assumes "w * h < 4294967296" and "new_Sim rnd pmem cmem w h layout er ec = Inr s"
  shows "width (board s) = w" and "height (board s) = h"
    and "length (cells (board s)) = w * h" and "length (pixmap (board s)) = w * h"
  using new_Sim_Inr(6) [OF assms] assms(1)
  by (simp_all add: reweighted_def emitter_placed_read new_Board_shape uint32_small)

lemma ins_count_reweighted:
  assumes "reweighted b b'"
  shows "ins_count b' r c = ins_count b r c" and "outs_count b' r c = outs_count b r c"
  using assms by (simp_all add: ins_count_def outs_count_def kind_def reweighted_def)

lemma new_Sim_weighted:
  assumes "w * h < 4294967296" and "new_Sim rnd pmem cmem w h layout er ec = Inr s"
    and "r < h" and "c < w"
  shows "weighted rnd (board s) r c (board s)"
proof -
  let ?b = "emitter_placed (new_Board pmem cmem w h layout) (er * w + ec)"
  have d: "width ?b = w" "height ?b = h" "length (cells ?b) = w * h"
    using assms(1) by (simp_all add: emitter_placed_read new_Board_shape uint32_small)
  have "weighted rnd ?b r c (board s)"
    by (rule weigh_board_weighted [OF _ _ new_Sim_Inr(5) [OF assms(1,2)]])
      (use d assms in simp_all)
  then show ?thesis
    using ins_count_reweighted [OF new_Sim_Inr(6) [OF assms(1,2)]] d
      new_Sim_shape [OF assms(1,2)]
    by (simp add: weighted_def)
qed

subsection \<open>Any calls\<close>

lemma perform_evolves:
  assumes "perform rnd c (sto, s) = Inr (sto', s')"
  shows "evolves (board s) (board s')"
proof (cases "getTicks s' = getTicks s")
  case True
  have "board s' = board s"
  proof (cases c)
    case Cycle
    with assms True cycle_idle(1) [of rnd sto s sto' s'] show ?thesis by simp
  next
    case StepOnce
    with assms True step_updating(6) [of rnd sto s sto' s'] show ?thesis by simp
  qed (use assms in \<open>auto simp: start_def stop_def\<close>)
  then show ?thesis by (simp add: evolves_refl)
next
  case False
  from perform_updating(1) [OF assms False] update_board_total
    [of rnd "static_emitter_rate (init_statics sto s)" "static_escape_rate (init_statics sto s)"
      "static_use_precalc_weights (init_statics sto s)" "board s"]
  show ?thesis by auto
qed

lemma perform_total: "\<exists>p'. perform rnd c p = Inr p'"
proof (cases p)
  case (Pair sto s)
  show ?thesis
  proof (cases c)
    case Cycle
    obtain b where "update_board rnd (static_emitter_rate (init_statics sto s))
        (static_escape_rate (init_statics sto s))
        (static_use_precalc_weights (init_statics sto s)) (board s) = Inr b"
      using update_board_total by blast
    then have "update_board rnd
        (static_emitter_rate (init_statics sto s\<lparr>frame_skip_counter :=
           frame_skip_counter (init_statics sto s) - 1\<rparr>))
        (static_escape_rate (init_statics sto s\<lparr>frame_skip_counter :=
           frame_skip_counter (init_statics sto s) - 1\<rparr>))
        (static_use_precalc_weights (init_statics sto s\<lparr>frame_skip_counter :=
           frame_skip_counter (init_statics sto s) - 1\<rparr>)) (board s) = Inr b"
      by simp
    with Cycle Pair show ?thesis
      by (auto simp: cycle_def Let_def split: sum.splits)
  next
    case StepOnce
    with Pair step_result [of rnd sto s] show ?thesis by auto
  qed (use Pair in \<open>auto simp: start_def stop_def\<close>)
qed

lemma run_total_evolves:
  "\<exists>sto' s'. run rnd cs (sto, s) = Inr (sto', s') \<and> evolves (board s) (board s')"
proof (induction cs arbitrary: sto s)
  case Nil
  show ?case by (simp add: run_def evolves_refl)
next
  case (Cons c cs)
  obtain sto1 s1 where p: "perform rnd c (sto, s) = Inr (sto1, s1)"
    using perform_total [of rnd c "(sto, s)"] by auto
  from Cons [of sto1 s1] obtain sto' s' where
    r: "run rnd cs (sto1, s1) = Inr (sto', s')" "evolves (board s1) (board s')"
    by blast
  from p r perform_evolves [OF p] show ?case
    by (auto simp: run_def intro: evolves_trans)
qed

subsection \<open>Single stepping\<close>

text \<open>
  Claim C5. From any state (\<open>Stop\<close>, \<open>Run\<close> or \<open>Step\<close>), with any \<open>tick_rate\<close> and
  whatever the static locals hold, \<^verbatim>\<open>step()\<close> returns normally, has performed exactly
  one full board update with the latched rates on the board it found, has incremented
  \<^verbatim>\<open>getTicks()\<close> by one, has left the frame-skip counter as it was (or as the first call
  initialised it) and leaves the \<^verbatim>\<open>Sim\<close> in state \<open>Stop\<close>.
\<close>

theorem step_performs_one_update:
  "\<exists>sto' s' st'.
     step rnd sto s = Inr (sto', s') \<and>
     state s' = Stop \<and>
     getTicks s' = getTicks s + 1 \<and>
     update_board rnd (static_emitter_rate (init_statics sto s))
       (static_escape_rate (init_statics sto s))
       (static_use_precalc_weights (init_statics sto s)) (board s) = Inr (board s') \<and>
     sto' = Some st' \<and>
     frame_skip_counter st' = frame_skip_counter (init_statics sto s) \<and>
     tick_rate s' = tick_rate s"
proof -
  obtain b' where "update_board rnd (static_emitter_rate (init_statics sto s))
      (static_escape_rate (init_statics sto s))
      (static_use_precalc_weights (init_statics sto s)) (board s) = Inr b'"
    and "step rnd sto s =
       Inr (Some ((init_statics sto s)
                   \<lparr>static_emitter_rate := emitter_rate s, static_escape_rate := escape_rate s,
                    static_use_precalc_weights := use_precalc_weights s\<rparr>),
            s\<lparr>state := Stop, ticks := ticks s + 1, board := b'\<rparr>)"
    using step_result by blast
  then show ?thesis by (simp add: getTicks_def)
qed

subsection \<open>The latched configuration\<close>

text \<open>
  Claim C8. Let a call complete a board update (\<^verbatim>\<open>getTicks()\<close> changes), let any calls
  follow that complete none (assignments to the configuration members among them), and
  let a call then complete the next update. That update runs with the values
  \<^verbatim>\<open>emitter_rate\<close>, \<^verbatim>\<open>escape_rate\<close> and \<^verbatim>\<open>use_precalc_weights\<close> had when the update
  before it ended, whatever they have been set to since; what it leaves latched for the
  update after it are the values of the members as it finds them.
\<close>

theorem config_change_lags_one_update:
  assumes "perform rnd c1 (sto, s) = Inr (sto1, s1)" and "getTicks s1 \<noteq> getTicks s"
    and "quiet rnd cs (sto1, s1)" and "run rnd cs (sto1, s1) = Inr (sto1', s1')"
    and "perform rnd c2 (sto1', s1') = Inr (sto2, s2)" and "getTicks s2 \<noteq> getTicks s1'"
  shows "update_board rnd (emitter_rate s1) (escape_rate s1) (use_precalc_weights s1) (board s1)
           = Inr (board s2) \<and>
         (\<exists>st2. sto2 = Some st2 \<and>
            static_emitter_rate st2 = emitter_rate s1' \<and>
            static_escape_rate st2 = escape_rate s1' \<and>
            static_use_precalc_weights st2 = use_precalc_weights s1')"
proof -
  from perform_updating(2,3) [OF assms(1,2)] obtain st1 where
    st1: "sto1 = Some st1" "latched st1 = config s1"
    by auto
  from quiet_run [OF assms(3,4) [unfolded st1(1)]] obtain st1' where
    st1': "sto1' = Some st1'" "latched st1' = latched st1" "board s1' = board s1"
    by auto
  have i: "init_statics (Some st1') s1' = st1'" by (simp add: init_statics_def)
  from st1 st1' have l: "static_emitter_rate st1' = emitter_rate s1"
    "static_escape_rate st1' = escape_rate s1"
    "static_use_precalc_weights st1' = use_precalc_weights s1"
    by (simp_all add: latched_def config_def)
  from perform_updating(1,2) [OF assms(5,6)] show ?thesis
    unfolding st1'(1) i l st1'(3) by (auto simp: latched_def config_def)
qed

theorem config_change_lags_one_update_witness:
  "perform binary32 StepOnce (None, corridor_sim\<lparr>use_precalc_weights := True\<rparr>) =
     Inr (Some \<lparr>frame_skip_counter = 1, static_emitter_rate = 1, static_escape_rate = 1,
                static_use_precalc_weights = True\<rparr>,
          corridor_sim\<lparr>use_precalc_weights := True, ticks := 1, board := corridor_board 1\<rparr>) \<and>
   getTicks (corridor_sim\<lparr>use_precalc_weights := True, ticks := 1, board := corridor_board 1\<rparr>)
     \<noteq> getTicks (corridor_sim\<lparr>use_precalc_weights := True\<rparr>) \<and>
   quiet binary32 [SetEmitterRate 0]
     (Some \<lparr>frame_skip_counter = 1, static_emitter_rate = 1, static_escape_rate = 1,
            static_use_precalc_weights = True\<rparr>,
      corridor_sim\<lparr>use_precalc_weights := True, ticks := 1, board := corridor_board 1\<rparr>) \<and>
   perform binary32 StepOnce
     (Some \<lparr>frame_skip_counter = 1, static_emitter_rate = 1, static_escape_rate = 1,
            static_use_precalc_weights = True\<rparr>,
      corridor_sim\<lparr>use_precalc_weights := True, ticks := 1, board := corridor_board 1,
        emitter_rate := 0\<rparr>) =
     Inr (Some \<lparr>frame_skip_counter = 1, static_emitter_rate = 0, static_escape_rate = 1,
                static_use_precalc_weights = True\<rparr>,
          corridor_sim\<lparr>use_precalc_weights := True, ticks := 2, board := corridor_board 0,
            emitter_rate := 0\<rparr>) \<and>
   update_board binary32 1 1 True (corridor_board 1) = Inr (corridor_board 0)"
proof -
  let ?st1 = "\<lparr>frame_skip_counter = 1, static_emitter_rate = 1, static_escape_rate = 1,
                static_use_precalc_weights = True\<rparr>"
  let ?s0 = "corridor_sim\<lparr>use_precalc_weights := True\<rparr>"
  let ?s1 = "corridor_sim\<lparr>use_precalc_weights := True, ticks := 1, board := corridor_board 1\<rparr>"
  let ?s2 = "corridor_sim\<lparr>use_precalc_weights := True, ticks := 2, board := corridor_board 0,
            emitter_rate := 0\<rparr>"
  have c: "emitter_rate corridor_sim = 1" "escape_rate corridor_sim = 1"
    "tick_rate corridor_sim = 1" "ticks corridor_sim = 0"
    by (simp_all add: corridor_sim_def)
  have h1: "perform binary32 StepOnce (None, ?s0) = Inr (Some ?st1, ?s1)"
    by (simp add: step_def cycle_def init_statics_def Let_def corridor_first_update c)
      (simp add: corridor_sim_def)
  have h2: "getTicks ?s1 \<noteq> getTicks ?s0"
    by (simp add: getTicks_def c)
  have h3: "quiet binary32 [SetEmitterRate 0] (Some ?st1, ?s1)"
    by (simp add: getTicks_def)
  have h4: "run binary32 [SetEmitterRate 0] (Some ?st1, ?s1) =
      Inr (Some ?st1, ?s1\<lparr>emitter_rate := 0\<rparr>)"
    by (simp add: run_def)
  have h5: "perform binary32 StepOnce (Some ?st1, ?s1\<lparr>emitter_rate := 0\<rparr>) =
      Inr (Some (?st1\<lparr>static_emitter_rate := 0\<rparr>), ?s2)"
    by (simp add: step_def cycle_def init_statics_def Let_def corridor_update_1 c)
      (simp add: corridor_sim_def)
  have h6: "getTicks ?s2 \<noteq> getTicks (?s1\<lparr>emitter_rate := 0\<rparr>)"
    by (simp add: getTicks_def)
  from config_change_lags_one_update [OF h1 h2 h3 h4 h5 h6] h1 h2 h3 h5
  show ?thesis by (simp add: c)
qed

subsection \<open>The static locals outlive the \<^verbatim>\<open>Sim\<close>\<close>

text \<open>
  Claim C10. The frame-skip counter and the latched rates are static locals of
  \<^verbatim>\<open>cycle\<close>: one copy for the program. They are initialised from a \<^verbatim>\<open>Sim\<close> only while
  they are \<open>None\<close>, that is by the first call of \<^verbatim>\<open>cycle\<close> in the program. Once a call
  on a \<^verbatim>\<open>Sim\<close> \<open>s1\<close> has completed an update, they hold the configuration of \<open>s1\<close>, and
  the next call of \<^verbatim>\<open>cycle\<close> on any \<^verbatim>\<open>Sim\<close> \<open>s2\<close>, a new one included, does not
  initialise them again: it counts down from the counter that was left, and its update
  runs with the rates and the weight mode of \<open>s1\<close>, not with those of \<open>s2\<close>.
\<close>

theorem statics_shared_by_every_Sim:
  assumes "perform rnd c (sto, s1) = Inr (sto1, s1')" and "getTicks s1' \<noteq> getTicks s1"
  shows "\<exists>st1. sto1 = Some st1 \<and>
           static_emitter_rate st1 = emitter_rate s1 \<and>
           static_escape_rate st1 = escape_rate s1 \<and>
           static_use_precalc_weights st1 = use_precalc_weights s1 \<and>
           frame_skip_counter st1 =
             (if c = Cycle \<and> state s1 = Run then tick_rate s1
              else frame_skip_counter (init_statics sto s1)) \<and>
           init_statics sto1 s2 = st1 \<and>
           init_statics None s2 =
             \<lparr>frame_skip_counter = tick_rate s2, static_emitter_rate = emitter_rate s2,
               static_escape_rate = escape_rate s2,
               static_use_precalc_weights = use_precalc_weights s2\<rparr> \<and>
           (state s2 = Stop \<longrightarrow> cycle rnd sto1 s2 = Inr (sto1, s2)) \<and>
           (state s2 = Run \<and> frame_skip_counter st1 \<noteq> 1 \<longrightarrow>
              cycle rnd sto1 s2 =
                Inr (Some (st1\<lparr>frame_skip_counter := frame_skip_counter st1 - 1\<rparr>), s2)) \<and>
           (state s2 = Step \<or> state s2 = Run \<and> frame_skip_counter st1 = 1 \<longrightarrow>
              (\<exists>b. update_board rnd (emitter_rate s1) (escape_rate s1)
                      (use_precalc_weights s1) (board s2) = Inr b \<and>
                   cycle rnd sto1 s2 =
                     Inr (Some \<lparr>frame_skip_counter =
                                  (if state s2 = Run then tick_rate s2
                                   else frame_skip_counter st1),
                                static_emitter_rate = emitter_rate s2,
                                static_escape_rate = escape_rate s2,
                                static_use_precalc_weights = use_precalc_weights s2\<rparr>,
                          s2\<lparr>board := b, ticks := ticks s2 + 1\<rparr>)))"
proof -
  have "\<exists>st1. sto1 = Some st1 \<and> latched st1 = config s1 \<and>
          frame_skip_counter st1 =
             (if c = Cycle \<and> state s1 = Run then tick_rate s1
              else frame_skip_counter (init_statics sto s1))"
  proof (cases c)
    case Cycle
    with assms cycle_updating(2) [of rnd sto s1 sto1 s1'] show ?thesis by auto
  next
    case StepOnce
    with assms step_updating(2) [of rnd sto s1 sto1 s1'] show ?thesis by auto
  qed (use assms in \<open>auto simp: start_def stop_def getTicks_def\<close>)
  then obtain st1 where st1: "sto1 = Some st1" "latched st1 = config s1"
    "frame_skip_counter st1 =
       (if c = Cycle \<and> state s1 = Run then tick_rate s1
        else frame_skip_counter (init_statics sto s1))"
    by blast
  then have l: "static_emitter_rate st1 = emitter_rate s1"
    "static_escape_rate st1 = escape_rate s1"
    "static_use_precalc_weights st1 = use_precalc_weights s1"
    by (simp_all add: latched_def config_def)
  obtain b where b: "update_board rnd (emitter_rate s1) (escape_rate s1)
      (use_precalc_weights s1) (board s2) = Inr b"
    using update_board_total by blast
  have i: "init_statics (Some st1) s2 = st1" by (simp add: init_statics_def)
  have "state s2 = Step \<or> state s2 = Run \<and> frame_skip_counter st1 = 1 \<Longrightarrow>
      cycle rnd (Some st1) s2 =
        Inr (Some \<lparr>frame_skip_counter =
                     (if state s2 = Run then tick_rate s2 else frame_skip_counter st1),
                   static_emitter_rate = emitter_rate s2,
                   static_escape_rate = escape_rate s2,
                   static_use_precalc_weights = use_precalc_weights s2\<rparr>,
             s2\<lparr>board := b, ticks := ticks s2 + 1\<rparr>)"
    by (auto simp: cycle_def Let_def i l b)
  moreover have "state s2 = Stop \<Longrightarrow> cycle rnd (Some st1) s2 = Inr (Some st1, s2)"
    by (simp add: cycle_def i)
  moreover have "state s2 = Run \<and> frame_skip_counter st1 \<noteq> 1 \<Longrightarrow>
      cycle rnd (Some st1) s2 =
        Inr (Some (st1\<lparr>frame_skip_counter := frame_skip_counter st1 - 1\<rparr>), s2)"
    by (simp add: cycle_def i Let_def)
  ultimately show ?thesis
    using st1 l b i by (auto simp: init_statics_def)
qed

theorem statics_shared_by_every_Sim_witness:
  "perform binary32 StepOnce (None, corridor_sim\<lparr>use_precalc_weights := True\<rparr>) =
     Inr (Some \<lparr>frame_skip_counter = 1, static_emitter_rate = 1, static_escape_rate = 1,
                static_use_precalc_weights = True\<rparr>,
          corridor_sim\<lparr>use_precalc_weights := True, ticks := 1, board := corridor_board 1\<rparr>) \<and>
   getTicks (corridor_sim\<lparr>use_precalc_weights := True, ticks := 1, board := corridor_board 1\<rparr>)
     \<noteq> getTicks (corridor_sim\<lparr>use_precalc_weights := True\<rparr>) \<and>
   new_Sim binary32 black blanks 3 1 corridor 0 0 = Inr corridor_sim \<and>
   use_precalc_weights corridor_sim = False \<and>
   cycle binary32
     (Some \<lparr>frame_skip_counter = 1, static_emitter_rate = 1, static_escape_rate = 1,
            static_use_precalc_weights = True\<rparr>)
     (corridor_sim\<lparr>state := Run\<rparr>) =
     Inr (Some \<lparr>frame_skip_counter = 1, static_emitter_rate = 1, static_escape_rate = 1,
                static_use_precalc_weights = False\<rparr>,
          corridor_sim\<lparr>state := Run, board := corridor_board 1, ticks := 1\<rparr>)"
proof -
  let ?st1 = "\<lparr>frame_skip_counter = 1, static_emitter_rate = 1, static_escape_rate = 1,
                static_use_precalc_weights = True\<rparr>"
  let ?s0 = "corridor_sim\<lparr>use_precalc_weights := True\<rparr>"
  let ?s1 = "corridor_sim\<lparr>use_precalc_weights := True, ticks := 1, board := corridor_board 1\<rparr>"
  have c: "emitter_rate corridor_sim = 1" "escape_rate corridor_sim = 1"
    "tick_rate corridor_sim = 1" "ticks corridor_sim = 0" "\<not> use_precalc_weights corridor_sim"
    by (simp_all add: corridor_sim_def)
  have h1: "perform binary32 StepOnce (None, ?s0) = Inr (Some ?st1, ?s1)"
    by (simp add: step_def cycle_def init_statics_def Let_def corridor_first_update c)
      (simp add: corridor_sim_def)
  have h2: "getTicks ?s1 \<noteq> getTicks ?s0"
    by (simp add: getTicks_def c)
  from statics_shared_by_every_Sim [OF h1 h2, of "corridor_sim\<lparr>state := Run\<rparr>"]
  have "cycle binary32 (Some ?st1) (corridor_sim\<lparr>state := Run\<rparr>) =
     Inr (Some \<lparr>frame_skip_counter = 1, static_emitter_rate = 1, static_escape_rate = 1,
                static_use_precalc_weights = False\<rparr>,
          corridor_sim\<lparr>state := Run, board := corridor_board 1, ticks := 1\<rparr>)"
    by (simp add: c corridor_first_update)
  with h1 h2 new_Sim_corridor c show ?thesis by simp
qed

subsection \<open>The frame-skip counter\<close>

lemma cycle_None: "cycle rnd None s = cycle rnd (Some (init_statics None s)) s"
  by (simp add: cycle_def init_statics_def)

lemma cycle_counting:
  assumes "state s = Run" and "frame_skip_counter st \<noteq> 1"
  shows "cycle rnd (Some st) s =
           Inr (Some (st\<lparr>frame_skip_counter := frame_skip_counter st - 1\<rparr>), s)"
  using assms by (simp add: cycle_def init_statics_def Let_def)

lemma cycle_counted:
  assumes "state s = Run" and "frame_skip_counter st = 1"
  shows "\<exists>b. update_board rnd (static_emitter_rate st) (static_escape_rate st)
                (static_use_precalc_weights st) (board s) = Inr b \<and>
              cycle rnd (Some st) s =
                Inr (Some \<lparr>frame_skip_counter = tick_rate s,
                           static_emitter_rate = emitter_rate s,
                           static_escape_rate = escape_rate s,
                           static_use_precalc_weights = use_precalc_weights s\<rparr>,
                     s\<lparr>board := b, ticks := ticks s + 1\<rparr>)"
proof -
  obtain b where "update_board rnd (static_emitter_rate st) (static_escape_rate st)
                (static_use_precalc_weights st) (board s) = Inr b"
    using update_board_total by blast
  with assms show ?thesis by (simp add: cycle_def init_statics_def Let_def)
qed

text \<open>While the counter is above \<open>k\<close>, \<open>k\<close> calls of \<^verbatim>\<open>cycle\<close> on a running \<^verbatim>\<open>Sim\<close> only
  count down.\<close>

lemma idle_cycles:
  assumes "state s = Run" and "int k < frame_skip_counter st"
  shows "quiet rnd (replicate k Cycle) (Some st, s) \<and>
         run rnd (replicate k Cycle) (Some st, s) =
           Inr (Some (st\<lparr>frame_skip_counter := frame_skip_counter st - int k\<rparr>), s)"
  using assms
proof (induction k arbitrary: st)
  case 0
  then show ?case by (simp add: run_def)
next
  case (Suc k)
  let ?st1 = "st\<lparr>frame_skip_counter := frame_skip_counter st - 1\<rparr>"
  from Suc.prems have c: "cycle rnd (Some st) s = Inr (Some ?st1, s)"
    by (intro cycle_counting) simp_all
  from Suc.prems have "int k < frame_skip_counter ?st1" by simp
  from Suc.IH [OF Suc.prems(1) this] c show ?case
    by (simp add: run_def algebra_simps)
qed

text \<open>What holds of the counter: when the first call of \<^verbatim>\<open>cycle\<close> in the program is made
  on a running \<^verbatim>\<open>Sim\<close> with \<open>tick_rate = N\<close>, \<open>1 \<le> N\<close>, the first \<open>N - 1\<close> calls complete no
  update and the \<open>N\<close>th completes one and sets the counter to \<open>tick_rate\<close> again.\<close>

lemma first_Sim_counts_tick_rate:
  assumes "state s = Run" and "tick_rate s = int N" and "0 < N"
  shows "quiet rnd (replicate (N - 1) Cycle) (Some (init_statics None s), s) \<and>
         (\<exists>st b. run rnd (replicate (N - 1) Cycle) (Some (init_statics None s), s) =
                    Inr (Some st, s) \<and>
                  cycle rnd (Some st) s =
                    Inr (Some \<lparr>frame_skip_counter = tick_rate s,
                               static_emitter_rate = emitter_rate s,
                               static_escape_rate = escape_rate s,
                               static_use_precalc_weights = use_precalc_weights s\<rparr>,
                         s\<lparr>board := b, ticks := ticks s + 1\<rparr>))"
proof -
  let ?ini = "init_statics None s"
  let ?st = "?ini\<lparr>frame_skip_counter := frame_skip_counter ?ini - int (N - 1)\<rparr>"
  have f: "frame_skip_counter ?ini = int N"
    using assms(2) by (simp add: init_statics_def)
  have n: "int (N - 1) = int N - 1" using assms(3) by (simp add: of_nat_diff)
  have "int (N - 1) < frame_skip_counter ?ini" unfolding f n by simp
  from idle_cycles [OF assms(1) this, of rnd]
  have i: "quiet rnd (replicate (N - 1) Cycle) (Some ?ini, s)"
    "run rnd (replicate (N - 1) Cycle) (Some ?ini, s) = Inr (Some ?st, s)"
    by simp_all
  have "frame_skip_counter ?st = 1" using f n by simp
  from cycle_counted [OF assms(1) this, of rnd] obtain b where
    "cycle rnd (Some ?st) s =
       Inr (Some \<lparr>frame_skip_counter = tick_rate s,
                  static_emitter_rate = emitter_rate s,
                  static_escape_rate = escape_rate s,
                  static_use_precalc_weights = use_precalc_weights s\<rparr>,
            s\<lparr>board := b, ticks := ticks s + 1\<rparr>)"
    by blast
  with i show ?thesis by blast
qed

text \<open>
  Claim C6. A freshly constructed \<^verbatim>\<open>Sim\<close> that runs with \<open>tick_rate = N\<close> should complete
  no update in its first \<open>N - 1\<close> calls of \<^verbatim>\<open>cycle\<close>. The counter is a static local, so
  this holds of the \<^verbatim>\<open>Sim\<close> the program calls \<^verbatim>\<open>cycle\<close> on first and fails for one
  constructed later. Here a first \<^verbatim>\<open>Sim\<close> on the corridor runs one cycle with
  \<open>tick_rate = 1\<close>, which completes an update and leaves the counter at 1; a second
  \<^verbatim>\<open>Sim\<close>, newly constructed on the same layout, is given \<open>tick_rate = 3\<close> and started:
  its first call of \<^verbatim>\<open>cycle\<close> completes an update and \<^verbatim>\<open>getTicks()\<close> is 1.
\<close>

theorem second_Sim_inherits_countdown:
  "new_Sim binary32 black blanks 3 1 corridor 0 0 = Inr corridor_sim \<and>
   run binary32 [SetUsePrecalcWeights True, Start, Cycle] (None, corridor_sim) =
     Inr (Some \<lparr>frame_skip_counter = 1, static_emitter_rate = 1, static_escape_rate = 1,
                static_use_precalc_weights = True\<rparr>,
          corridor_sim\<lparr>use_precalc_weights := True, state := Run, ticks := 1,
            board := corridor_board 1\<rparr>) \<and>
   run binary32 [SetTickRate 3, Start, Cycle]
     (Some \<lparr>frame_skip_counter = 1, static_emitter_rate = 1, static_escape_rate = 1,
            static_use_precalc_weights = True\<rparr>, corridor_sim) =
     Inr (Some \<lparr>frame_skip_counter = 3, static_emitter_rate = 1, static_escape_rate = 1,
                static_use_precalc_weights = False\<rparr>,
          corridor_sim\<lparr>tick_rate := 3, state := Run, ticks := 1,
            board := corridor_board 1\<rparr>) \<and>
   getTicks (corridor_sim\<lparr>tick_rate := 3, state := Run, ticks := 1,
               board := corridor_board 1\<rparr>) = 1"
proof -
  have c: "emitter_rate corridor_sim = 1" "escape_rate corridor_sim = 1"
    "tick_rate corridor_sim = 1" "ticks corridor_sim = 0" "\<not> use_precalc_weights corridor_sim"
    by (simp_all add: corridor_sim_def)
  have "run binary32 [SetUsePrecalcWeights True, Start, Cycle] (None, corridor_sim) =
     Inr (Some \<lparr>frame_skip_counter = 1, static_emitter_rate = 1, static_escape_rate = 1,
                static_use_precalc_weights = True\<rparr>,
          corridor_sim\<lparr>use_precalc_weights := True, state := Run, ticks := 1,
            board := corridor_board 1\<rparr>)"
    by (simp add: run_def start_def cycle_def init_statics_def Let_def corridor_first_update c)
  moreover have "run binary32 [SetTickRate 3, Start, Cycle]
     (Some \<lparr>frame_skip_counter = 1, static_emitter_rate = 1, static_escape_rate = 1,
            static_use_precalc_weights = True\<rparr>, corridor_sim) =
     Inr (Some \<lparr>frame_skip_counter = 3, static_emitter_rate = 1, static_escape_rate = 1,
                static_use_precalc_weights = False\<rparr>,
          corridor_sim\<lparr>tick_rate := 3, state := Run, ticks := 1,
            board := corridor_board 1\<rparr>)"
    by (simp add: run_def start_def cycle_def init_statics_def Let_def corridor_first_update c)
  ultimately show ?thesis
    using new_Sim_corridor by (simp add: getTicks_def)
qed

subsection \<open>Emitter placement\<close>

text \<open>
  Claim C7. On a grid whose cells can be indexed (\<open>width * height < 2 ^ 32\<close>) the
  constructor fails with "out of bounds" exactly when the emitter coordinate is not in
  \<open>[0, height) \<times> [0, width)\<close>; it fails with "not on floor tile" exactly when the
  coordinate is in the grid and the cell there, as the constructor of the board left it,
  has a cost outside \<open>[0, 9]\<close>, which is to say that its type is not \<open>Floor\<close>; otherwise
  it succeeds. On success the emitter placement has changed that cell and no other: its
  type is \<open>Emitter\<close>, its density 1 and its pixel the emitter colour, while every other
  pixel, and the type, the density and the cost, position and scratch fields of every
  other cell are those the constructor of the board wrote.
\<close>

theorem emitter_placement:
  assumes "w * h < 4294967296"
  shows
    "(new_Sim rnd pmem cmem w h layout er ec = Inl OutOfBounds \<longleftrightarrow> \<not> (er < h \<and> ec < w)) \<and>
     (new_Sim rnd pmem cmem w h layout er ec = Inl InvalidEmitterPlacement \<longleftrightarrow>
        er < h \<and> ec < w \<and>
        (cost (cells (new_Board pmem cmem w h layout) ! (er * w + ec)) < 0 \<or>
         9 < cost (cells (new_Board pmem cmem w h layout) ! (er * w + ec)))) \<and>
     (er < h \<and> ec < w \<longrightarrow>
        (cost (cells (new_Board pmem cmem w h layout) ! (er * w + ec)) < 0 \<or>
         9 < cost (cells (new_Board pmem cmem w h layout) ! (er * w + ec))
         \<longleftrightarrow> type (cells (new_Board pmem cmem w h layout) ! (er * w + ec)) \<noteq> Floor)) \<and>
     ((\<exists>s. new_Sim rnd pmem cmem w h layout er ec = Inr s) \<longleftrightarrow>
        er < h \<and> ec < w \<and>
        type (cells (new_Board pmem cmem w h layout) ! (er * w + ec)) = Floor) \<and>
     (\<forall>s. new_Sim rnd pmem cmem w h layout er ec = Inr s \<longrightarrow>
        pixmap (board s) = (pixmap (new_Board pmem cmem w h layout))[er * w + ec := emitter_color] \<and>
        (\<forall>k. type (cells (board s) ! k) =
               (if k = er * w + ec then Emitter
                else type (cells (new_Board pmem cmem w h layout) ! k)) \<and>
             density (cells (board s) ! k) =
               (if k = er * w + ec then 1
                else density (cells (new_Board pmem cmem w h layout) ! k)) \<and>
             cost (cells (board s) ! k) = cost (cells (new_Board pmem cmem w h layout) ! k) \<and>
             row (cells (board s) ! k) = row (cells (new_Board pmem cmem w h layout) ! k) \<and>
             col (cells (board s) ! k) = col (cells (new_Board pmem cmem w h layout) ! k) \<and>
             intake (cells (board s) ! k) = intake (cells (new_Board pmem cmem w h layout) ! k) \<and>
             outtake (cells (board s) ! k) = outtake (cells (new_Board pmem cmem w h layout) ! k)))"
proof -
  let ?b = "new_Board pmem cmem w h layout"
  let ?e = "er * w + ec"
  let ?new = "new_Sim rnd pmem cmem w h layout er ec"
  have floor: "(cost (cells ?b ! ?e) < 0 \<or> 9 < cost (cells ?b ! ?e)) \<longleftrightarrow> type (cells ?b ! ?e) \<noteq> Floor"
    if "er < h" "ec < w"
    using classified_Floor(1) [OF new_Board_classified [OF assms that]] by auto
  have weighed: "\<exists>b'. weigh_board rnd (emitter_placed ?b ?e) = Inr b'"
    using weigh_board_total by blast
  have 1: "?new = Inl OutOfBounds \<longleftrightarrow> \<not> (er < h \<and> ec < w)"
  proof (cases "er < h \<and> ec < w")
    case True
    then show ?thesis
      using weighed new_Sim_in_bounds [OF assms, of er ec rnd pmem cmem layout] by auto
  next
    case False
    then show ?thesis by (simp add: new_Sim_OutOfBounds)
  qed
  have 2: "?new = Inl InvalidEmitterPlacement \<longleftrightarrow>
      er < h \<and> ec < w \<and> (cost (cells ?b ! ?e) < 0 \<or> 9 < cost (cells ?b ! ?e))"
  proof (cases "er < h \<and> ec < w")
    case True
    then show ?thesis
      using weighed new_Sim_in_bounds [OF assms, of er ec rnd pmem cmem layout] by auto
  next
    case False
    then show ?thesis by (auto simp: new_Sim_OutOfBounds)
  qed
  have 4: "(\<exists>s. ?new = Inr s) \<longleftrightarrow> er < h \<and> ec < w \<and> type (cells ?b ! ?e) = Floor"
  proof
    assume "\<exists>s. ?new = Inr s"
    then obtain s where s: "?new = Inr s" ..
    from new_Sim_Inr(1,2,3) [OF assms s]
    show "er < h \<and> ec < w \<and> type (cells ?b ! ?e) = Floor" by simp
  next
    assume a: "er < h \<and> ec < w \<and> type (cells ?b ! ?e) = Floor"
    with floor have "0 \<le> cost (cells ?b ! ?e)" "cost (cells ?b ! ?e) \<le> 9" by auto
    with a show "\<exists>s. ?new = Inr s" by (intro new_Sim_total assms) simp_all
  qed
  have 5: "pixmap (board s) = (pixmap ?b)[?e := emitter_color] \<and>
        (\<forall>k. type (cells (board s) ! k) = (if k = ?e then Emitter else type (cells ?b ! k)) \<and>
             density (cells (board s) ! k) = (if k = ?e then 1 else density (cells ?b ! k)) \<and>
             cost (cells (board s) ! k) = cost (cells ?b ! k) \<and>
             row (cells (board s) ! k) = row (cells ?b ! k) \<and>
             col (cells (board s) ! k) = col (cells ?b ! k) \<and>
             intake (cells (board s) ! k) = intake (cells ?b ! k) \<and>
             outtake (cells (board s) ! k) = outtake (cells ?b ! k))"
    if s: "?new = Inr s" for s
  proof -
    from new_Sim_Inr(1,2) [OF assms s] have "?e < w * h" by (intro index_less)
    then have e: "?e < length (cells ?b)"
      using assms by (simp add: new_Board_shape uint32_small)
    from new_Sim_Inr(6) [OF assms s] show ?thesis
      unfolding reweighted_def
      by (simp add: emitter_placed_read emitter_placed_written [OF e]) (simp add: emitter_placed_def)
  qed
  from 1 2 4 5 floor show ?thesis by blast
qed

theorem emitter_placement_witness:
  "(3::nat) * 1 < 4294967296 \<and>
   new_Sim binary32 black blanks 3 1 corridor 0 3 = Inl OutOfBounds \<and>
   new_Sim binary32 black blanks 3 1 corridor 0 2 = Inl InvalidEmitterPlacement \<and>
   type (cells (new_Board black blanks 3 1 corridor) ! 2) = Escape \<and>
   new_Sim binary32 black blanks 3 1 corridor 0 0 = Inr corridor_sim \<and>
   type (cells (new_Board black blanks 3 1 corridor) ! 0) = Floor \<and>
   pixmap (board corridor_sim) = [emitter_color, floor_color, escape_color] \<and>
   map type (cells (board corridor_sim)) = [Emitter, Floor, Escape] \<and>
   map density (cells (board corridor_sim)) = [1, 0, 0]"
proof -
  have h: "(3::nat) * 1 < 4294967296" by simp
  have t: "type (cells (new_Board black blanks 3 1 corridor) ! 2) = Escape"
    "type (cells (new_Board black blanks 3 1 corridor) ! 0) = Floor"
    unfolding new_Board_corridor by simp_all
  have t2: "cost (cells (new_Board black blanks 3 1 corridor) ! (0 * 3 + 2)) = 10"
    unfolding new_Board_corridor by simp
  from emitter_placement [OF h, of binary32 black blanks corridor 0 3]
  have 1: "new_Sim binary32 black blanks 3 1 corridor 0 3 = Inl OutOfBounds" by simp
  from emitter_placement [OF h, of binary32 black blanks corridor 0 2, unfolded t2]
  have 2: "new_Sim binary32 black blanks 3 1 corridor 0 2 = Inl InvalidEmitterPlacement" by simp
  from emitter_placement [OF h, of binary32 black blanks corridor 0 0] new_Sim_corridor
  have 3: "pixmap (board corridor_sim) =
      (pixmap (new_Board black blanks 3 1 corridor))[0 := emitter_color]"
    by simp
  from 1 2 3 t new_Sim_corridor show ?thesis
    unfolding new_Board_corridor by (simp add: corridor_sim_def)
qed

subsection \<open>Static weights\<close>

text \<open>
  Claim C4. In a constructed \<^verbatim>\<open>Sim\<close> on a grid whose cells can be indexed, the weights
  of the cell at row \<open>r\<close>, column \<open>c\<close> are those of the specification: with \<open>ins\<close> the
  number of its neighbours in the grid, of the four to the north, south, west and east,
  whose type (after the emitter placement) is \<open>Floor\<close> or \<open>Emitter\<close>, and \<open>outs\<close> the
  number of those whose type is \<open>Floor\<close> or \<open>Escape\<close>, \<open>omega_in\<close> is 0 when \<open>ins = 0\<close> and
  the \<^verbatim>\<open>float\<close> quotient \<open>1 / ins\<close> otherwise, and \<open>omega_out\<close> likewise from \<open>outs\<close>.
  No sequence of calls changes them, nor the types they were counted from.
\<close>

theorem weights_from_neighbours:
  assumes "w * h < 4294967296" and "new_Sim rnd pmem cmem w h layout er ec = Inr s"
    and "r < h" and "c < w"
  shows
    "omega_in (cells (board s) ! (r * w + c)) =
       (if ins_count (board s) r c = 0 then 0
        else fdiv rnd 1 (real (ins_count (board s) r c))) \<and>
     omega_out (cells (board s) ! (r * w + c)) =
       (if outs_count (board s) r c = 0 then 0
        else fdiv rnd 1 (real (outs_count (board s) r c))) \<and>
     (\<exists>sto' s'. run rnd cs (sto, s) = Inr (sto', s') \<and>
        omega_in (cells (board s') ! (r * w + c)) = omega_in (cells (board s) ! (r * w + c)) \<and>
        omega_out (cells (board s') ! (r * w + c)) = omega_out (cells (board s) ! (r * w + c)) \<and>
        ins_count (board s') r c = ins_count (board s) r c \<and>
        outs_count (board s') r c = outs_count (board s) r c)"
proof -
  from new_Sim_weighted [OF assms] new_Sim_shape(1) [OF assms(1,2)]
  have "omega_in (cells (board s) ! (r * w + c)) = weight rnd (ins_count (board s) r c)"
    "omega_out (cells (board s) ! (r * w + c)) = weight rnd (outs_count (board s) r c)"
    by (simp_all add: weighted_def)
  moreover obtain sto' s' where r: "run rnd cs (sto, s) = Inr (sto', s')"
    "evolves (board s) (board s')"
    using run_total_evolves by blast
  moreover from r(2) have "ins_count (board s') r c = ins_count (board s) r c"
    "outs_count (board s') r c = outs_count (board s) r c"
    by (simp_all add: ins_count_def outs_count_def kind_def evolves_def)
  ultimately show ?thesis
    using r(2) by (simp add: weight_def evolves_def)
qed

theorem weights_from_neighbours_witness:
  "(3::nat) * 1 < 4294967296 \<and>
   new_Sim binary32 black blanks 3 1 corridor 0 0 = Inr corridor_sim \<and>
   (0::nat) < 1 \<and> (1::nat) < 3 \<and>
   ins_count (board corridor_sim) 0 1 = 1 \<and> outs_count (board corridor_sim) 0 1 = 1 \<and>
   omega_in (cells (board corridor_sim) ! 1) = fdiv binary32 1 1 \<and>
   omega_out (cells (board corridor_sim) ! 1) = fdiv binary32 1 1 \<and>
   run binary32 [StepOnce] (None, corridor_sim\<lparr>use_precalc_weights := True\<rparr>) =
     Inr (Some \<lparr>frame_skip_counter = 1, static_emitter_rate = 1, static_escape_rate = 1,
                static_use_precalc_weights = True\<rparr>,
          corridor_sim\<lparr>use_precalc_weights := True, ticks := 1, board := corridor_board 1\<rparr>) \<and>
   omega_in (cells (corridor_board 1) ! 1) = omega_in (cells (board corridor_sim) ! 1) \<and>
   omega_out (cells (corridor_board 1) ! 1) = omega_out (cells (board corridor_sim) ! 1)"
proof -
  have h: "(3::nat) * 1 < 4294967296" "(0::nat) < 1" "(1::nat) < 3" by simp_all
  have i: "ins_count (board corridor_sim) 0 1 = 1" "outs_count (board corridor_sim) 0 1 = 1"
    by (simp_all add: ins_count_def outs_count_def neighbours_def kind_def corridor_sim_def)
  have c: "emitter_rate corridor_sim = 1" "escape_rate corridor_sim = 1"
    "tick_rate corridor_sim = 1" "ticks corridor_sim = 0"
    by (simp_all add: corridor_sim_def)
  have r: "run binary32 [StepOnce] (None, corridor_sim\<lparr>use_precalc_weights := True\<rparr>) =
     Inr (Some \<lparr>frame_skip_counter = 1, static_emitter_rate = 1, static_escape_rate = 1,
                static_use_precalc_weights = True\<rparr>,
          corridor_sim\<lparr>use_precalc_weights := True, ticks := 1, board := corridor_board 1\<rparr>)"
    by (simp add: run_def step_def cycle_def init_statics_def Let_def corridor_first_update c)
      (simp add: corridor_sim_def)
  from weights_from_neighbours [OF h(1) new_Sim_corridor h(2,3),
      of "[StepOnce]" None, unfolded i]
  have "omega_in (cells (board corridor_sim) ! 1) = fdiv binary32 1 1 \<and>
    omega_out (cells (board corridor_sim) ! 1) = fdiv binary32 1 1"
    by simp
  moreover have "omega_in (cells (corridor_board 1) ! 1) = omega_in (cells (board corridor_sim) ! 1)"
    "omega_out (cells (corridor_board 1) ! 1) = omega_out (cells (board corridor_sim) ! 1)"
    by (simp_all add: corridor_sim_def corridor_board_def)
  ultimately show ?thesis
    using h i r new_Sim_corridor by simp
qed

subsection \<open>The corridor\<close>

lemma corridor_new_Sim:
  assumes "rnd 1 = 1" and "layout 0 = 48" and "layout 1 = 48" and "58 \<le> layout 2"
  shows "\<exists>s. new_Sim rnd pmem cmem 3 1 layout 0 0 = Inr s \<and> s = default_Sim (board s) \<and>
           corridor_state 0 (board s)"
proof -
  have b: "new_Board pmem cmem 3 1 layout =
     \<lparr>width = 3, height = 1, pixmap = [floor_color, floor_color, escape_color],
       cells = [(cmem 0)\<lparr>row := 0, col := 0, type := Floor, cost := 0, density := 0\<rparr>,
                (cmem 1)\<lparr>row := 0, col := 1, type := Floor, cost := 0, density := 0\<rparr>,
                (cmem 2)\<lparr>row := 0, col := 2, type := Escape, cost := 10, density := 0\<rparr>]\<rparr>"
  proof -
    have "58 \<le> layout (Suc (Suc 0))" using assms(4) by (simp add: numeral_2_eq_2)
    with assms(2,3) show ?thesis
      by (simp add: new_Board_def Let_def upt_3 upt_1 Board_cell_def uint32_simps)
  qed
  show ?thesis
    unfolding new_Sim_def b
    by (simp add: place_emitter_def cellAt_def writePixel_def weigh_board_def weigh_cell_def
        count_adj_def directions_def upt_3 upt_1 Let_def fdiv_def uint32_simps assms(1)
        default_Sim_def corridor_state_def)
qed

text \<open>
  Claim C9, as the code has it. On the corridor (codes for a floor of cost 0, a floor of
  cost 0 and an opening, the emitter placed at column 0) the constructor gives every cell
  the weights \<open>omega_in = 1\<close> and \<open>omega_out = 1\<close>: each cell has exactly one neighbour
  that counts as a source of inflow and one that counts as a sink of outflow. For the
  emitter that neighbour is the floor cell to its east, which counts for both, so its
  \<open>omega_in\<close> is 1 and not 0.
\<close>

theorem corridor_weights:
  assumes "rnd 1 = 1" and "layout 0 = 48" and "layout 1 = 48" and "58 \<le> layout 2"
  shows "\<exists>s. new_Sim rnd pmem cmem 3 1 layout 0 0 = Inr s \<and>
           map type (cells (board s)) = [Emitter, Floor, Escape] \<and>
           map omega_in (cells (board s)) = [1, 1, 1] \<and>
           map omega_out (cells (board s)) = [1, 1, 1]"
proof -
  from corridor_new_Sim [where rnd = rnd and layout = layout, OF assms] obtain s where
    s: "new_Sim rnd pmem cmem 3 1 layout 0 0 = Inr s" "corridor_state 0 (board s)"
    by blast
  from s(2) obtain x y z where "cells (board s) = [x, y, z]"
    by (auto simp: corridor_state_def length_Suc_conv numeral_3_eq_3)
  with s show ?thesis by (auto simp: corridor_state_def)
qed

theorem corridor_weights_witness:
  "binary32 1 = 1 \<and> corridor 0 = 48 \<and> corridor 1 = 48 \<and> 58 \<le> corridor 2 \<and>
   new_Sim binary32 black blanks 3 1 corridor 0 0 = Inr corridor_sim \<and>
   map type (cells (board corridor_sim)) = [Emitter, Floor, Escape] \<and>
   map omega_in (cells (board corridor_sim)) = [1, 1, 1] \<and>
   map omega_out (cells (board corridor_sim)) = [1, 1, 1]"
proof -
  have h: "corridor 0 = 48" "corridor 1 = 48" "58 \<le> corridor 2"
    by (simp_all add: corridor_def)
  from corridor_weights [where rnd = binary32 and layout = corridor, OF binary32_1 h, of black blanks]
    new_Sim_corridor h binary32_1
  show ?thesis by auto
qed

text \<open>The claim as the specification states it, with \<open>omega_in = 0\<close> for the emitter,
  does not hold of the constructed corridor.\<close>

theorem corridor_emitter_omega_in:
  "new_Sim binary32 black blanks 3 1 corridor 0 0 = Inr corridor_sim \<and>
   type (cells (board corridor_sim) ! 0) = Emitter \<and>
   omega_in (cells (board corridor_sim) ! 0) = 1 \<and>
   omega_in (cells (board corridor_sim) ! 0) \<noteq> 0"
  using new_Sim_corridor by (simp add: corridor_sim_def)

lemma run_append:
  "run rnd (xs @ ys) p = (case run rnd xs p of Inl e \<Rightarrow> Inl e | Inr p' \<Rightarrow> run rnd ys p')"
  unfolding run_def by (rule foldE_append)

lemma run_replicate_Suc:
  "run rnd (replicate (Suc n) c) p =
     (case run rnd (replicate n c) p of Inl e \<Rightarrow> Inl e | Inr p' \<Rightarrow> perform rnd c p')"
proof -
  have "replicate (Suc n) c = replicate n c @ [c]"
    by (simp add: replicate_append_same)
  then have "run rnd (replicate (Suc n) c) p = run rnd (replicate n c @ [c]) p" by simp
  also have "\<dots> = (case run rnd (replicate n c) p of Inl e \<Rightarrow> Inl e
                     | Inr p' \<Rightarrow> run rnd [c] p')"
    by (rule run_append)
  also have "\<dots> = (case run rnd (replicate n c) p of Inl e \<Rightarrow> Inl e
                     | Inr p' \<Rightarrow> perform rnd c p')"
    by (simp add: run_def split: sum.splits)
  finally show ?thesis .
qed

lemma corridor_tick:
  assumes r: "rnd 0 = 0" "rnd 1 = 1" "rnd (- 1) = - 1"
    and d: "d = 0 \<or> d = 1"
    and b: "corridor_state d b"
    and u: "update_board rnd 1 1 True b = Inr b'"
  shows "corridor_state (1 - d) b'"
proof -
  from b obtain x y z where c: "cells b = [x, y, z]"
    by (auto simp: corridor_state_def length_Suc_conv numeral_3_eq_3)
  with b have f: "type x = Emitter" "type y = Floor" "type z = Escape"
    "density x = 1" "density y = d" "density z = 0"
    "omega_in x = 1" "omega_in y = 1" "omega_in z = 1"
    "omega_out x = 1" "omega_out y = 1" "omega_out z = 1" "width b = 3" "height b = 1"
    by (simp_all add: corridor_state_def)
  from u d have "density (cells b' ! 1) = 1 - d"
    by (auto simp add: update_board_def upt_3 upt_1 update_cell_def cellAt_def directions_def
        update_adj_def exchange_def Let_def setter_writes fadd_def fsub_def fmul_def c f r
        uint32_simps)
  moreover from update_board_total [of rnd 1 1 True b] u have "evolves b b'" by auto
  ultimately show ?thesis
    using b by (simp add: corridor_state_def evolves_def)
qed

subsection \<open>The corridor with the weights of the first call\<close>

lemma binary32_quarter: "binary32 (1 / 4) = 1 / 4"
  by (subst binary32_normal [where e = "- 2"]) (simp_all add: round_even_def power_int_minus)

lemma binary32_half: "binary32 (1 / 2) = 1 / 2"
  by (subst binary32_normal [where e = "- 1"]) (simp_all add: round_even_def power_int_minus)

lemma binary32_3quarters: "binary32 (3 / 4) = 3 / 4"
  by (subst binary32_normal [where e = "- 1"]) (simp_all add: round_even_def power_int_minus)

lemma binary32_255_4: "binary32 (255 / 4) = 255 / 4"
  by (subst binary32_normal [where e = 5]) (simp_all add: round_even_def power_int_minus)

lemma binary32_765_4: "binary32 (765 / 4) = 765 / 4"
  by (subst binary32_normal [where e = 7]) (simp_all add: round_even_def power_int_minus)

lemmas binary32_quarters =
  binary32_quarter binary32_half binary32_3quarters binary32_255_4 binary32_765_4

lemma corridor_lagged_1:
  "update_board binary32 1 1 False (board corridor_sim) =
     Inr (corridor_after 0xBFBFBFFF (1 / 4) (1 / 4) 0)"
  by (simp add: update_defs upt_3 upt_1 uint32_simps binary32_unit binary32_quarters
      corridor_sim_def corridor_after_def)

lemma corridor_lagged_2:
  "update_board binary32 1 1 True (corridor_after 0xBFBFBFFF (1 / 4) (1 / 4) 0) =
     Inr (corridor_after 0x3F3F3FFF (3 / 4) (3 / 4) (1 / 4))"
  by (simp add: update_defs upt_3 upt_1 uint32_simps binary32_unit binary32_quarters
      corridor_after_def)

text \<open>
  Claim C2, as the code has it. The corridor is the grid of one row with the codes of a
  floor of cost 0, a floor of cost 0 and an opening, the emitter at column 0; both rates
  are 1 (the defaults) and \<open>use_precalc_weights\<close> is set. An update runs with the values
  that the statics of \<^verbatim>\<open>cycle\<close> hold, not with the members, so the scenario needs them to
  agree at the first tick: either the statics are yet to be initialised when the flag is
  set (\<open>sto = None\<close>: no call of \<^verbatim>\<open>cycle()\<close> or \<^verbatim>\<open>step()\<close> has been made in the program), or
  they hold both rates 1 and the precalculated weights already. Then, provided the
  \<^verbatim>\<open>float\<close> arithmetic is exact on 0, 1 and -1, as binary32 is, the constructor succeeds,
  cell 0 is the emitter with density 1, and after \<open>n\<close> ticks, each a call of \<^verbatim>\<open>step()\<close>,
  \<^verbatim>\<open>getTicks()\<close> is \<open>n\<close> and the density of the middle cell is exactly 1 when \<open>n\<close> is odd
  and exactly 0 when \<open>n\<close> is even: 1 after tick 1, 0 after tick 2, and so on for ever.
\<close>

theorem corridor_oscillates:
  assumes "rnd 0 = 0" and "rnd 1 = 1" and "rnd (- 1) = - 1"
    and "layout 0 = 48" and "layout 1 = 48" and "58 \<le> layout 2"
    and "\<And>st. sto = Some st \<Longrightarrow> latched st = (1, 1, True)"
  shows "\<exists>s. new_Sim rnd pmem cmem 3 1 layout 0 0 = Inr s \<and>
           emitter_rate s = 1 \<and> escape_rate s = 1 \<and>
           type (cells (board s) ! 0) = Emitter \<and> density (cells (board s) ! 0) = 1 \<and>
           type (cells (board s) ! 1) = Floor \<and> type (cells (board s) ! 2) = Escape \<and>
           (\<forall>n. \<exists>sto' s'.
              run rnd (replicate n StepOnce) (sto, s\<lparr>use_precalc_weights := True\<rparr>) =
                Inr (sto', s') \<and>
              getTicks s' = of_nat n \<and>
              density (cells (board s') ! 1) = (if odd n then 1 else 0))"
proof -
  from corridor_new_Sim [where rnd = rnd and layout = layout, OF assms(2,4,5,6)]
  obtain s where s: "new_Sim rnd pmem cmem 3 1 layout 0 0 = Inr s"
    "s = default_Sim (board s)" "corridor_state 0 (board s)"
    by blast
  have cfg: "emitter_rate s = 1" "escape_rate s = 1" "ticks s = 0"
    using arg_cong [OF s(2), of emitter_rate] arg_cong [OF s(2), of escape_rate]
      arg_cong [OF s(2), of ticks]
    by (simp_all add: default_Sim_def)
  let ?s0 = "s\<lparr>use_precalc_weights := True\<rparr>"
  have inv: "\<exists>sto' s'. run rnd (replicate n StepOnce) (sto, ?s0) = Inr (sto', s') \<and>
      getTicks s' = of_nat n \<and>
      corridor_state (if odd n then 1 else 0) (board s') \<and>
      config s' = (1, 1, True) \<and>
      latched (init_statics sto' s') = (1, 1, True)" for n
  proof (induction n)
    case 0
    have "latched (init_statics sto ?s0) = (1, 1, True)"
    proof (cases sto)
      case None
      with cfg show ?thesis by (simp add: latched_def init_statics_def)
    next
      case (Some st)
      with assms(7) [of st] show ?thesis by (simp add: init_statics_def)
    qed
    with s(3) cfg show ?case
      by (simp add: run_def getTicks_def config_def)
  next
    case (Suc n)
    then obtain sto1 s1 where
      1: "run rnd (replicate n StepOnce) (sto, ?s0) = Inr (sto1, s1)"
      "getTicks s1 = of_nat n"
      "corridor_state (if odd n then 1 else 0) (board s1)"
      "config s1 = (1, 1, True)" "latched (init_statics sto1 s1) = (1, 1, True)"
      by blast
    obtain sto2 s2 where 2: "step rnd sto1 s1 = Inr (sto2, s2)"
      using step_result [of rnd sto1 s1] by auto
    from 1(5) have l: "static_emitter_rate (init_statics sto1 s1) = 1"
      "static_escape_rate (init_statics sto1 s1) = 1"
      "static_use_precalc_weights (init_statics sto1 s1)"
      by (simp_all add: latched_def)
    from step_updating(1) [OF 2] have u: "update_board rnd 1 1 True (board s1) = Inr (board s2)"
      by (simp add: l)
    have "corridor_state (1 - (if odd n then 1 else 0)) (board s2)"
      by (rule corridor_tick [OF assms(1-3) _ 1(3) u]) simp
    then have c: "corridor_state (if odd (Suc n) then 1 else 0) (board s2)"
      by (cases "odd n") simp_all
    from step_updating(2) [OF 2] 1(4) obtain st2 where
      st2: "sto2 = Some st2" "latched st2 = (1, 1, True)"
      by auto
    have r: "run rnd (replicate (Suc n) StepOnce) (sto, ?s0) = Inr (sto2, s2)"
      unfolding run_replicate_Suc 1(1) by (simp add: 2)
    from step_updating(3,6) [OF 2] 1(2,4) have "config s2 = (1, 1, True)"
      "getTicks s2 = of_nat (Suc n)"
      by simp_all
    with r c st2 show ?case by (simp add: init_statics_def)
  qed
  have "\<exists>sto' s'. run rnd (replicate n StepOnce) (sto, ?s0) = Inr (sto', s') \<and>
      getTicks s' = of_nat n \<and> density (cells (board s') ! 1) = (if odd n then 1 else 0)" for n
  proof -
    from inv [of n] obtain sto' s' where
      "run rnd (replicate n StepOnce) (sto, ?s0) = Inr (sto', s')" "getTicks s' = of_nat n"
      "corridor_state (if odd n then 1 else 0) (board s')"
      by blast
    moreover from this(3) have "density (cells (board s') ! 1) = (if odd n then 1 else 0)"
      unfolding corridor_state_def by blast
    ultimately show ?thesis by blast
  qed
  moreover from s(3) have "type (cells (board s) ! 0) = Emitter"
    "density (cells (board s) ! 0) = 1" "type (cells (board s) ! 1) = Floor"
    "type (cells (board s) ! 2) = Escape"
    unfolding corridor_state_def by blast+
  ultimately show ?thesis using s(1) cfg by blast
qed

theorem corridor_oscillates_witness:
  "binary32 0 = 0 \<and> binary32 1 = 1 \<and> binary32 (- 1) = - 1 \<and>
   corridor 0 = 48 \<and> corridor 1 = 48 \<and> 58 \<le> corridor 2 \<and>
   new_Sim binary32 black blanks 3 1 corridor 0 0 = Inr corridor_sim \<and>
   (\<exists>sto' s'. run binary32 (replicate 3 StepOnce)
                 (None, corridor_sim\<lparr>use_precalc_weights := True\<rparr>) = Inr (sto', s') \<and>
              getTicks s' = 3 \<and> density (cells (board s') ! 1) = 1)"
proof -
  have h: "corridor 0 = 48" "corridor 1 = 48" "58 \<le> corridor 2"
    by (simp_all add: corridor_def)
  from corridor_oscillates [where rnd = binary32 and layout = corridor and sto = None,
      OF binary32_0 binary32_1 binary32_m1 h, of black blanks]
  obtain s where s: "new_Sim binary32 black blanks 3 1 corridor 0 0 = Inr s"
    "\<forall>n. \<exists>sto' s'.
        run binary32 (replicate n StepOnce) (None, s\<lparr>use_precalc_weights := True\<rparr>) =
          Inr (sto', s') \<and>
        getTicks s' = of_nat n \<and>
        density (cells (board s') ! 1) = (if odd n then 1 else 0)"
    by blast
  from s(1) new_Sim_corridor have "s = corridor_sim" by simp
  with s(2) [rule_format, of 3] have "\<exists>sto' s'. run binary32 (replicate 3 StepOnce)
                 (None, corridor_sim\<lparr>use_precalc_weights := True\<rparr>) = Inr (sto', s') \<and>
              getTicks s' = 3 \<and> density (cells (board s') ! 1) = 1"
    by simp
  with h binary32_unit new_Sim_corridor show ?thesis by simp
qed

text \<open>The claim as the specification states it, with no word of the statics, does not
  hold when \<^verbatim>\<open>cycle()\<close> has been called before the flag is set, as a host does that calls
  it once per frame: the call initialises the statics with the weights of 1/4, though
  the \<^verbatim>\<open>Sim\<close> is stopped. The first tick then runs with these and leaves the middle cell
  with density 1/4, the second with the precalculated weights leaves it with 3/4.\<close>

theorem corridor_lagged_weights:
  "new_Sim binary32 black blanks 3 1 corridor 0 0 = Inr corridor_sim \<and>
   emitter_rate corridor_sim = 1 \<and> escape_rate corridor_sim = 1 \<and>
   run binary32 [Cycle, SetUsePrecalcWeights True, StepOnce] (None, corridor_sim) =
     Inr (Some \<lparr>frame_skip_counter = 1, static_emitter_rate = 1, static_escape_rate = 1,
                static_use_precalc_weights = True\<rparr>,
          corridor_sim\<lparr>use_precalc_weights := True, ticks := 1,
            board := corridor_after 0xBFBFBFFF (1 / 4) (1 / 4) 0\<rparr>) \<and>
   run binary32 [Cycle, SetUsePrecalcWeights True, StepOnce, StepOnce] (None, corridor_sim) =
     Inr (Some \<lparr>frame_skip_counter = 1, static_emitter_rate = 1, static_escape_rate = 1,
                static_use_precalc_weights = True\<rparr>,
          corridor_sim\<lparr>use_precalc_weights := True, ticks := 2,
            board := corridor_after 0x3F3F3FFF (3 / 4) (3 / 4) (1 / 4)\<rparr>) \<and>
   density (cells (corridor_after 0xBFBFBFFF (1 / 4) (1 / 4) 0) ! 1) = 1 / 4 \<and>
   density (cells (corridor_after 0x3F3F3FFF (3 / 4) (3 / 4) (1 / 4)) ! 1) = 3 / 4"
proof -
  have c: "emitter_rate corridor_sim = 1" "escape_rate corridor_sim = 1"
    "tick_rate corridor_sim = 1" "ticks corridor_sim = 0" "\<not> use_precalc_weights corridor_sim"
    "state corridor_sim = Stop"
    by (simp_all add: corridor_sim_def)
  have 1: "run binary32 [Cycle, SetUsePrecalcWeights True, StepOnce] (None, corridor_sim) =
     Inr (Some \<lparr>frame_skip_counter = 1, static_emitter_rate = 1, static_escape_rate = 1,
                static_use_precalc_weights = True\<rparr>,
          corridor_sim\<lparr>use_precalc_weights := True, ticks := 1,
            board := corridor_after 0xBFBFBFFF (1 / 4) (1 / 4) 0\<rparr>)"
    by (simp add: run_def step_def cycle_def init_statics_def Let_def corridor_lagged_1 c)
  have 2: "run binary32 [Cycle, SetUsePrecalcWeights True, StepOnce, StepOnce] (None, corridor_sim) =
     Inr (Some \<lparr>frame_skip_counter = 1, static_emitter_rate = 1, static_escape_rate = 1,
                static_use_precalc_weights = True\<rparr>,
          corridor_sim\<lparr>use_precalc_weights := True, ticks := 2,
            board := corridor_after 0x3F3F3FFF (3 / 4) (3 / 4) (1 / 4)\<rparr>)"
    by (simp add: run_def step_def cycle_def init_statics_def Let_def corridor_lagged_1
        corridor_lagged_2 c)
  from 1 2 new_Sim_corridor c(1,2) show ?thesis
    by (simp add: corridor_after_def)
qed

subsection \<open>Walls\<close>

lemma exchange_Wall: "type (cs ! adj) = Wall \<Longrightarrow> exchange rnd er esr co ci ao ai cur adj cs = cs"
  by (simp add: exchange_def)

lemma exchange_other:
  assumes "k \<noteq> adj"
  shows "intake (exchange rnd er esr co ci ao ai cur adj cs ! k) = intake (cs ! k)"
    and "outtake (exchange rnd er esr co ci ao ai cur adj cs ! k) = outtake (cs ! k)"
  using assms by (simp_all add: exchange_def Let_def setter_writes split: Type.splits)

lemma update_adj_wall:
  assumes "type (cells b ! k) = Wall" and "k \<noteq> cur"
    and "intake (cells b ! k) = 0" and "outtake (cells b ! k) = 0"
  shows "intake (cells (update_adj rnd er esr upw co ci cur r c dir b) ! k) = 0 \<and>
         outtake (cells (update_adj rnd er esr upw co ci cur r c dir b) ! k) = 0"
proof (cases "cellAt_dir b dir r c")
  case None
  with assms show ?thesis by (simp add: update_adj_def)
next
  case (Some adj)
  show ?thesis
  proof (cases "k = adj")
    case True
    with assms Some show ?thesis
      by (simp add: update_adj_def Let_def exchange_Wall setter_writes)
  next
    case False
    with assms Some show ?thesis
      by (simp add: update_adj_def Let_def exchange_other setter_writes)
  qed
qed

lemma fold_update_adj_wall:
  assumes "type (cells b ! k) = Wall" and "k \<noteq> cur"
    and "intake (cells b ! k) = 0" and "outtake (cells b ! k) = 0"
  shows "intake (cells (fold (update_adj rnd er esr upw co ci cur r c) ds b) ! k) = 0 \<and>
         outtake (cells (fold (update_adj rnd er esr upw co ci cur r c) ds b) ! k) = 0"
  using assms
proof (induction ds arbitrary: b)
  case Nil
  then show ?case by simp
next
  case (Cons d ds)
  from update_adj_wall [OF Cons.prems] Cons.prems(1,2)
  show ?case by (simp add: Cons.IH)
qed

lemma update_cell_wall:
  assumes "update_cell rnd er esr upw r c b = Inr b'" and "type (cells b ! k) = Wall"
    and "intake (cells b ! k) = 0" and "outtake (cells b ! k) = 0"
  shows "intake (cells b' ! k) = 0 \<and> outtake (cells b' ! k) = 0"
  using assms(1)
proof (cases rule: update_cell_cases)
  case (1 cur)
  with assms show ?thesis by (simp add: setter_writes)
next
  case (2 cur b2 d)
  with assms(2) have k: "k \<noteq> cur" by auto
  let ?b1 = "b\<lparr>cells := set_outtake (set_intake (cells b) cur 0) cur 0\<rparr>"
  have "type (cells ?b1 ! k) = Wall" "intake (cells ?b1 ! k) = 0" "outtake (cells ?b1 ! k) = 0"
    using assms k by (simp_all add: setter_writes)
  from fold_update_adj_wall [OF this(1) k this(2,3)] 2(3,5) show ?thesis
    by simp
qed

lemma update_cell_wall_cur:
  assumes "update_cell rnd er esr upw r c b = Inr b'" and "cellAt b r c = Some cur"
    and "type (cells b ! cur) = Wall" and "cur < length (cells b)"
  shows "intake (cells b' ! cur) = 0 \<and> outtake (cells b' ! cur) = 0"
  using assms(1)
proof (cases rule: update_cell_cases)
  case (1 cur')
  with assms show ?thesis by (simp add: setter_writes)
next
  case (2 cur' b2 d)
  with assms show ?thesis by simp
qed

lemma update_board_keeps_walls_idle:
  assumes "update_board rnd er esr upw b = Inr b'" and "walls_idle b"
  shows "walls_idle b'"
proof -
  let ?I = "\<lambda>t::Board. evolves b t \<and> walls_idle t"
  have "?I b'"
  proof (rule foldE_invariant [OF assms(1) [unfolded update_board_flat], where I = ?I])
    show "?I b" using assms(2) by (simp add: evolves_refl)
  next
    fix x t t'
    assume t: "?I t" and u: "update_cell rnd er esr upw (fst x) (snd x) t = Inr t'"
    from update_cell_evolves [OF u] have e: "evolves t t'" .
    have "walls_idle t'"
      unfolding walls_idle_def
    proof (intro allI impI)
      fix k
      assume k: "k < length (cells t')" "type (cells t' ! k) = Wall"
      with e have "k < length (cells t)" "type (cells t ! k) = Wall"
        by (simp_all add: evolves_def)
      with t have "type (cells t ! k) = Wall" "intake (cells t ! k) = 0" "outtake (cells t ! k) = 0"
        by (simp_all add: walls_idle_def)
      from update_cell_wall [OF u this]
      show "intake (cells t' ! k) = 0 \<and> outtake (cells t' ! k) = 0" .
    qed
    with t e show "?I t'" by (blast intro: evolves_trans)
  qed
  then show ?thesis by simp
qed

lemma update_board_walls_idle:
  assumes wf: "width b * height b < 4294967296" "length (cells b) = width b * height b"
    and u: "update_board rnd er esr upw b = Inr b'"
  shows "walls_idle b'"
proof -
  let ?w = "width b"
  let ?I = "\<lambda>t::Board. evolves b t"
  let ?R = "\<lambda>p (t::Board). snd p < ?w \<longrightarrow> type (cells b ! (fst p * ?w + snd p)) = Wall \<longrightarrow>
              intake (cells t ! (fst p * ?w + snd p)) = 0 \<and>
              outtake (cells t ! (fst p * ?w + snd p)) = 0"
  have visited: "?R (r, c) b'" if rc: "r < height b" "c < width b" for r c
  proof (rule foldE_visited [where I = ?I and R = ?R, OF u [unfolded update_board_flat]])
    show "?I b" by (rule evolves_refl)
    show "(r, c) \<in> set (List.product [0..<height b] [0..<width b])" using rc by simp
  next
    fix x t t'
    assume x: "x \<in> set (List.product [0..<height b] [0..<width b])" and t: "?I t"
      and t': "update_cell rnd er esr upw (fst x) (snd x) t = Inr t'"
    from x have xb: "fst x < height b" "snd x < width b" by auto
    from t have d: "width t = width b" "height t = height b" "length (cells t) = length (cells b)"
      and ty: "\<And>k. type (cells t ! k) = type (cells b ! k)"
      by (simp_all add: evolves_def)
    have k: "fst x * width b + snd x < width b * height b"
      using xb by (rule index_less)
    have cur: "cellAt t (fst x) (snd x) = Some (fst x * width b + snd x)"
      using cellAt_Some [of t "fst x" "snd x"] wf(1) xb d by simp
    have 1: "?I t'" using t update_cell_evolves [OF t'] by (blast intro: evolves_trans)
    have 2: "?R x t'"
      using update_cell_wall_cur [OF t' cur] ty k wf(2) d by simp
    have 3: "\<forall>y. ?R y t \<longrightarrow> ?R y t'"
    proof (intro allI impI)
      fix y
      assume y: "?R y t" "snd y < width b" "type (cells b ! (fst y * width b + snd y)) = Wall"
      then have "type (cells t ! (fst y * width b + snd y)) = Wall"
        "intake (cells t ! (fst y * width b + snd y)) = 0"
        "outtake (cells t ! (fst y * width b + snd y)) = 0"
        using ty by simp_all
      from update_cell_wall [OF t' this]
      show "intake (cells t' ! (fst y * width b + snd y)) = 0 \<and>
            outtake (cells t' ! (fst y * width b + snd y)) = 0" .
    qed
    from 1 2 3 show "?I t' \<and> ?R x t' \<and> (\<forall>y. ?R y t \<longrightarrow> ?R y t')" by blast
  qed
  from update_board_total [of rnd er esr upw b] u have e: "evolves b b'" by auto
  show ?thesis
    unfolding walls_idle_def
  proof (intro allI impI)
    fix k
    assume k: "k < length (cells b')" "type (cells b' ! k) = Wall"
    with e wf have kb: "k < width b * height b" "type (cells b ! k) = Wall"
      by (simp_all add: evolves_def)
    from index_covers [OF kb(1)] visited [of "k div width b" "k mod width b"] kb(2)
    show "intake (cells b' ! k) = 0 \<and> outtake (cells b' ! k) = 0" by simp
  qed
qed

lemma perform_walls_idle:
  assumes "perform rnd c (sto, s) = Inr (sto', s')"
  shows "walls_idle (board s) \<Longrightarrow> walls_idle (board s')"
    and "width (board s) * height (board s) < 4294967296 \<Longrightarrow>
         length (cells (board s)) = width (board s) * height (board s) \<Longrightarrow>
         getTicks s' \<noteq> getTicks s \<Longrightarrow> walls_idle (board s')"
proof -
  have b: "board s' = board s" if "getTicks s' = getTicks s"
  proof (cases c)
    case Cycle
    with assms that cycle_idle(1) [of rnd sto s sto' s'] show ?thesis by simp
  next
    case StepOnce
    with assms that step_updating(6) [of rnd sto s sto' s'] show ?thesis by simp
  qed (use assms in \<open>auto simp: start_def stop_def\<close>)
  show "walls_idle (board s')" if "walls_idle (board s)"
  proof (cases "getTicks s' = getTicks s")
    case True
    with b that show ?thesis by simp
  next
    case False
    from update_board_keeps_walls_idle [OF perform_updating(1) [OF assms False] that]
    show ?thesis .
  qed
  show "walls_idle (board s')"
    if "width (board s) * height (board s) < 4294967296"
      "length (cells (board s)) = width (board s) * height (board s)"
      "getTicks s' \<noteq> getTicks s"
    using update_board_walls_idle [OF that(1,2) perform_updating(1) [OF assms that(3)]] .
qed

subsection \<open>Densities of a constructed board\<close>

lemma new_Sim_densities:
  assumes "w * h < 4294967296" and "new_Sim rnd pmem cmem w h layout er ec = Inr s"
    and "k < w * h"
  shows "type (cells (board s) ! k) = Emitter \<longrightarrow> density (cells (board s) ! k) = 1"
    and "type (cells (board s) ! k) \<noteq> Emitter \<longrightarrow> density (cells (board s) ! k) = 0"
proof -
  let ?b = "new_Board pmem cmem w h layout"
  let ?e = "er * w + ec"
  from index_covers [OF assms(3)]
  have "classified layout w (k div w) (k mod w) ?b"
    by (intro new_Board_classified assms(1)) simp_all
  with index_covers(3) [OF assms(3)]
  have c: "type (cells ?b ! k) \<noteq> Emitter" "density (cells ?b ! k) = 0"
    using classified_Floor(2,3) [of layout w "k div w" "k mod w" ?b] by simp_all
  from new_Sim_Inr(1,2) [OF assms(1,2)] have "?e < w * h" by (intro index_less)
  then have e: "?e < length (cells ?b)"
    using assms(1) by (simp add: new_Board_shape uint32_small)
  from new_Sim_Inr(6) [OF assms(1,2)]
  have "type (cells (board s) ! k) = (if k = ?e then Emitter else type (cells ?b ! k))"
    "density (cells (board s) ! k) = (if k = ?e then 1 else density (cells ?b ! k))"
    by (simp_all add: reweighted_def emitter_placed_written [OF e])
  with c show "type (cells (board s) ! k) = Emitter \<longrightarrow> density (cells (board s) ! k) = 1"
    and "type (cells (board s) ! k) \<noteq> Emitter \<longrightarrow> density (cells (board s) ! k) = 0"
    by simp_all
qed

subsection \<open>Cells that are not floor cells\<close>

lemma new_Sim_walled: "new_Sim binary32 black used 2 1 walled 0 0 = Inr walled_sim"
proof -
  have u: "[0..<2] = [0, 1]" by (simp add: upt_rec)
  have b: "new_Board black used 2 1 walled =
     \<lparr>width = 2, height = 1, pixmap = [floor_color, wall_color],
       cells = [(used 0)\<lparr>row := 0, col := 0, type := Floor, cost := 0, density := 0\<rparr>,
                (used 1)\<lparr>row := 0, col := 1, type := Wall, cost := - 1, density := 0\<rparr>]\<rparr>"
    by (simp add: new_Board_def Let_def u upt_1 Board_cell_def uint32_simps walled_def)
  show ?thesis
    unfolding new_Sim_def b
    by (simp add: place_emitter_def cellAt_def writePixel_def weigh_board_def weigh_cell_def
        count_adj_def directions_def u upt_1 Let_def fdiv_def uint32_simps binary32_1
        walled_sim_def used_def blank_def)
qed

text \<open>
  Claim C3. Let a \<^verbatim>\<open>Sim\<close> be constructed on a grid of fewer than
  \<open>2^32\<close> cells, and let any calls \<open>cs\<close> be made on it, whatever the statics of
  \<^verbatim>\<open>cycle\<close> hold. The calls return, and in the state they reach every cell has the type
  it was constructed with, every cell that is not a floor cell has the density it was
  constructed with, which is 1 for the emitter and 0 for a wall and for an opening; on
  a grid with no floor cell all densities are those of the construction. For the
  scratch fields of the walls, a cycle being a completed board update: any further call
  that completes a board update leaves them 0 in every wall, and a call made when they
  are 0 leaves them 0.
\<close>

theorem inert_cells_keep_density:
  assumes "w * h < 4294967296" and "new_Sim rnd pmem cmem w h layout er ec = Inr s"
  shows "\<exists>sto' s'. run rnd cs (sto, s) = Inr (sto', s') \<and>
           (\<forall>k<w * h.
              type (cells (board s') ! k) = type (cells (board s) ! k) \<and>
              (type (cells (board s) ! k) \<noteq> Floor \<longrightarrow>
                 density (cells (board s') ! k) = density (cells (board s) ! k)) \<and>
              (type (cells (board s) ! k) = Emitter \<longrightarrow> density (cells (board s') ! k) = 1) \<and>
              (type (cells (board s) ! k) = Wall \<or> type (cells (board s) ! k) = Escape \<longrightarrow>
                 density (cells (board s') ! k) = 0)) \<and>
           ((\<forall>k<w * h. type (cells (board s) ! k) \<noteq> Floor) \<longrightarrow>
              map density (cells (board s')) = map density (cells (board s))) \<and>
           (\<exists>sto'' s''. perform rnd c (sto', s') = Inr (sto'', s'') \<and>
              (getTicks s'' \<noteq> getTicks s' \<longrightarrow> walls_idle (board s'')) \<and>
              (walls_idle (board s') \<longrightarrow> walls_idle (board s'')))"
proof -
  from run_total_evolves [of rnd cs sto s] obtain sto' s' where
    r: "run rnd cs (sto, s) = Inr (sto', s')" and e: "evolves (board s) (board s')"
    by blast
  note shape = new_Sim_shape [OF assms]
  from e have ty: "\<And>k. type (cells (board s') ! k) = type (cells (board s) ! k)"
    and de: "\<And>k. type (cells (board s) ! k) \<noteq> Floor \<Longrightarrow>
                density (cells (board s') ! k) = density (cells (board s) ! k)"
    and sh: "width (board s') = w" "height (board s') = h" "length (cells (board s')) = w * h"
    using shape by (simp_all add: evolves_def)
  have 1: "\<forall>k<w * h.
              type (cells (board s') ! k) = type (cells (board s) ! k) \<and>
              (type (cells (board s) ! k) \<noteq> Floor \<longrightarrow>
                 density (cells (board s') ! k) = density (cells (board s) ! k)) \<and>
              (type (cells (board s) ! k) = Emitter \<longrightarrow> density (cells (board s') ! k) = 1) \<and>
              (type (cells (board s) ! k) = Wall \<or> type (cells (board s) ! k) = Escape \<longrightarrow>
                 density (cells (board s') ! k) = 0)"
  proof (intro allI impI)
    fix k
    assume "k < w * h"
    from new_Sim_densities [OF assms this] ty [of k] de [of k]
    show "type (cells (board s') ! k) = type (cells (board s) ! k) \<and>
              (type (cells (board s) ! k) \<noteq> Floor \<longrightarrow>
                 density (cells (board s') ! k) = density (cells (board s) ! k)) \<and>
              (type (cells (board s) ! k) = Emitter \<longrightarrow> density (cells (board s') ! k) = 1) \<and>
              (type (cells (board s) ! k) = Wall \<or> type (cells (board s) ! k) = Escape \<longrightarrow>
                 density (cells (board s') ! k) = 0)"
      by auto
  qed
  have 2: "map density (cells (board s')) = map density (cells (board s))"
    if "\<forall>k<w * h. type (cells (board s) ! k) \<noteq> Floor"
  proof (rule nth_equalityI)
    show "length (map density (cells (board s'))) = length (map density (cells (board s)))"
      using sh shape by simp
  next
    fix k
    assume "k < length (map density (cells (board s')))"
    then have "k < w * h" using sh by simp
    with that de [of k] sh shape
    show "map density (cells (board s')) ! k = map density (cells (board s)) ! k" by simp
  qed
  obtain sto'' s'' where p: "perform rnd c (sto', s') = Inr (sto'', s'')"
    using perform_total [of rnd c "(sto', s')"] by auto
  have 3: "walls_idle (board s'')" if "getTicks s'' \<noteq> getTicks s'"
    using perform_walls_idle(2) [OF p] sh assms(1) that by simp
  have 4: "walls_idle (board s'')" if "walls_idle (board s')"
    using perform_walls_idle(1) [OF p that] .
  from r 1 2 p 3 4 show ?thesis by blast
qed

theorem inert_cells_keep_density_witness:
  "(2::nat) * 1 < 4294967296 \<and>
   new_Sim binary32 black used 2 1 walled 0 0 = Inr walled_sim \<and>
   map type (cells (board walled_sim)) = [Emitter, Wall] \<and>
   (\<exists>sto' s'. run binary32 [Start, Cycle] (None, walled_sim) = Inr (sto', s') \<and>
      getTicks s' = 1 \<and>
      map type (cells (board s')) = [Emitter, Wall] \<and>
      map density (cells (board s')) = [1, 0] \<and>
      intake (cells (board s') ! 1) = 0 \<and> outtake (cells (board s') ! 1) = 0)"
proof -
  let ?s1 = "walled_sim\<lparr>state := Run\<rparr>"
  have w: "(2::nat) * 1 < 4294967296" by simp
  have c: "map type (cells (board walled_sim)) = [Emitter, Wall]"
    "map density (cells (board walled_sim)) = [1, 0]"
    "length (cells (board walled_sim)) = 2"
    "type (cells (board walled_sim) ! 0) = Emitter" "type (cells (board walled_sim) ! 1) = Wall"
    by (simp_all add: walled_sim_def)
  have r1: "run binary32 [Start] (None, walled_sim) = Inr (None, ?s1)"
    by (simp add: run_def start_def)
  have "state ?s1 = Run" "frame_skip_counter (init_statics None ?s1) = 1"
    by (simp_all add: init_statics_def walled_sim_def)
  from cycle_counted [OF this, of binary32] obtain st s2 where
    c2: "cycle binary32 None ?s1 = Inr (Some st, s2)" "ticks s2 = 1"
    unfolding cycle_None [of binary32 ?s1] by (auto simp: walled_sim_def)
  then have r2: "run binary32 [Start, Cycle] (None, walled_sim) = Inr (Some st, s2)"
    by (simp add: run_def start_def)
  from inert_cells_keep_density [OF w new_Sim_walled, of "[Start]" None Cycle] r1 c2
  have i: "walls_idle (board s2)"
    by (auto simp: getTicks_def walled_sim_def)
  from inert_cells_keep_density [OF w new_Sim_walled, of "[Start, Cycle]" None Cycle] r2
  have a: "\<forall>k<2. type (cells (board s2) ! k) = type (cells (board walled_sim) ! k)"
    and d: "map density (cells (board s2)) = map density (cells (board walled_sim))"
    using c(4,5) by (auto simp: less_Suc_eq numeral_2_eq_2)
  from a [rule_format, of 0] a [rule_format, of 1] c(4,5)
  have t0: "type (cells (board s2) ! 0) = Emitter" and t1: "type (cells (board s2) ! 1) = Wall"
    by simp_all
  from run_total_evolves [of binary32 "[Start, Cycle]" None walled_sim] r2 c(3)
  have l: "length (cells (board s2)) = 2" by (simp add: evolves_def)
  then obtain x y where xy: "cells (board s2) = [x, y]"
    by (auto simp: length_Suc_conv numeral_2_eq_2)
  with t0 t1 have t: "map type (cells (board s2)) = [Emitter, Wall]" by simp
  from i l t1 have "intake (cells (board s2) ! 1) = 0 \<and> outtake (cells (board s2) ! 1) = 0"
    by (simp add: walls_idle_def)
  with w new_Sim_walled c(1,2) r2 c2(2) t d show ?thesis
    by (simp add: getTicks_def)
qed

text \<open>The constructor does not write the scratch fields. Until the first board update
  they hold what the allocated block held: on a block that is not zero, a stopped \<^verbatim>\<open>Sim\<close>
  returns from \<^verbatim>\<open>cycle\<close> with the scratch fields of its wall as they were allocated.\<close>

lemma wall_scratch_before_first_update:
  "new_Sim binary32 black used 2 1 walled 0 0 = Inr walled_sim \<and>
   run binary32 [Cycle] (None, walled_sim) =
     Inr (Some \<lparr>frame_skip_counter = 1, static_emitter_rate = 1, static_escape_rate = 1,
                static_use_precalc_weights = False\<rparr>, walled_sim) \<and>
   type (cells (board walled_sim) ! 1) = Wall \<and>
   intake (cells (board walled_sim) ! 1) = 5 \<and>
   outtake (cells (board walled_sim) ! 1) = 7"
proof -
  have "run binary32 [Cycle] (None, walled_sim) =
     Inr (Some \<lparr>frame_skip_counter = 1, static_emitter_rate = 1, static_escape_rate = 1,
                static_use_precalc_weights = False\<rparr>, walled_sim)"
    by (simp add: run_def cycle_def init_statics_def walled_sim_def)
  with new_Sim_walled show ?thesis by (simp add: walled_sim_def)
qed

subsection \<open>The exchange in exact arithmetic\<close>

lemma exchange_flow:
  assumes adj: "intake (cs ! adj) = 0" "outtake (cs ! adj) = 0"
    and rates: "0 \<le> er" "er \<le> 1" "0 \<le> esr" "esr \<le> 1"
    and w: "0 \<le> co" "0 \<le> ci" "0 \<le> ao" "0 \<le> ai"
    and d: "0 \<le> density (cs ! cur)" "density (cs ! cur) \<le> 1"
    and f: "type (cs ! adj) = Floor \<Longrightarrow> 0 \<le> density (cs ! adj) \<and> density (cs ! adj) \<le> 1"
    and e: "type (cs ! adj) = Emitter \<Longrightarrow> 0 \<le> density (cs ! adj)"
  shows "0 \<le> outtake (exchange exact er esr co ci ao ai cur adj cs ! adj)"
    and "outtake (exchange exact er esr co ci ao ai cur adj cs ! adj) \<le>
           real (inflow (type (cs ! adj))) * (ci * (1 - density (cs ! cur)))"
    and "0 \<le> intake (exchange exact er esr co ci ao ai cur adj cs ! adj)"
    and "intake (exchange exact er esr co ci ao ai cur adj cs ! adj) \<le>
           real (outflow (type (cs ! adj))) * (co * density (cs ! cur))"
proof -
  let ?d = "density (cs ! cur)"
  let ?a = "density (cs ! adj)"
  have in0: "0 \<le> ci * (1 - ?d)" and out0: "0 \<le> co * ?d"
    using w d by simp_all
  have "0 \<le> outtake (exchange exact er esr co ci ao ai cur adj cs ! adj) \<and>
        outtake (exchange exact er esr co ci ao ai cur adj cs ! adj) \<le>
           real (inflow (type (cs ! adj))) * (ci * (1 - ?d)) \<and>
        0 \<le> intake (exchange exact er esr co ci ao ai cur adj cs ! adj) \<and>
        intake (exchange exact er esr co ci ao ai cur adj cs ! adj) \<le>
           real (outflow (type (cs ! adj))) * (co * ?d)"
  proof (cases "type (cs ! adj)")
    case Wall
    with adj show ?thesis by (simp add: exchange_def inflow_def outflow_def)
  next
    case Floor
    from f [OF Floor] w have "0 \<le> ai * (1 - ?a)" "0 \<le> ao * ?a" by simp_all
    with Floor adj in0 out0 show ?thesis
      by (simp add: exchange_def Let_def setter_writes fmul_def fsub_def exact_def
          inflow_def outflow_def min_def)
  next
    case Emitter
    from e [OF Emitter] w have "0 \<le> ao * ?a" by simp
    with in0 have m: "0 \<le> min (ao * ?a) (ci * (1 - ?d))" by simp
    then have "er * min (ao * ?a) (ci * (1 - ?d)) \<le> 1 * min (ao * ?a) (ci * (1 - ?d))"
      using rates by (intro mult_right_mono) simp_all
    then have "er * min (ao * ?a) (ci * (1 - ?d)) \<le> ci * (1 - ?d)" by simp
    moreover have "0 \<le> er * min (ao * ?a) (ci * (1 - ?d))" using m rates by simp
    ultimately show ?thesis
      using Emitter adj
      by (simp add: exchange_def setter_writes fmul_def fsub_def exact_def
          inflow_def outflow_def)
  next
    case Escape
    have "esr * (co * ?d) \<le> 1 * (co * ?d)"
      using rates out0 by (intro mult_right_mono) simp_all
    moreover have "0 \<le> esr * (co * ?d)" using rates out0 by simp
    ultimately show ?thesis
      using Escape adj
      by (simp add: exchange_def setter_writes fmul_def exact_def inflow_def outflow_def
          mult.assoc)
  qed
  then show "0 \<le> outtake (exchange exact er esr co ci ao ai cur adj cs ! adj)"
    and "outtake (exchange exact er esr co ci ao ai cur adj cs ! adj) \<le>
           real (inflow (type (cs ! adj))) * (ci * (1 - density (cs ! cur)))"
    and "0 \<le> intake (exchange exact er esr co ci ao ai cur adj cs ! adj)"
    and "intake (exchange exact er esr co ci ao ai cur adj cs ! adj) \<le>
           real (outflow (type (cs ! adj))) * (co * density (cs ! cur))"
    by simp_all
qed

text \<open>What one direction adds to the scratch fields of the floor cell under update: at
  most one share of its free capacity to its intake, and at most one share of its
  density to its outtake.\<close>

lemma update_adj_flow:
  assumes reg: "regular b" and bd: "bounded b"
    and rc: "r < height b" "c < width b" and cur: "cur = r * width b + c"
    and ty: "type (cells b ! cur) = Floor"
    and rates: "0 \<le> er" "er \<le> 1" "0 \<le> esr" "esr \<le> 1"
    and w: "0 \<le> co" "0 \<le> ci"
  shows "intake (cells b ! cur) \<le> intake (cells (update_adj exact er esr upw co ci cur r c dir b) ! cur)"
    and "intake (cells (update_adj exact er esr upw co ci cur r c dir b) ! cur) \<le>
           intake (cells b ! cur) +
           real (case cellAt_dir b dir r c of None \<Rightarrow> 0
                 | Some adj \<Rightarrow> inflow (type (cells b ! adj))) *
             (ci * (1 - density (cells b ! cur)))"
    and "outtake (cells b ! cur) \<le> outtake (cells (update_adj exact er esr upw co ci cur r c dir b) ! cur)"
    and "outtake (cells (update_adj exact er esr upw co ci cur r c dir b) ! cur) \<le>
           outtake (cells b ! cur) +
           real (case cellAt_dir b dir r c of None \<Rightarrow> 0
                 | Some adj \<Rightarrow> outflow (type (cells b ! adj))) *
             (co * density (cells b ! cur))"
proof -
  let ?b' = "update_adj exact er esr upw co ci cur r c dir b"
  from reg have wf: "width b * height b < 4294967296" "length (cells b) = width b * height b"
    by (simp_all add: regular_def)
  have lt: "cur < length (cells b)" unfolding cur wf(2) using rc by (rule index_less)
  with bd ty have d: "0 \<le> density (cells b ! cur)" "density (cells b ! cur) \<le> 1"
    by (simp_all add: bounded_def)
  have "intake (cells b ! cur) \<le> intake (cells ?b' ! cur) \<and>
        intake (cells ?b' ! cur) \<le>
           intake (cells b ! cur) +
           real (case cellAt_dir b dir r c of None \<Rightarrow> 0
                 | Some adj \<Rightarrow> inflow (type (cells b ! adj))) *
             (ci * (1 - density (cells b ! cur))) \<and>
        outtake (cells b ! cur) \<le> outtake (cells ?b' ! cur) \<and>
        outtake (cells ?b' ! cur) \<le>
           outtake (cells b ! cur) +
           real (case cellAt_dir b dir r c of None \<Rightarrow> 0
                 | Some adj \<Rightarrow> outflow (type (cells b ! adj))) *
             (co * density (cells b ! cur))"
  proof (cases "cellAt_dir b dir r c")
    case None
    then show ?thesis by (simp add: update_adj_def)
  next
    case (Some adj)
    from cellAt_dir_neighbour [OF wf(1) rc Some] wf(2) cur
    have adj: "adj < length (cells b)" "adj \<noteq> cur" by simp_all
    let ?ao = "if upw then omega_out (cells b ! adj) else 1 / 4"
    let ?ai = "if upw then omega_in (cells b ! adj) else 1 / 4"
    let ?cs1 = "set_outtake (set_intake (cells b) adj 0) adj 0"
    let ?cs2 = "exchange exact er esr co ci ?ao ?ai cur adj ?cs1"
    from reg adj(1) have aw: "0 \<le> ?ao" "0 \<le> ?ai" by (simp_all add: regular_def)
    have z: "intake (?cs1 ! adj) = 0" "outtake (?cs1 ! adj) = 0"
      using adj(1) by (simp_all add: setter_writes)
    have d1: "0 \<le> density (?cs1 ! cur)" "density (?cs1 ! cur) \<le> 1"
      using d by simp_all
    have f1: "type (?cs1 ! adj) = Floor \<Longrightarrow>
        0 \<le> density (?cs1 ! adj) \<and> density (?cs1 ! adj) \<le> 1"
      using bd adj(1) by (simp add: bounded_def)
    have e1: "type (?cs1 ! adj) = Emitter \<Longrightarrow> 0 \<le> density (?cs1 ! adj)"
      using reg adj(1) by (simp add: regular_def)
    note x = exchange_flow [of ?cs1 adj er esr co ci ?ao ?ai cur, OF z rates w aw d1 f1 e1]
    have i: "intake (cells ?b' ! cur) = intake (cells b ! cur) + outtake (?cs2 ! adj)"
      using Some adj lt
      by (simp add: update_adj_def Let_def setter_writes exchange_other fadd_def exact_def)
    have o: "outtake (cells ?b' ! cur) = outtake (cells b ! cur) + intake (?cs2 ! adj)"
      using Some adj lt
      by (simp add: update_adj_def Let_def setter_writes exchange_other fadd_def exact_def)
    from x show ?thesis unfolding i o using Some by simp
  qed
  then show "intake (cells b ! cur) \<le> intake (cells ?b' ! cur)"
    and "intake (cells ?b' ! cur) \<le>
           intake (cells b ! cur) +
           real (case cellAt_dir b dir r c of None \<Rightarrow> 0
                 | Some adj \<Rightarrow> inflow (type (cells b ! adj))) *
             (ci * (1 - density (cells b ! cur)))"
    and "outtake (cells b ! cur) \<le> outtake (cells ?b' ! cur)"
    and "outtake (cells ?b' ! cur) \<le>
           outtake (cells b ! cur) +
           real (case cellAt_dir b dir r c of None \<Rightarrow> 0
                 | Some adj \<Rightarrow> outflow (type (cells b ! adj))) *
             (co * density (cells b ! cur))"
    by simp_all
qed

text \<open>Both predicates read the shape, the types, the weights and the densities only.\<close>

lemma cellAt_dir_shape:
  "width b' = width b \<Longrightarrow> height b' = height b \<Longrightarrow> cellAt_dir b' dir r c = cellAt_dir b dir r c"
  by (cases dir) (simp_all add: cellAt_def)

lemma counts_shape:
  assumes "width b' = width b" and "height b' = height b"
    and "\<And>k. type (cells b' ! k) = type (cells b ! k)"
  shows "ins_count b' r c = ins_count b r c" and "outs_count b' r c = outs_count b r c"
  using assms by (simp_all add: ins_count_def outs_count_def kind_def)

lemma regular_shape:
  assumes "regular b"
    and "width b' = width b" and "height b' = height b"
    and "length (cells b') = length (cells b)"
    and "\<And>k. type (cells b' ! k) = type (cells b ! k)"
    and "\<And>k. omega_in (cells b' ! k) = omega_in (cells b ! k)"
    and "\<And>k. omega_out (cells b' ! k) = omega_out (cells b ! k)"
    and "\<And>k. type (cells b ! k) \<noteq> Floor \<Longrightarrow> density (cells b' ! k) = density (cells b ! k)"
  shows "regular b'"
proof -
  note n = counts_shape [of b' b, OF assms(2,3,5)]
  have "type (cells b' ! k) = Emitter \<longrightarrow> 0 \<le> density (cells b' ! k)"
    if "k < length (cells b)" for k
    using assms(1,5,8) that by (auto simp: regular_def)
  with assms(1-7) show ?thesis
    unfolding regular_def n by simp
qed

lemma regular_evolves:
  assumes "regular b" and "evolves b b'"
  shows "regular b'"
  using assms(2) by (intro regular_shape [OF assms(1)]) (simp_all add: evolves_def)

lemma bounded_shape:
  assumes "bounded b" and "length (cells b') = length (cells b)"
    and "\<And>k. type (cells b' ! k) = type (cells b ! k)"
    and "\<And>k. density (cells b' ! k) = density (cells b ! k)"
  shows "bounded b'"
  using assms by (simp add: bounded_def)

lemma fold_update_adj_flow:
  assumes reg: "regular b" and bd: "bounded b"
    and rc: "r < height b" "c < width b" and cur: "cur = r * width b + c"
    and ty: "type (cells b ! cur) = Floor"
    and rates: "0 \<le> er" "er \<le> 1" "0 \<le> esr" "esr \<le> 1"
    and w: "0 \<le> co" "0 \<le> ci"
  shows "intake (cells b ! cur) \<le>
           intake (cells (fold (update_adj exact er esr upw co ci cur r c) ds b) ! cur) \<and>
         intake (cells (fold (update_adj exact er esr upw co ci cur r c) ds b) ! cur) \<le>
           intake (cells b ! cur) +
           real (sum_list (map (\<lambda>d. case cellAt_dir b d r c of None \<Rightarrow> 0
                                     | Some adj \<Rightarrow> inflow (type (cells b ! adj))) ds)) *
             (ci * (1 - density (cells b ! cur))) \<and>
         outtake (cells b ! cur) \<le>
           outtake (cells (fold (update_adj exact er esr upw co ci cur r c) ds b) ! cur) \<and>
         outtake (cells (fold (update_adj exact er esr upw co ci cur r c) ds b) ! cur) \<le>
           outtake (cells b ! cur) +
           real (sum_list (map (\<lambda>d. case cellAt_dir b d r c of None \<Rightarrow> 0
                                     | Some adj \<Rightarrow> outflow (type (cells b ! adj))) ds)) *
             (co * density (cells b ! cur))"
  using reg bd rc cur ty
proof (induction ds arbitrary: b)
  case Nil
  show ?case by simp
next
  case (Cons d ds)
  let ?b1 = "update_adj exact er esr upw co ci cur r c d b"
  note s = update_adj_flow [OF Cons.prems(1-6) rates w, of upw d]
  have reg1: "regular ?b1" by (rule regular_shape [OF Cons.prems(1)]) simp_all
  have bd1: "bounded ?b1" by (rule bounded_shape [OF Cons.prems(2)]) simp_all
  have rc1: "r < height ?b1" "c < width ?b1" using Cons.prems(3,4) by simp_all
  have cur1: "cur = r * width ?b1 + c" using Cons.prems(5) by simp
  have ty1: "type (cells ?b1 ! cur) = Floor" using Cons.prems(6) by simp
  have sh: "cellAt_dir ?b1 = cellAt_dir b"
    by (intro ext cellAt_dir_shape) simp_all
  note ih = Cons.IH [OF reg1 bd1 rc1 cur1 ty1, unfolded sh update_adj_read]
  let ?f = "fold (update_adj exact er esr upw co ci cur r c) ds ?b1"
  have f: "fold (update_adj exact er esr upw co ci cur r c) (d # ds) b = ?f" by simp
  show ?case
    unfolding f using s ih by (simp add: algebra_simps)
qed

lemma counts_le_4: "ins_count b r c \<le> 4" "outs_count b r c \<le> 4"
proof -
  have "length (neighbours (width b) (height b) r c) \<le> 4"
    by (simp add: neighbours_def)
  moreover have "ins_count b r c \<le> length (neighbours (width b) (height b) r c)"
    "outs_count b r c \<le> length (neighbours (width b) (height b) r c)"
    unfolding ins_count_def outs_count_def by (rule length_filter_le)+
  ultimately show "ins_count b r c \<le> 4" "outs_count b r c \<le> 4" by linarith+
qed

lemma flows_counted:
  assumes "width b * height b < 4294967296" and "r < height b" and "c < width b"
  shows "sum_list (map (\<lambda>d. case cellAt_dir b d r c of None \<Rightarrow> 0
                              | Some adj \<Rightarrow> inflow (type (cells b ! adj))) directions) =
           ins_count b r c"
    and "sum_list (map (\<lambda>d. case cellAt_dir b d r c of None \<Rightarrow> 0
                              | Some adj \<Rightarrow> outflow (type (cells b ! adj))) directions) =
           outs_count b r c"
  using counts_agree [OF assms] fold_count_adj [of b r c directions "(0, 0)"]
  by simp_all

text \<open>The update of one position keeps the densities of the floor cells in \<open>[0, 1]\<close>.\<close>

lemma update_cell_bounded:
  assumes reg: "regular b" and bd: "bounded b"
    and rates: "0 \<le> er" "er \<le> 1" "0 \<le> esr" "esr \<le> 1"
    and rc: "r < height b" "c < width b"
    and u: "update_cell exact er esr upw r c b = Inr b'"
  shows "bounded b'"
  using u
proof (cases rule: update_cell_cases)
  case (1 cur)
  with bd show ?thesis by (simp add: bounded_def)
next
  case (2 cur b2 d)
  from reg have wf: "width b * height b < 4294967296" "length (cells b) = width b * height b"
    by (simp_all add: regular_def)
  from cellAt_Some [OF wf(1) rc] 2(1) have cur: "cur = r * width b + c" by simp
  have lt: "cur < length (cells b)" unfolding cur wf(2) using rc by (rule index_less)
  let ?co = "if upw then omega_out (cells b ! cur) else 1 / 4"
  let ?ci = "if upw then omega_in (cells b ! cur) else 1 / 4"
  let ?b1 = "b\<lparr>cells := set_outtake (set_intake (cells b) cur 0) cur 0\<rparr>"
  let ?dd = "density (cells b ! cur)"
  let ?n = "ins_count b r c"
  let ?m = "outs_count b r c"
  from bd 2(2) lt have dd: "0 \<le> ?dd" "?dd \<le> 1" by (simp_all add: bounded_def)
  from reg lt have w: "0 \<le> ?co" "0 \<le> ?ci" by (simp_all add: regular_def)
  have reg1: "regular ?b1" by (rule regular_shape [OF reg]) simp_all
  have bd1: "bounded ?b1" by (rule bounded_shape [OF bd]) simp_all
  have rc1: "r < height ?b1" "c < width ?b1" using rc by simp_all
  have cur1: "cur = r * width ?b1 + c" using cur by simp
  have ty1: "type (cells ?b1 ! cur) = Floor" using 2(2) by simp
  have z: "intake (cells ?b1 ! cur) = 0" "outtake (cells ?b1 ! cur) = 0"
    "density (cells ?b1 ! cur) = ?dd"
    using lt by (simp_all add: setter_writes)
  have sh: "cellAt_dir ?b1 = cellAt_dir b"
    by (intro ext cellAt_dir_shape) simp_all
  have ty: "\<And>k. type (cells ?b1 ! k) = type (cells b ! k)" by simp
  note fl = flows_counted [OF wf(1) rc]
  note f = fold_update_adj_flow [OF reg1 bd1 rc1 cur1 ty1 rates w, of upw directions,
      folded 2(3), unfolded z sh ty fl]
  have n: "real ?n * ?ci \<le> 1"
  proof (cases upw)
    case True
    with reg rc cur show ?thesis by (simp add: regular_def)
  next
    case False
    have "real ?n \<le> 4" using counts_le_4(1) [of b r c] by simp
    with False show ?thesis by simp
  qed
  have m: "real ?m * ?co \<le> 1"
  proof (cases upw)
    case True
    with reg rc cur show ?thesis by (simp add: regular_def)
  next
    case False
    have "real ?m \<le> 4" using counts_le_4(2) [of b r c] by simp
    with False show ?thesis by simp
  qed
  have "real ?n * (?ci * (1 - ?dd)) = (real ?n * ?ci) * (1 - ?dd)" by simp
  also have "\<dots> \<le> 1 * (1 - ?dd)" using n dd by (intro mult_right_mono) simp_all
  finally have i: "intake (cells b2 ! cur) \<le> 1 - ?dd" using f by simp
  have "real ?m * (?co * ?dd) = (real ?m * ?co) * ?dd" by simp
  also have "\<dots> \<le> 1 * ?dd" using m dd by (intro mult_right_mono) simp_all
  finally have o: "outtake (cells b2 ! cur) \<le> ?dd" using f by simp
  from f have p: "0 \<le> intake (cells b2 ! cur)" "0 \<le> outtake (cells b2 ! cur)" by simp_all
  have db2: "density (cells b2 ! cur) = ?dd" unfolding 2(3) by simp
  from 2(4) have d: "d = ?dd + (intake (cells b2 ! cur) - outtake (cells b2 ! cur))"
    by (simp add: db2 fadd_def fsub_def exact_def)
  from d i o p have d01: "0 \<le> d" "d \<le> 1" by linarith+
  show ?thesis
    unfolding bounded_def
  proof (intro allI impI)
    fix k
    assume k: "k < length (cells b')" "type (cells b' ! k) = Floor"
    then have kb: "k < length (cells b)" "type (cells b ! k) = Floor"
      unfolding 2(5) 2(3) by simp_all
    have "density (cells b' ! k) = (if k = cur then d else density (cells b ! k))"
      unfolding 2(5) using lt by (simp add: setter_writes 2(3))
    with d01 bd kb show "0 \<le> density (cells b' ! k) \<and> density (cells b' ! k) \<le> 1"
      by (simp add: bounded_def)
  qed
qed

lemma update_board_bounded:
  assumes reg: "regular b" and bd: "bounded b"
    and rates: "0 \<le> er" "er \<le> 1" "0 \<le> esr" "esr \<le> 1"
    and u: "update_board exact er esr upw b = Inr b'"
  shows "bounded b'"
proof -
  let ?I = "\<lambda>t::Board. evolves b t \<and> bounded t"
  have "?I b'"
  proof (rule foldE_invariant [OF u [unfolded update_board_flat], where I = ?I])
    show "?I b" using bd by (simp add: evolves_refl)
  next
    fix x t t'
    assume x: "x \<in> set (List.product [0..<height b] [0..<width b])" and t: "?I t"
      and t': "update_cell exact er esr upw (fst x) (snd x) t = Inr t'"
    from t have e: "evolves b t" and bt: "bounded t" by simp_all
    from x e have xb: "fst x < height t" "snd x < width t" by (auto simp: evolves_def)
    from update_cell_bounded [OF regular_evolves [OF reg e] bt rates xb t']
    have "bounded t'" .
    with e update_cell_evolves [OF t'] show "?I t'" by (blast intro: evolves_trans)
  qed
  then show ?thesis by simp
qed

lemma weight_exact: "0 \<le> weight exact n" "real n * weight exact n \<le> 1"
  by (simp_all add: weight_def fdiv_def exact_def)

lemma new_Sim_regular:
  assumes "w * h < 4294967296" and "new_Sim exact pmem cmem w h layout er ec = Inr s"
  shows "regular (board s)"
proof -
  note shape = new_Sim_shape [OF assms]
  have 1: "0 \<le> omega_in (cells (board s) ! k) \<and> 0 \<le> omega_out (cells (board s) ! k) \<and>
        (type (cells (board s) ! k) = Emitter \<longrightarrow> 0 \<le> density (cells (board s) ! k))"
    if "k < w * h" for k
  proof -
    from index_covers [OF that] new_Sim_weighted [OF assms, of "k div w" "k mod w"]
    have "omega_in (cells (board s) ! k) = weight exact (ins_count (board s) (k div w) (k mod w))"
      "omega_out (cells (board s) ! k) = weight exact (outs_count (board s) (k div w) (k mod w))"
      using shape by (simp_all add: weighted_def)
    with new_Sim_densities(1) [OF assms that] show ?thesis
      by (simp add: weight_exact)
  qed
  have 2: "real (ins_count (board s) r c) * omega_in (cells (board s) ! (r * w + c)) \<le> 1 \<and>
        real (outs_count (board s) r c) * omega_out (cells (board s) ! (r * w + c)) \<le> 1"
    if "r < h" "c < w" for r c
    using new_Sim_weighted [OF assms that] shape by (simp add: weighted_def weight_exact)
  from 1 2 shape assms(1) show ?thesis by (simp add: regular_def)
qed

lemma perform_same_board:
  assumes "perform rnd c (sto, s) = Inr (sto', s')" and "getTicks s' = getTicks s"
  shows "board s' = board s"
proof (cases c)
  case Cycle
  with assms cycle_idle(1) [of rnd sto s sto' s'] show ?thesis by simp
next
  case StepOnce
  with assms step_updating(6) [of rnd sto s sto' s'] show ?thesis by simp
qed (use assms in \<open>auto simp: start_def stop_def\<close>)

subsection \<open>The densities of the floor cells\<close>

lemma new_Sim_corridor_exact: "new_Sim exact black blanks 3 1 corridor 0 0 = Inr corridor_sim"
  unfolding new_Sim_def new_Board_corridor
  by (simp add: place_emitter_def cellAt_def writePixel_def weigh_board_def weigh_cell_def
      count_adj_def directions_def upt_3 upt_1 Let_def fdiv_def blank_def corridor_sim_def
      uint32_simps exact_def)

subsection \<open>Evaluation on the crossing\<close>

lemma binary32_minus: "binary32 (- x) = - binary32 x"
  by (simp add: binary32_def Let_def)

lemma binary32_third: "binary32 (1 / 3) = 11184811 / 33554432"
  by (subst binary32_normal [where e = "- 2"]) (simp_all add: round_even_def power_int_minus)

lemma upt_9: "[0..<9] = [0, 1, 2, 3, 4, 5, 6, 7, 8]"
  by (simp add: upt_rec)

lemma new_Board_crossing:
  "new_Board black blanks 3 3 crossing =
     \<lparr>width = 3, height = 3,
       pixmap = [wall_color, escape_color, wall_color, escape_color, floor_color, escape_color,
                 wall_color, floor_color, wall_color],
       cells = [blank\<lparr>type := Wall, cost := - 1, row := 0, col := 0, density := 0\<rparr>,
                blank\<lparr>type := Escape, cost := 10, row := 0, col := 1, density := 0\<rparr>,
                blank\<lparr>type := Wall, cost := - 1, row := 0, col := 2, density := 0\<rparr>,
                blank\<lparr>type := Escape, cost := 10, row := 1, col := 0, density := 0\<rparr>,
                blank\<lparr>type := Floor, cost := 0, row := 1, col := 1, density := 0\<rparr>,
                blank\<lparr>type := Escape, cost := 10, row := 1, col := 2, density := 0\<rparr>,
                blank\<lparr>type := Wall, cost := - 1, row := 2, col := 0, density := 0\<rparr>,
                blank\<lparr>type := Floor, cost := 0, row := 2, col := 1, density := 0\<rparr>,
                blank\<lparr>type := Wall, cost := - 1, row := 2, col := 2, density := 0\<rparr>]\<rparr>"
  by (simp add: new_Board_def Let_def upt_3 upt_9 Board_cell_def crossing_def blank_def
      blanks_def black_def uint32_simps)

lemma new_Sim_crossing: "new_Sim binary32 black blanks 3 3 crossing 2 1 = Inr crossing_sim"
  unfolding new_Sim_def new_Board_crossing
  by (simp add: place_emitter_def cellAt_def writePixel_def weigh_board_def weigh_cell_def
      count_adj_def directions_def upt_3 Let_def fdiv_def blank_def crossing_sim_def
      crossing_board_def uint32_simps binary32_1 binary32_half binary32_third)

lemma binary32_7_8: "binary32 (7 / 8) = 7 / 8"
  by (subst binary32_normal [where e = "- 1"]) (simp_all add: round_even_def power_int_minus)

lemma binary32_1_8: "binary32 (1 / 8) = 1 / 8"
  by (subst binary32_normal [where e = "- 3"]) (simp_all add: round_even_def power_int_minus)

lemma binary32_1785_8: "binary32 (1785 / 8) = 1785 / 8"
  by (subst binary32_normal [where e = 7]) (simp_all add: round_even_def power_int_minus)

lemma binary32_255_8: "binary32 (255 / 8) = 255 / 8"
  by (subst binary32_normal [where e = 4]) (simp_all add: round_even_def power_int_minus)

lemma crossing_update_1:
  "update_board binary32 (7 / 8) 0 True (board crossing_sim) =
     Inr (crossing_board 0xDF2020FF 0x1F1F1FFF 0xFFFF00FF (7 / 8) (7 / 8) 0 0)"
  by (simp add: update_defs upt_3 uint32_simps binary32_unit binary32_minus
      binary32_7_8 binary32_1_8 binary32_1785_8 binary32_255_8
      crossing_sim_def crossing_board_def)

lemma binary32_third_again: "binary32 (11184811 / 33554432) = 11184811 / 33554432"
  by (subst binary32_normal [where e = "- 2"]) (simp_all add: round_even_def power_int_minus)

lemma binary32_share: "binary32 (78293677 / 268435456) = 4893355 / 16777216"
  by (subst binary32_normal [where e = "- 2"]) (simp_all add: round_even_def power_int_minus)

lemma binary32_share_1: "binary32 (4893355 / 16777216) = 4893355 / 16777216"
  by (subst binary32_normal [where e = "- 2"]) (simp_all add: round_even_def power_int_minus)

lemma binary32_share_2: "binary32 (4893355 / 8388608) = 4893355 / 8388608"
  by (subst binary32_normal [where e = "- 1"]) (simp_all add: round_even_def power_int_minus)

lemma binary32_share_3: "binary32 (14680065 / 16777216) = 14680065 / 16777216"
  by (subst binary32_normal [where e = "- 1"]) (simp_all add: round_even_def power_int_minus)

lemma binary32_ulp: "binary32 (1 / 16777216) = 1 / 16777216"
  by (subst binary32_normal [where e = "- 24"]) (simp_all add: round_even_def power_int_minus)

lemma binary32_255_ulp: "binary32 (255 / 16777216) = 255 / 16777216"
  by (subst binary32_normal [where e = "- 17"]) (simp_all add: round_even_def power_int_minus)

lemma binary32_white: "binary32 (4278190335 / 16777216) = 16711681 / 65536"
  by (subst binary32_normal [where e = 7]) (simp_all add: round_even_def power_int_minus)

lemma crossing_update_2:
  "update_board binary32 0 1 True (crossing_board 0xDF2020FF 0x1F1F1FFF 0xFFFF00FF (7 / 8) (7 / 8) 0 0) =
     Inr (crossing_board 0x00FFFFFF 0xFFFFFFFF 0x0000FFFF (- (1 / 16777216)) 0
            (14680065 / 16777216) (4893355 / 16777216))"
  by (simp add: update_defs upt_3 uint32_simps binary32_unit binary32_minus
      binary32_7_8 binary32_1_8 binary32_third_again binary32_share binary32_share_1
      binary32_share_2 binary32_share_3 binary32_ulp binary32_255_ulp binary32_white
      crossing_board_def)




end
